theory Spec2Isabelle
  imports Main "HOL-Library.Word"
begin

section \<open>The image-to-column and column-to-image transforms of \<open>im2col.h\<close>\<close>

text \<open>
  The header defines two function templates, \<open>im2col_cpu\<close> and \<open>col2im_cpu\<close>,
  over a scalar type \<open>Dtype\<close>. Both take nine \<open>int\<close> parameters, one read-only
  buffer and one buffer they write.

  \<^item> A C \<open>int\<close> is a 32-bit word, read as a signed number by \<open>sint\<close>. Addition,
    subtraction and multiplication wrap around (the language leaves signed overflow
    undefined; the model takes the two's complement result of the machine
    instructions); comparisons compare the signed values.
  \<^item> \<open>/\<close> and \<open>%\<close> truncate towards zero (\<open>c_div\<close> and \<open>c_rem\<close> on the signed
    values). The divisions of lines 9, 10, 37 and 38 are faults of the model when the
    divisor is zero and when \<open>INT_MIN\<close> is divided by \<open>-1\<close>.
  \<^item> A buffer is a pointer in the source, without a length. It is modelled as a
    store from offsets (relative to the pointer) to scalars; an \<open>int\<close> index is
    the offset \<open>sint\<close> of its value. The two buffers of a call are separate stores:
    the source reads one and writes the other.
  \<^item> \<open>Dtype\<close> is a type variable; the type classes say what each result needs
    (\<open>zero\<close> for the constant \<open>0\<close>, \<open>plus\<close> for \<open>+=\<close>).
\<close>

subsection \<open>Integer arithmetic of the source\<close>

type_synonym cint = "32 word"

definition in32 :: "int \<Rightarrow> bool" where
  "in32 x \<longleftrightarrow> - (2 ^ 31) \<le> x \<and> x < 2 ^ 31"

definition c_div :: "int \<Rightarrow> int \<Rightarrow> int" where
  "c_div a b = sgn a * sgn b * (\<bar>a\<bar> div \<bar>b\<bar>)"

definition c_rem :: "int \<Rightarrow> int \<Rightarrow> int" where
  "c_rem a b = a - b * c_div a b"

definition quot32 :: "cint \<Rightarrow> cint \<Rightarrow> cint" where
  "quot32 a b = word_of_int (c_div (sint a) (sint b))"

definition rem32 :: "cint \<Rightarrow> cint \<Rightarrow> cint" where
  "rem32 a b = word_of_int (c_rem (sint a) (sint b))"

datatype fault = DivisionByZero | DivisionOverflow

definition checked_div :: "cint \<Rightarrow> cint \<Rightarrow> fault + cint" where
  "checked_div a b =
     (if sint b = 0 then Inl DivisionByZero
      else if sint a = - (2 ^ 31) \<and> sint b = - 1 then Inl DivisionOverflow
      else Inr (quot32 a b))"

subsection \<open>Parameters, buffers and loops\<close>

text \<open>
  The nine geometry parameters, in the order of the parameter lists.
  \<open>col2im_cpu\<close> calls the fourth and fifth \<open>patch_h\<close> and \<open>patch_w\<close>; they are the
  fields \<open>kernel_h\<close> and \<open>kernel_w\<close> here. The record is used at two number types:
  \<open>cint geometry\<close> is what the functions receive, \<open>int geometry\<close> is the same nine
  numbers as mathematical integers, in which the specification speaks.
\<close>

record 'n geometry =
  channels :: 'n
  height :: 'n
  width :: 'n
  kernel_h :: 'n
  kernel_w :: 'n
  pad_h :: 'n
  pad_w :: 'n
  stride_h :: 'n
  stride_w :: 'n

type_synonym 'a buffer = "int \<Rightarrow> 'a"

text \<open>
  The loop \<open>for (int i = i0; i < n; ++i) body\<close> on a state \<open>s\<close>. The increment
  cannot wrap: it is executed only below \<open>n\<close>.
\<close>

function for_loop :: "cint \<Rightarrow> cint \<Rightarrow> (cint \<Rightarrow> 's \<Rightarrow> 's) \<Rightarrow> 's \<Rightarrow> 's" where
  "for_loop i n body s = (if sint i < sint n then for_loop (i + 1) n body (body i s) else s)"
  by pat_completeness auto

termination
proof (relation "measure (\<lambda>(i, n, body, s). nat (sint n - sint i))")
  show "wf (measure (\<lambda>(i, n, body, s). nat (sint n - sint i)))" by simp
next
  fix i n :: cint and body :: "cint \<Rightarrow> 's \<Rightarrow> 's" and s :: 's
  assume a: "sint i < sint n"
  have "sint n < 2 ^ 31" using sint_lt [of n] by simp
  moreover have "- (2 ^ 31) \<le> sint i" using sint_ge [of i] by simp
  ultimately have "sint (i + 1) = sint i + 1"
    using a by (simp add: sint_word_ariths signed_take_bit_int_eq_self)
  with a show "((i + 1, n, body, body i s), (i, n, body, s)) \<in>
      measure (\<lambda>(i, n, body, s). nat (sint n - sint i))"
    by simp
qed

declare for_loop.simps [simp del]

subsection \<open>The derived sizes\<close>

text \<open>
  Lines 9 to 11, repeated as lines 37 to 39. The two divisions are executed on every
  call, and they are where a call can fault. \<open>channels_col\<close> is a product of
  three \<open>int\<close>s and wraps.
\<close>

definition height_col :: "cint geometry \<Rightarrow> fault + cint" where
  "height_col g =
     (case checked_div (height g + 2 * pad_h g - kernel_h g) (stride_h g) of
        Inl e \<Rightarrow> Inl e
      | Inr q \<Rightarrow> Inr (q + 1))"

definition width_col :: "cint geometry \<Rightarrow> fault + cint" where
  "width_col g =
     (case checked_div (width g + 2 * pad_w g - kernel_w g) (stride_w g) of
        Inl e \<Rightarrow> Inl e
      | Inr q \<Rightarrow> Inr (q + 1))"

definition channels_col :: "cint geometry \<Rightarrow> cint" where
  "channels_col g = channels g * kernel_h g * kernel_w g"

subsection \<open>The two transforms\<close>

text \<open>
  The divisions by \<open>kernel_w\<close> and \<open>kernel_h\<close> of lines 13 to 15 are executed only
  inside the loop over \<open>c\<close>, which runs only when \<open>channels_col\<close> is positive, hence
  with both divisors non-zero, and their dividends are never \<open>INT_MIN\<close> (lemmas
  \<open>loop_divisors_nonzero\<close> and \<open>loop_dividends\<close> below); \<open>quot32\<close> and \<open>rem32\<close>
  model them. In the two definitions \<open>hc\<close> and \<open>wc\<close> are the values of the source's
  variables \<open>height_col\<close> and \<open>width_col\<close>.

  The body of \<open>im2col_cpu\<close> touches \<open>data_col\<close> in one way only: the assignment
  \<open>data_col[k] = x\<close> of lines 21 and 24. The body is therefore written once, over
  any state \<open>'s\<close> with a \<open>store\<close> operation. With the update of a buffer as
  \<open>store\<close> it is the function itself (\<open>im2col_cpu\<close>); with a log as state it
  gives the sequence of the stores the function executes (\<open>im2col_stores\<close>).
\<close>

definition im2col_with ::
  "(int \<Rightarrow> 'a \<Rightarrow> 's \<Rightarrow> 's) \<Rightarrow> ('a::zero) buffer \<Rightarrow> cint geometry \<Rightarrow> 's \<Rightarrow> fault + 's" where
  "im2col_with store data_im g data_col =
     (case height_col g of
        Inl e \<Rightarrow> Inl e
      | Inr hc \<Rightarrow>
     (case width_col g of
        Inl e \<Rightarrow> Inl e
      | Inr wc \<Rightarrow>
        Inr
        (for_loop 0 (channels_col g) (\<lambda>c data_col.
           let w_offset = rem32 c (kernel_w g);
               h_offset = rem32 (quot32 c (kernel_w g)) (kernel_h g);
               c_im = quot32 (quot32 c (kernel_h g)) (kernel_w g)
           in for_loop 0 hc (\<lambda>h data_col.
                for_loop 0 wc (\<lambda>w data_col.
                  let h_pad = h * stride_h g - pad_h g + h_offset;
                      w_pad = w * stride_w g - pad_w g + w_offset
                  in if sint h_pad \<ge> 0 \<and> sint h_pad < sint (height g) \<and>
                        sint w_pad \<ge> 0 \<and> sint w_pad < sint (width g)
                     then store (sint (channels_col g * wc * h + channels_col g * w + c))
                            (data_im (sint ((c_im * height g + h_pad) * width g + w_pad)))
                            data_col
                     else store (sint (channels_col g * wc * h + channels_col g * w + c))
                            0 data_col)
                  data_col)
                data_col)
           data_col)))"

definition im2col_cpu ::
  "('a::zero) buffer \<Rightarrow> cint geometry \<Rightarrow> 'a buffer \<Rightarrow> fault + 'a buffer" where
  "im2col_cpu data_im g data_col =
     im2col_with (\<lambda>k x data_col. data_col(k := x)) data_im g data_col"

definition im2col_stores :: "('a::zero) buffer \<Rightarrow> cint geometry \<Rightarrow> fault + (int \<times> 'a) list" where
  "im2col_stores data_im g = im2col_with (\<lambda>k x log. log @ [(k, x)]) data_im g []"

text \<open>Line 36: the loop that clears the image buffer. Its bound is a product of three
  \<open>int\<close>s and wraps.\<close>

definition zero_image :: "cint geometry \<Rightarrow> ('a::zero) buffer \<Rightarrow> 'a buffer" where
  "zero_image g data_im =
     for_loop 0 (height g * width g * channels g) (\<lambda>i data_im. data_im(sint i := 0)) data_im"

text \<open>\<open>col2im_cpu\<close> runs the loop of line 36 before the divisions of lines 37 and 38.\<close>

definition col2im_cpu ::
  "('a::{zero,plus}) buffer \<Rightarrow> cint geometry \<Rightarrow> 'a buffer \<Rightarrow> fault + 'a buffer" where
  "col2im_cpu data_col g data_im =
     (let data_im = zero_image g data_im
      in case height_col g of
        Inl e \<Rightarrow> Inl e
      | Inr hc \<Rightarrow>
     (case width_col g of
        Inl e \<Rightarrow> Inl e
      | Inr wc \<Rightarrow>
        Inr
        (for_loop 0 (channels_col g) (\<lambda>c data_im.
           let w_offset = rem32 c (kernel_w g);
               h_offset = rem32 (quot32 c (kernel_w g)) (kernel_h g);
               c_im = quot32 (quot32 c (kernel_h g)) (kernel_w g)
           in for_loop 0 hc (\<lambda>h data_im.
                for_loop 0 wc (\<lambda>w data_im.
                  let h_pad = h * stride_h g - pad_h g + h_offset;
                      w_pad = w * stride_w g - pad_w g + w_offset
                  in if sint h_pad \<ge> 0 \<and> sint h_pad < sint (height g) \<and>
                        sint w_pad \<ge> 0 \<and> sint w_pad < sint (width g)
                     then data_im
                       (sint ((c_im * height g + h_pad) * width g + w_pad) :=
                          data_im (sint ((c_im * height g + h_pad) * width g + w_pad)) +
                          data_col (sint (channels_col g * wc * h + channels_col g * w + c)))
                     else data_im)
                  data_im)
                data_im)
           data_im)))"

text \<open>The value a returning call leaves at one offset of its output buffer.\<close>

definition value_at :: "fault + 'a buffer \<Rightarrow> int \<Rightarrow> 'a option" where
  "value_at r i = (case r of Inl e \<Rightarrow> None | Inr out \<Rightarrow> Some (out i))"

subsection \<open>Names for the expressions of the loop bodies\<close>

text \<open>
  The index expressions of lines 13 to 15, 18 to 22 and their copies in
  \<open>col2im_cpu\<close>, as functions of the loop counters.
\<close>

definition w_offset32 :: "cint geometry \<Rightarrow> cint \<Rightarrow> cint" where
  "w_offset32 g c = rem32 c (kernel_w g)"

definition h_offset32 :: "cint geometry \<Rightarrow> cint \<Rightarrow> cint" where
  "h_offset32 g c = rem32 (quot32 c (kernel_w g)) (kernel_h g)"

definition c_im32 :: "cint geometry \<Rightarrow> cint \<Rightarrow> cint" where
  "c_im32 g c = quot32 (quot32 c (kernel_h g)) (kernel_w g)"

definition h_pad32 :: "cint geometry \<Rightarrow> cint \<Rightarrow> cint \<Rightarrow> cint" where
  "h_pad32 g h c = h * stride_h g - pad_h g + h_offset32 g c"

definition w_pad32 :: "cint geometry \<Rightarrow> cint \<Rightarrow> cint \<Rightarrow> cint" where
  "w_pad32 g w c = w * stride_w g - pad_w g + w_offset32 g c"

definition in_image32 :: "cint geometry \<Rightarrow> cint \<Rightarrow> cint \<Rightarrow> cint \<Rightarrow> bool" where
  "in_image32 g h w c \<longleftrightarrow>
     sint (h_pad32 g h c) \<ge> 0 \<and> sint (h_pad32 g h c) < sint (height g) \<and>
     sint (w_pad32 g w c) \<ge> 0 \<and> sint (w_pad32 g w c) < sint (width g)"

definition image_offset32 :: "cint geometry \<Rightarrow> cint \<Rightarrow> cint \<Rightarrow> cint \<Rightarrow> int" where
  "image_offset32 g h w c =
     sint ((c_im32 g c * height g + h_pad32 g h c) * width g + w_pad32 g w c)"

definition slot32 :: "cint \<Rightarrow> cint \<Rightarrow> cint \<Rightarrow> cint \<Rightarrow> cint \<Rightarrow> int" where
  "slot32 cc wc h w c = sint (cc * wc * h + cc * w + c)"

text \<open>
  The values \<open>(c, h, w)\<close> of the three loop counters, in the order the loops visit
  them, for loop bounds \<open>cc\<close>, \<open>hc\<close> and \<open>wc\<close>.
\<close>

definition triples32 :: "cint \<Rightarrow> cint \<Rightarrow> cint \<Rightarrow> (int \<times> int \<times> int) list" where
  "triples32 cc hc wc =
     List.product [0..sint cc - 1] (List.product [0..sint hc - 1] [0..sint wc - 1])"

section \<open>The same computation on mathematical integers\<close>

text \<open>
  The specification speaks of the geometry as nine integers and of the derived
  sizes and offsets as integer expressions. \<open>to_c\<close> passes an \<open>int geometry\<close> to the
  functions; \<open>representable\<close> says that the nine numbers are values of C \<open>int\<close>s,
  and \<open>fits\<close> that the values of the \<open>int\<close> expressions of the source are: the two
  dividends, the three derived sizes, the sizes of the two buffers, and the smallest
  and the largest padded row and column. Under these two conditions, and for positive
  sizes and strides (\<open>geometry_ok\<close>), the functions compute what the loops below
  compute on unbounded integers (lemmas \<open>im2col_cpu_refines\<close>,
  \<open>im2col_stores_refines\<close>, \<open>zero_image_refines\<close> and \<open>col2im_cpu_refines\<close>).
  The definitions of this section, all with names ending in \<open>_int\<close> where the source
  has the name, are used in proofs and to state the claims; they are not the model of
  the code, and no claim is settled by them alone.
\<close>

definition to_c :: "int geometry \<Rightarrow> cint geometry" where
  "to_c g = \<lparr>channels = word_of_int (channels g), height = word_of_int (height g),
     width = word_of_int (width g), kernel_h = word_of_int (kernel_h g),
     kernel_w = word_of_int (kernel_w g), pad_h = word_of_int (pad_h g),
     pad_w = word_of_int (pad_w g), stride_h = word_of_int (stride_h g),
     stride_w = word_of_int (stride_w g)\<rparr>"

definition representable :: "int geometry \<Rightarrow> bool" where
  "representable g \<longleftrightarrow>
     in32 (channels g) \<and> in32 (height g) \<and> in32 (width g) \<and> in32 (kernel_h g) \<and>
     in32 (kernel_w g) \<and> in32 (pad_h g) \<and> in32 (pad_w g) \<and> in32 (stride_h g) \<and>
     in32 (stride_w g)"

definition height_col_int :: "int geometry \<Rightarrow> int" where
  "height_col_int g = c_div (height g + 2 * pad_h g - kernel_h g) (stride_h g) + 1"

definition width_col_int :: "int geometry \<Rightarrow> int" where
  "width_col_int g = c_div (width g + 2 * pad_w g - kernel_w g) (stride_w g) + 1"

definition channels_col_int :: "int geometry \<Rightarrow> int" where
  "channels_col_int g = channels g * kernel_h g * kernel_w g"

definition fits :: "int geometry \<Rightarrow> bool" where
  "fits g \<longleftrightarrow>
     in32 (height g + 2 * pad_h g - kernel_h g) \<and>
     in32 (width g + 2 * pad_w g - kernel_w g) \<and>
     in32 (height_col_int g) \<and> in32 (width_col_int g) \<and> in32 (channels_col_int g) \<and>
     in32 (height_col_int g * width_col_int g * channels_col_int g) \<and>
     in32 (height g * width g * channels g) \<and>
     in32 (- pad_h g) \<and>
     in32 ((height_col_int g - 1) * stride_h g - pad_h g + kernel_h g - 1) \<and>
     in32 (- pad_w g) \<and>
     in32 ((width_col_int g - 1) * stride_w g - pad_w g + kernel_w g - 1)"

function for_loop_int :: "int \<Rightarrow> int \<Rightarrow> (int \<Rightarrow> 's \<Rightarrow> 's) \<Rightarrow> 's \<Rightarrow> 's" where
  "for_loop_int i n body s = (if i < n then for_loop_int (i + 1) n body (body i s) else s)"
  by pat_completeness auto

termination
  by (relation "measure (\<lambda>(i, n, body, s). nat (n - i))") auto

declare for_loop_int.simps [simp del]

definition im2col_loops_int ::
  "(int \<Rightarrow> 'a \<Rightarrow> 's \<Rightarrow> 's) \<Rightarrow> ('a::zero) buffer \<Rightarrow> int geometry \<Rightarrow> 's \<Rightarrow> 's" where
  "im2col_loops_int store data_im g data_col =
     for_loop_int 0 (channels_col_int g) (\<lambda>c data_col.
       let w_offset = c_rem c (kernel_w g);
           h_offset = c_rem (c_div c (kernel_w g)) (kernel_h g);
           c_im = c_div (c_div c (kernel_h g)) (kernel_w g)
       in for_loop_int 0 (height_col_int g) (\<lambda>h data_col.
            for_loop_int 0 (width_col_int g) (\<lambda>w data_col.
              let h_pad = h * stride_h g - pad_h g + h_offset;
                  w_pad = w * stride_w g - pad_w g + w_offset
              in if h_pad \<ge> 0 \<and> h_pad < height g \<and> w_pad \<ge> 0 \<and> w_pad < width g
                 then store (channels_col_int g * width_col_int g * h + channels_col_int g * w + c)
                        (data_im ((c_im * height g + h_pad) * width g + w_pad)) data_col
                 else store (channels_col_int g * width_col_int g * h + channels_col_int g * w + c)
                        0 data_col)
              data_col)
            data_col)
       data_col"

definition im2col_cpu_int :: "('a::zero) buffer \<Rightarrow> int geometry \<Rightarrow> 'a buffer \<Rightarrow> fault + 'a buffer" where
  "im2col_cpu_int data_im g data_col =
     (if stride_h g = 0 \<or> stride_w g = 0 then Inl DivisionByZero
      else Inr (im2col_loops_int (\<lambda>k x data_col. data_col(k := x)) data_im g data_col))"

definition im2col_stores_int :: "('a::zero) buffer \<Rightarrow> int geometry \<Rightarrow> (int \<times> 'a) list" where
  "im2col_stores_int data_im g = im2col_loops_int (\<lambda>k x log. log @ [(k, x)]) data_im g []"

definition zero_image_int :: "int geometry \<Rightarrow> ('a::zero) buffer \<Rightarrow> 'a buffer" where
  "zero_image_int g data_im =
     for_loop_int 0 (height g * width g * channels g) (\<lambda>i data_im. data_im(i := 0)) data_im"

definition col2im_cpu_int ::
  "('a::{zero,plus}) buffer \<Rightarrow> int geometry \<Rightarrow> 'a buffer \<Rightarrow> fault + 'a buffer" where
  "col2im_cpu_int data_col g data_im =
     (let data_im = zero_image_int g data_im
      in if stride_h g = 0 \<or> stride_w g = 0 then Inl DivisionByZero
         else Inr
           (for_loop_int 0 (channels_col_int g) (\<lambda>c data_im.
              let w_offset = c_rem c (kernel_w g);
                  h_offset = c_rem (c_div c (kernel_w g)) (kernel_h g);
                  c_im = c_div (c_div c (kernel_h g)) (kernel_w g)
              in for_loop_int 0 (height_col_int g) (\<lambda>h data_im.
                   for_loop_int 0 (width_col_int g) (\<lambda>w data_im.
                     let h_pad = h * stride_h g - pad_h g + h_offset;
                         w_pad = w * stride_w g - pad_w g + w_offset
                     in if h_pad \<ge> 0 \<and> h_pad < height g \<and> w_pad \<ge> 0 \<and> w_pad < width g
                        then data_im
                          ((c_im * height g + h_pad) * width g + w_pad :=
                             data_im ((c_im * height g + h_pad) * width g + w_pad) +
                             data_col (channels_col_int g * width_col_int g * h + channels_col_int g * w + c))
                        else data_im)
                     data_im)
                   data_im)
              data_im))"

subsection \<open>The expressions of the loop bodies on mathematical integers\<close>

text \<open>
  The values of the index expressions when nothing wraps, with the truncating
  division and remainder of the source.
\<close>

definition w_offset_int :: "int geometry \<Rightarrow> int \<Rightarrow> int" where
  "w_offset_int g c = c_rem c (kernel_w g)"

definition h_offset_int :: "int geometry \<Rightarrow> int \<Rightarrow> int" where
  "h_offset_int g c = c_rem (c_div c (kernel_w g)) (kernel_h g)"

definition c_im_int :: "int geometry \<Rightarrow> int \<Rightarrow> int" where
  "c_im_int g c = c_div (c_div c (kernel_h g)) (kernel_w g)"

definition h_pad_int :: "int geometry \<Rightarrow> int \<Rightarrow> int \<Rightarrow> int" where
  "h_pad_int g h c = h * stride_h g - pad_h g + h_offset_int g c"

definition w_pad_int :: "int geometry \<Rightarrow> int \<Rightarrow> int \<Rightarrow> int" where
  "w_pad_int g w c = w * stride_w g - pad_w g + w_offset_int g c"

definition in_image_int :: "int geometry \<Rightarrow> int \<Rightarrow> int \<Rightarrow> int \<Rightarrow> bool" where
  "in_image_int g h w c \<longleftrightarrow>
     h_pad_int g h c \<ge> 0 \<and> h_pad_int g h c < height g \<and> w_pad_int g w c \<ge> 0 \<and> w_pad_int g w c < width g"

definition image_offset_int :: "int geometry \<Rightarrow> int \<Rightarrow> int \<Rightarrow> int \<Rightarrow> int" where
  "image_offset_int g h w c = (c_im_int g c * height g + h_pad_int g h c) * width g + w_pad_int g w c"

definition slot_int :: "int geometry \<Rightarrow> int \<Rightarrow> int \<Rightarrow> int \<Rightarrow> int" where
  "slot_int g h w c = channels_col_int g * width_col_int g * h + channels_col_int g * w + c"

text \<open>The values \<open>(c, h, w)\<close> of the three loop counters, in the order the loops visit them.\<close>

definition triples_int :: "int geometry \<Rightarrow> (int \<times> int \<times> int) list" where
  "triples_int g =
     List.product [0..channels_col_int g - 1]
       (List.product [0..height_col_int g - 1] [0..width_col_int g - 1])"

subsection \<open>The specification's vocabulary\<close>

text \<open>
  The specification takes the geometry parameters to be positive integers; the
  claims leave the two paddings free, so they are not constrained here.
\<close>

definition geometry_ok :: "int geometry \<Rightarrow> bool" where
  "geometry_ok g \<longleftrightarrow>
     1 \<le> channels g \<and> 1 \<le> height g \<and> 1 \<le> width g \<and> 1 \<le> kernel_h g \<and> 1 \<le> kernel_w g \<and>
     1 \<le> stride_h g \<and> 1 \<le> stride_w g"

text \<open>
  The specification decodes the composite index with \<open>mod\<close> and floor division, and
  the channel with one division by \<open>kernel_h * kernel_w\<close>.
\<close>

definition spec_w_offset :: "int geometry \<Rightarrow> int \<Rightarrow> int" where
  "spec_w_offset g c = c mod kernel_w g"

definition spec_h_offset :: "int geometry \<Rightarrow> int \<Rightarrow> int" where
  "spec_h_offset g c = (c div kernel_w g) mod kernel_h g"

definition spec_c_im :: "int geometry \<Rightarrow> int \<Rightarrow> int" where
  "spec_c_im g c = c div (kernel_h g * kernel_w g)"

definition spec_h_pad :: "int geometry \<Rightarrow> int \<Rightarrow> int \<Rightarrow> int" where
  "spec_h_pad g h c = h * stride_h g - pad_h g + spec_h_offset g c"

definition spec_w_pad :: "int geometry \<Rightarrow> int \<Rightarrow> int \<Rightarrow> int" where
  "spec_w_pad g w c = w * stride_w g - pad_w g + spec_w_offset g c"

definition spec_in_bounds :: "int geometry \<Rightarrow> int \<Rightarrow> int \<Rightarrow> int \<Rightarrow> bool" where
  "spec_in_bounds g h w c \<longleftrightarrow>
     0 \<le> spec_h_pad g h c \<and> spec_h_pad g h c < height g \<and>
     0 \<le> spec_w_pad g w c \<and> spec_w_pad g w c < width g"

text \<open>The linear offset of channel \<open>ch\<close>, row \<open>r\<close>, column \<open>q\<close> in the image buffer.\<close>

definition spec_image_index :: "int geometry \<Rightarrow> int \<Rightarrow> int \<Rightarrow> int \<Rightarrow> int" where
  "spec_image_index g ch r q = (ch * height g + r) * width g + q"

text \<open>
  The patch triples \<open>(c, h, w)\<close> of the index space whose decoded coordinates are
  channel \<open>ch\<close>, row \<open>r\<close>, column \<open>q\<close>.
\<close>

definition spec_contributors :: "int geometry \<Rightarrow> int \<Rightarrow> int \<Rightarrow> int \<Rightarrow> (int \<times> int \<times> int) set" where
  "spec_contributors g ch r q =
     Set.filter (\<lambda>(c, h, w). spec_c_im g c = ch \<and> spec_h_pad g h c = r \<and> spec_w_pad g w c = q)
       ({0..<channels_col_int g} \<times> {0..<height_col_int g} \<times> {0..<width_col_int g})"

text \<open>
  The output rows \<open>h\<close> whose patch contains image row \<open>r\<close>, and the
  output columns \<open>w\<close> whose patch contains image column \<open>q\<close>.
\<close>

definition patches_over_row :: "int geometry \<Rightarrow> int \<Rightarrow> int list" where
  "patches_over_row g r =
     filter (\<lambda>h. h * stride_h g - pad_h g \<le> r \<and> r < h * stride_h g - pad_h g + kernel_h g)
       [0..height_col_int g - 1]"

definition patches_over_col :: "int geometry \<Rightarrow> int \<Rightarrow> int list" where
  "patches_over_col g q =
     filter (\<lambda>w. w * stride_w g - pad_w g \<le> q \<and> q < w * stride_w g - pad_w g + kernel_w g)
       [0..width_col_int g - 1]"

subsection \<open>Concrete geometries\<close>

text \<open>
  The specification's concrete scenario: one channel, a 4 by 4 image, a 3 by 3
  kernel, no padding, stride 1.
\<close>

definition scenario :: "int geometry" where
  "scenario = \<lparr>channels = 1, height = 4, width = 4, kernel_h = 3, kernel_w = 3,
     pad_h = 0, pad_w = 0, stride_h = 1, stride_w = 1\<rparr>"

text \<open>Two channels, a 4 by 5 image, a 3 by 2 kernel, padding 1 and 0, strides 2 and 1.\<close>

definition padded_example :: "int geometry" where
  "padded_example = \<lparr>channels = 2, height = 4, width = 5, kernel_h = 3, kernel_w = 2,
     pad_h = 1, pad_w = 0, stride_h = 2, stride_w = 1\<rparr>"

text \<open>Patches that tile the image: two channels, 4 by 6, kernel and stride 2 by 3.\<close>

definition tiled_example :: "int geometry" where
  "tiled_example = \<lparr>channels = 2, height = 4, width = 6, kernel_h = 2, kernel_w = 3,
     pad_h = 0, pad_w = 0, stride_h = 2, stride_w = 3\<rparr>"

text \<open>Patches that leave gaps: one channel, 3 by 3, kernel 1 by 1, stride 2.\<close>

definition sparse_example :: "int geometry" where
  "sparse_example = \<lparr>channels = 1, height = 3, width = 3, kernel_h = 1, kernel_w = 1,
     pad_h = 0, pad_w = 0, stride_h = 2, stride_w = 2\<rparr>"

text \<open>A kernel larger than the image: one channel, 2 by 2, kernel 5 by 5, stride 1.\<close>

definition degenerate_example :: "int geometry" where
  "degenerate_example = \<lparr>channels = 1, height = 2, width = 2, kernel_h = 5, kernel_w = 5,
     pad_h = 0, pad_w = 0, stride_h = 1, stride_w = 1\<rparr>"

text \<open>
  Geometries at which an \<open>int\<close> expression of the source wraps. All parameters
  are positive except paddings that are zero.

  \<^item> \<open>wrapped_padding\<close>: \<open>2 * pad_h\<close> is \<open>2^31\<close>; the specification's \<open>height_col\<close>
    is 2, line 9 computes 0.
  \<^item> \<open>wrapped_rows\<close>: the same with a 3 by 2 kernel on a 4 by 3 image; the
    specification's \<open>height_col\<close> is 3, line 37 computes 0.
  \<^item> \<open>wrapped_channels\<close> and \<open>wrapped_kernel\<close>: \<open>channels * kernel_h * kernel_w\<close> is
    \<open>2^32\<close>, which wraps to 0. In the first the patches tile the image, and
    \<open>height * width * channels\<close> is \<open>2^32\<close> as well; in the second the kernel
    overhangs a 1 by 1 image.
  \<^item> \<open>wrapped_image\<close> and \<open>wrapped_degenerate\<close>: \<open>height * width * channels\<close> is
    \<open>2^31\<close>, which wraps to \<open>INT_MIN\<close>. The first has four patch triples, the
    second a kernel higher than the image.
\<close>

definition wrapped_padding :: "int geometry" where
  "wrapped_padding = \<lparr>channels = 1, height = 2, width = 3, kernel_h = 1, kernel_w = 1,
     pad_h = 1073741824, pad_w = 0, stride_h = 2147483647, stride_w = 1\<rparr>"

definition wrapped_rows :: "int geometry" where
  "wrapped_rows = \<lparr>channels = 1, height = 4, width = 3, kernel_h = 3, kernel_w = 2,
     pad_h = 1073741824, pad_w = 0, stride_h = 1073741824, stride_w = 1\<rparr>"

definition wrapped_channels :: "int geometry" where
  "wrapped_channels = \<lparr>channels = 1073741824, height = 2, width = 2, kernel_h = 2, kernel_w = 2,
     pad_h = 0, pad_w = 0, stride_h = 2, stride_w = 2\<rparr>"

definition wrapped_kernel :: "int geometry" where
  "wrapped_kernel = \<lparr>channels = 1, height = 1, width = 1, kernel_h = 65536, kernel_w = 65536,
     pad_h = 0, pad_w = 0, stride_h = 65536, stride_w = 65536\<rparr>"

definition wrapped_image :: "int geometry" where
  "wrapped_image = \<lparr>channels = 2, height = 1, width = 1073741824, kernel_h = 1, kernel_w = 1,
     pad_h = 0, pad_w = 0, stride_h = 1, stride_w = 1073741823\<rparr>"

definition wrapped_degenerate :: "int geometry" where
  "wrapped_degenerate = \<lparr>channels = 2, height = 1, width = 1073741824, kernel_h = 5, kernel_w = 1,
     pad_h = 0, pad_w = 0, stride_h = 1, stride_w = 1\<rparr>"

text \<open>
  A stride of \<open>-1\<close> under the dividend \<open>INT_MIN\<close> (\<open>1 + 2 * (-2^30) - 1\<close>, computed
  without a wrap): the division of lines 9 and 37 overflows. The width is degenerate:
  \<open>1 - 5 \<le> -1\<close>.
\<close>

definition trapping :: "int geometry" where
  "trapping = \<lparr>channels = 1, height = 1, width = 1, kernel_h = 1, kernel_w = 5,
     pad_h = - 1073741824, pad_w = 0, stride_h = - 1, stride_w = 1\<rparr>"

section \<open>Helper lemmas\<close>

subsection \<open>Arithmetic and loops\<close>

lemma c_div_nonneg: "0 \<le> a \<Longrightarrow> 0 < b \<Longrightarrow> c_div a b = a div b"
  by (cases "a = 0") (simp_all add: c_div_def)

lemma c_rem_nonneg: "0 \<le> a \<Longrightarrow> 0 < b \<Longrightarrow> c_rem a b = a mod b"
  by (simp add: c_rem_def c_div_nonneg minus_mult_div_eq_mod)

lemma channels_col_pos_kernel: "0 < channels_col_int g \<Longrightarrow> kernel_h g \<noteq> 0 \<and> kernel_w g \<noteq> 0"
  by (auto simp: channels_col_int_def)

lemma for_loop_int_fold: "for_loop_int i n body s = fold body [i..n - 1] s"
proof (induction i n body s rule: for_loop_int.induct)
  case (1 i n body s)
  show ?case
  proof (cases "i < n")
    case True
    then have "[i..n - 1] = i # [i + 1..n - 1]" by (simp add: upto_rec1)
    with True 1 show ?thesis by (simp add: for_loop_int.simps [of i])
  next
    case False
    then show ?thesis by (simp add: for_loop_int.simps [of i])
  qed
qed

lemma fold_product:
  "fold (\<lambda>x. fold (f x) ys) xs s = fold (\<lambda>(x, y). f x y) (List.product xs ys) s"
  by (induction xs arbitrary: s) (simp_all add: fold_map comp_def)

lemma fold_product3:
  "fold (\<lambda>c. fold (\<lambda>h. fold (f c h) ws) hs) cs s =
   fold (\<lambda>(c, h, w). f c h w) (List.product cs (List.product hs ws)) s"
proof (induction cs arbitrary: s)
  case Nil
  show ?case by simp
next
  case (Cons c cs)
  have "fold (\<lambda>(c, h, w). f c h w) (map (Pair c) (List.product hs ws)) t =
        fold (\<lambda>h. fold (f c h) ws) hs t" for t
    by (simp add: fold_map comp_def fold_product)
  with Cons show ?case by simp
qed

lemma im2col_loops_int_flat:
  "im2col_loops_int store data_im g s =
     fold (\<lambda>(c, h, w) s.
             if in_image_int g h w c then store (slot_int g h w c) (data_im (image_offset_int g h w c)) s
             else store (slot_int g h w c) 0 s)
       (triples_int g) s"
proof -
  have "im2col_loops_int store data_im g s =
     fold (\<lambda>c. fold (\<lambda>h. fold (\<lambda>w s.
             if in_image_int g h w c then store (slot_int g h w c) (data_im (image_offset_int g h w c)) s
             else store (slot_int g h w c) 0 s)
           [0..width_col_int g - 1]) [0..height_col_int g - 1]) [0..channels_col_int g - 1] s"
    unfolding im2col_loops_int_def for_loop_int_fold Let_def slot_int_def in_image_int_def image_offset_int_def
      h_pad_int_def w_pad_int_def h_offset_int_def w_offset_int_def c_im_int_def
    by simp
  also have "\<dots> = fold (\<lambda>(c, h, w) s.
             if in_image_int g h w c then store (slot_int g h w c) (data_im (image_offset_int g h w c)) s
             else store (slot_int g h w c) 0 s)
       (triples_int g) s"
    unfolding triples_int_def by (rule fold_product3)
  finally show ?thesis .
qed

lemma col2im_cpu_int_flat:
  fixes data_col :: "('a::{zero,plus}) buffer"
  assumes "stride_h g \<noteq> 0" "stride_w g \<noteq> 0"
  shows "col2im_cpu_int data_col g data_im =
     Inr (fold (\<lambda>(c, h, w) s.
             if in_image_int g h w c
             then s(image_offset_int g h w c := s (image_offset_int g h w c) + data_col (slot_int g h w c))
             else s)
       (triples_int g) (zero_image_int g data_im))"
proof -
  have "col2im_cpu_int data_col g data_im =
     Inr (fold (\<lambda>c. fold (\<lambda>h. fold (\<lambda>w s.
             if in_image_int g h w c
             then s(image_offset_int g h w c := s (image_offset_int g h w c) + data_col (slot_int g h w c))
             else s)
           [0..width_col_int g - 1]) [0..height_col_int g - 1]) [0..channels_col_int g - 1]
         (zero_image_int g data_im))"
    using assms
    unfolding col2im_cpu_int_def for_loop_int_fold Let_def slot_int_def in_image_int_def image_offset_int_def
      h_pad_int_def w_pad_int_def h_offset_int_def w_offset_int_def c_im_int_def
    by simp
  also have "\<dots> = Inr (fold (\<lambda>(c, h, w) s.
             if in_image_int g h w c
             then s(image_offset_int g h w c := s (image_offset_int g h w c) + data_col (slot_int g h w c))
             else s)
       (triples_int g) (zero_image_int g data_im))"
    unfolding triples_int_def by (simp only: fold_product3)
  finally show ?thesis .
qed

lemma fold_write_other:
  "i \<notin> k ` set ts \<Longrightarrow> fold (\<lambda>t f. f(k t := v t)) ts f0 i = f0 i"
  by (induction ts arbitrary: f0) auto

lemma fold_write_hit:
  "inj_on k (set ts) \<Longrightarrow> t \<in> set ts \<Longrightarrow> fold (\<lambda>t f. f(k t := v t)) ts f0 (k t) = v t"
proof (induction ts arbitrary: f0)
  case Nil
  then show ?case by simp
next
  case (Cons a ts)
  show ?case
  proof (cases "t \<in> set ts")
    case True
    with Cons show ?thesis by (simp add: inj_on_def)
  next
    case False
    with Cons.prems have ta: "t = a" by simp
    from False Cons.prems(1) have "k a \<notin> k ` set ts"
      unfolding ta by (auto simp: inj_on_def)
    then have "fold (\<lambda>t f. f(k t := v t)) ts (f0(k a := v a)) (k a) = (f0(k a := v a)) (k a)"
      by (rule fold_write_other)
    then show ?thesis unfolding ta by (simp only: fold_Cons comp_apply fun_upd_same)
  qed
qed

lemma fold_accum:
  fixes f0 :: "'i \<Rightarrow> 'a::monoid_add"
  shows "fold (\<lambda>t f. if p t then f(k t := f (k t) + v t) else f) ts f0 i =
     f0 i + sum_list (map v (filter (\<lambda>t. p t \<and> k t = i) ts))"
  by (induction ts arbitrary: f0) (auto simp: add.assoc)

lemma fold_log: "fold (\<lambda>t log. log @ [f t]) ts acc = acc @ map f ts"
  by (induction ts arbitrary: acc) simp_all

lemma zero_image_int_apply:
  "zero_image_int g data_im i =
     (if 0 \<le> i \<and> i < height g * width g * channels g then 0 else data_im i)"
proof -
  have "fold (\<lambda>i f. f(i := 0)) xs f0 i = (if i \<in> set xs then 0 else f0 i)"
    for xs :: "int list" and f0 :: "int \<Rightarrow> 'a"
    by (induction xs arbitrary: f0) auto
  then show ?thesis
    unfolding zero_image_int_def for_loop_int_fold by auto
qed

lemma set_triples:
  "set (triples_int g) = {0..<channels_col_int g} \<times> {0..<height_col_int g} \<times> {0..<width_col_int g}"
  unfolding triples_int_def by auto

lemma distinct_triples: "distinct (triples_int g)"
  unfolding triples_int_def by (simp add: distinct_product)

subsection \<open>The patch-matrix offsets\<close>

lemma radix_bound:
  fixes a :: int
  assumes "0 \<le> x" "x < a" "0 \<le> y" "y < b"
  shows "0 \<le> a * y + x \<and> a * y + x < a * b"
proof -
  from assms have a: "0 < a" by simp
  from assms a have "a * y \<le> a * (b - 1)" by (intro mult_left_mono) simp_all
  then have "a * y + x < a * (b - 1) + a" using assms by linarith
  moreover have "0 \<le> a * y" using a assms by simp
  ultimately show ?thesis using assms by (simp add: algebra_simps)
qed

lemma quot_rem_unique:
  fixes a :: int
  assumes "0 \<le> r" "r < a" "0 \<le> r'" "r' < a" "a * q + r = a * q' + r'"
  shows "q = q' \<and> r = r'"
proof -
  from assms have a: "a \<noteq> 0" by auto
  have "q = (a * q + r) div a"
    using assms(1-4) a by (simp add: div_pos_pos_trivial)
  also have "\<dots> = (a * q' + r') div a"
    by (simp only: assms(5))
  also have "\<dots> = q'"
    using assms(1-4) a by (simp add: div_pos_pos_trivial)
  finally have "q = q'" .
  with assms(5) show ?thesis by simp
qed

lemma radix_split:
  fixes a :: int
  assumes "0 \<le> i" "i < a * b" "0 < a"
  shows "0 \<le> i div a \<and> i div a < b \<and> 0 \<le> i mod a \<and> i mod a < a \<and> a * (i div a) + i mod a = i"
proof -
  have le: "a * (i div a) \<le> i"
    using mult_div_mod_eq [of a i] pos_mod_sign [OF assms(3), of i] by linarith
  have "i div a < b"
  proof (rule ccontr)
    assume "\<not> i div a < b"
    then have "b \<le> i div a" by simp
    with assms(3) have "a * b \<le> a * (i div a)" by (intro mult_left_mono) simp_all
    with le assms(2) show False by simp
  qed
  with assms show ?thesis by (simp add: pos_imp_zdiv_nonneg_iff)
qed

lemma slot_eq:
  assumes a: "(c, h, w) \<in> set (triples_int g)" and b: "(c', h', w') \<in> set (triples_int g)"
    and eq: "slot_int g h w c = slot_int g h' w' c'"
  shows "c = c' \<and> h = h' \<and> w = w'"
proof -
  from a b have rc: "0 \<le> c" "c < channels_col_int g" "0 \<le> c'" "c' < channels_col_int g"
    and rw: "0 \<le> w" "w < width_col_int g" "0 \<le> w'" "w' < width_col_int g"
    by (simp_all add: set_triples)
  from eq have "channels_col_int g * (width_col_int g * h + w) + c =
      channels_col_int g * (width_col_int g * h' + w') + c'"
    by (simp add: slot_int_def algebra_simps)
  from quot_rem_unique [OF rc this]
  have 1: "width_col_int g * h + w = width_col_int g * h' + w'" and 2: "c = c'"
    by simp_all
  from quot_rem_unique [OF rw 1] 2 show ?thesis by simp
qed

lemma slot_inj: "inj_on (\<lambda>(c, h, w). slot_int g h w c) (set (triples_int g))"
  by (rule inj_onI) (auto dest: slot_eq)

lemma slot_bounds:
  assumes "(c, h, w) \<in> set (triples_int g)"
  shows "0 \<le> slot_int g h w c \<and> slot_int g h w c < height_col_int g * width_col_int g * channels_col_int g"
proof -
  from assms have r: "0 \<le> c" "c < channels_col_int g" "0 \<le> h" "h < height_col_int g"
    "0 \<le> w" "w < width_col_int g"
    by (simp_all add: set_triples)
  from radix_bound [OF r(5,6,3,4)]
  have "0 \<le> width_col_int g * h + w" "width_col_int g * h + w < width_col_int g * height_col_int g"
    by simp_all
  from radix_bound [OF r(1,2) this]
  show ?thesis by (simp add: slot_int_def algebra_simps)
qed

lemma slot_onto:
  assumes "0 \<le> i" "i < height_col_int g * width_col_int g * channels_col_int g"
    "1 \<le> width_col_int g" "1 \<le> channels_col_int g"
  shows "\<exists>c h w. (c, h, w) \<in> set (triples_int g) \<and> slot_int g h w c = i"
proof -
  let ?q = "i div channels_col_int g"
  from assms have "i < channels_col_int g * (width_col_int g * height_col_int g)" "0 < channels_col_int g"
    by (simp_all add: algebra_simps)
  from radix_split [OF assms(1) this]
  have 1: "0 \<le> ?q" "?q < width_col_int g * height_col_int g"
    "0 \<le> i mod channels_col_int g" "i mod channels_col_int g < channels_col_int g"
    "channels_col_int g * ?q + i mod channels_col_int g = i"
    by simp_all
  from assms have "0 < width_col_int g" by simp
  from radix_split [OF 1(1,2) this]
  have 2: "0 \<le> ?q div width_col_int g" "?q div width_col_int g < height_col_int g"
    "0 \<le> ?q mod width_col_int g" "?q mod width_col_int g < width_col_int g"
    "width_col_int g * (?q div width_col_int g) + ?q mod width_col_int g = ?q"
    by simp_all
  have "(i mod channels_col_int g, ?q div width_col_int g, ?q mod width_col_int g) \<in> set (triples_int g)"
    using 1 2 by (simp add: set_triples)
  moreover have "slot_int g (?q div width_col_int g) (?q mod width_col_int g) (i mod channels_col_int g) = i"
  proof -
    have "slot_int g h w c = channels_col_int g * (width_col_int g * h + w) + c" for h w c
      by (simp add: slot_int_def algebra_simps)
    then show ?thesis by (simp only: 2(5) 1(5))
  qed
  ultimately show ?thesis by blast
qed

lemma slot_image:
  assumes "1 \<le> height_col_int g" "1 \<le> width_col_int g" "1 \<le> channels_col_int g"
  shows "(\<lambda>(c, h, w). slot_int g h w c) ` set (triples_int g) =
     {0..<height_col_int g * width_col_int g * channels_col_int g}"
proof (intro set_eqI iffI)
  fix i
  assume "i \<in> (\<lambda>(c, h, w). slot_int g h w c) ` set (triples_int g)"
  then show "i \<in> {0..<height_col_int g * width_col_int g * channels_col_int g}"
    using slot_bounds by auto
next
  fix i
  assume "i \<in> {0..<height_col_int g * width_col_int g * channels_col_int g}"
  then have "0 \<le> i" "i < height_col_int g * width_col_int g * channels_col_int g" by simp_all
  from slot_onto [OF this assms(2,3)] show "i \<in> (\<lambda>(c, h, w). slot_int g h w c) ` set (triples_int g)"
    by force
qed

subsection \<open>The source's index arithmetic against the specification's\<close>

lemma decode_agrees:
  assumes "geometry_ok g" "0 \<le> c"
  shows "w_offset_int g c = spec_w_offset g c" "h_offset_int g c = spec_h_offset g c"
    "c_im_int g c = spec_c_im g c"
proof -
  from assms have k: "0 < kernel_h g" "0 < kernel_w g" by (simp_all add: geometry_ok_def)
  from assms k show "w_offset_int g c = spec_w_offset g c"
    by (simp add: w_offset_int_def spec_w_offset_def c_rem_nonneg)
  from assms k have "0 \<le> c div kernel_w g" by (simp add: pos_imp_zdiv_nonneg_iff)
  with assms k show "h_offset_int g c = spec_h_offset g c"
    by (simp add: h_offset_int_def spec_h_offset_def c_rem_nonneg c_div_nonneg)
  from assms k have "0 \<le> c div kernel_h g" by (simp add: pos_imp_zdiv_nonneg_iff)
  with assms k show "c_im_int g c = spec_c_im g c"
    by (simp add: c_im_int_def spec_c_im_def c_div_nonneg zdiv_zmult2_eq)
qed

lemma position_agrees:
  assumes "geometry_ok g" "0 \<le> c"
  shows "h_pad_int g h c = spec_h_pad g h c" "w_pad_int g w c = spec_w_pad g w c"
    "in_image_int g h w c = spec_in_bounds g h w c"
    "image_offset_int g h w c =
       spec_image_index g (spec_c_im g c) (spec_h_pad g h c) (spec_w_pad g w c)"
  using decode_agrees [OF assms]
  by (simp_all add: h_pad_int_def w_pad_int_def spec_h_pad_def spec_w_pad_def in_image_int_def
      spec_in_bounds_def image_offset_int_def spec_image_index_def)

lemma im2col_cpu_int_Inr:
  assumes "stride_h g \<noteq> 0" "stride_w g \<noteq> 0"
  shows "im2col_cpu_int data_im g data_col =
     Inr (im2col_loops_int (\<lambda>k x data_col. data_col(k := x)) data_im g data_col)"
  using assms by (simp add: im2col_cpu_int_def)

lemma im2col_loops_int_writes:
  "im2col_loops_int (\<lambda>k x data_col. data_col(k := x)) data_im g data_col =
     fold (\<lambda>t f. f((\<lambda>(c, h, w). slot_int g h w c) t :=
                 (\<lambda>(c, h, w). if in_image_int g h w c then data_im (image_offset_int g h w c) else 0) t))
       (triples_int g) data_col"
proof -
  have "(\<lambda>(c, h, w) s.
             if in_image_int g h w c then s(slot_int g h w c := data_im (image_offset_int g h w c))
             else s(slot_int g h w c := 0)) =
        (\<lambda>t f. f((\<lambda>(c, h, w). slot_int g h w c) t :=
                 (\<lambda>(c, h, w). if in_image_int g h w c then data_im (image_offset_int g h w c) else 0) t))"
    by (intro ext) (simp split: prod.split)
  then show ?thesis by (simp only: im2col_loops_int_flat)
qed

lemma im2col_at_slot:
  assumes "(c, h, w) \<in> set (triples_int g)"
  shows "im2col_loops_int (\<lambda>k x data_col. data_col(k := x)) data_im g data_col (slot_int g h w c) =
     (if in_image_int g h w c then data_im (image_offset_int g h w c) else 0)"
  using fold_write_hit [OF slot_inj assms, of _ data_col]
  unfolding im2col_loops_int_writes by simp

lemma im2col_frame:
  assumes "i \<notin> (\<lambda>(c, h, w). slot_int g h w c) ` set (triples_int g)"
  shows "im2col_loops_int (\<lambda>k x data_col. data_col(k := x)) data_im g data_col i = data_col i"
  unfolding im2col_loops_int_writes using assms by (rule fold_write_other)

lemma im2col_stores_int_eq:
  "im2col_stores_int data_im g =
     map (\<lambda>(c, h, w). (slot_int g h w c,
            if in_image_int g h w c then data_im (image_offset_int g h w c) else 0)) (triples_int g)"
proof -
  have "(\<lambda>(c, h, w) s.
             if in_image_int g h w c then s @ [(slot_int g h w c, data_im (image_offset_int g h w c))]
             else s @ [(slot_int g h w c, 0)]) =
        (\<lambda>t log. log @ [(\<lambda>(c, h, w). (slot_int g h w c,
            if in_image_int g h w c then data_im (image_offset_int g h w c) else 0)) t])"
    by (intro ext) (simp split: prod.split)
  then show ?thesis
    unfolding im2col_stores_int_def by (simp only: im2col_loops_int_flat fold_log append_Nil)
qed

subsection \<open>The image offsets and the accumulation\<close>

lemma col2im_cpu_int_sum_list:
  fixes data_col :: "('a::monoid_add) buffer"
  assumes "stride_h g \<noteq> 0" "stride_w g \<noteq> 0"
  shows "\<exists>out. col2im_cpu_int data_col g data_im = Inr out \<and>
     (\<forall>i. out i = zero_image_int g data_im i +
        sum_list (map (\<lambda>(c, h, w). data_col (slot_int g h w c))
          (filter (\<lambda>(c, h, w). in_image_int g h w c \<and> image_offset_int g h w c = i) (triples_int g))))"
proof -
  let ?p = "\<lambda>(c, h, w). in_image_int g h w c"
  let ?k = "\<lambda>(c, h, w). image_offset_int g h w c"
  let ?v = "\<lambda>(c, h, w). data_col (slot_int g h w c)"
  have "(\<lambda>(c, h, w) s.
             if in_image_int g h w c
             then s(image_offset_int g h w c := s (image_offset_int g h w c) + data_col (slot_int g h w c))
             else s) =
        (\<lambda>t f. if ?p t then f(?k t := f (?k t) + ?v t) else f)"
    by (intro ext) (simp split: prod.split)
  then have e: "col2im_cpu_int data_col g data_im =
      Inr (fold (\<lambda>t f. if ?p t then f(?k t := f (?k t) + ?v t) else f) (triples_int g)
        (zero_image_int g data_im))"
    by (simp only: col2im_cpu_int_flat [OF assms])
  have p: "(\<lambda>t. ?p t \<and> ?k t = i) =
      (\<lambda>(c, h, w). in_image_int g h w c \<and> image_offset_int g h w c = i)" for i
    by (intro ext) (simp split: prod.split)
  have "fold (\<lambda>t f. if ?p t then f(?k t := f (?k t) + ?v t) else f) (triples_int g)
        (zero_image_int g data_im) i =
      zero_image_int g data_im i +
        sum_list (map (\<lambda>(c, h, w). data_col (slot_int g h w c))
          (filter (\<lambda>(c, h, w). in_image_int g h w c \<and> image_offset_int g h w c = i) (triples_int g)))" for i
    using fold_accum [where p = ?p and k = ?k and v = ?v and ts = "triples_int g"
        and ?f0.0 = "zero_image_int g data_im" and i = i]
    by (simp only: p)
  with e show ?thesis by blast
qed

lemma image_index_bounds:
  assumes "0 \<le> ch" "ch < channels g" "0 \<le> r" "r < height g" "0 \<le> q" "q < width g"
  shows "0 \<le> spec_image_index g ch r q \<and>
     spec_image_index g ch r q < height g * width g * channels g"
proof -
  from radix_bound [OF assms(3,4,1,2)]
  have "0 \<le> height g * ch + r" "height g * ch + r < height g * channels g" by simp_all
  from radix_bound [OF assms(5,6) this]
  show ?thesis by (simp add: spec_image_index_def algebra_simps)
qed

lemma image_index_eq:
  assumes "0 \<le> r" "r < height g" "0 \<le> q" "q < width g"
    and "0 \<le> r'" "r' < height g" "0 \<le> q'" "q' < width g"
    and "spec_image_index g ch r q = spec_image_index g ch' r' q'"
  shows "ch = ch' \<and> r = r' \<and> q = q'"
proof -
  from assms(9) have "width g * (height g * ch + r) + q = width g * (height g * ch' + r') + q'"
    by (simp add: spec_image_index_def algebra_simps)
  from quot_rem_unique [OF assms(3,4,7,8) this]
  have 1: "height g * ch + r = height g * ch' + r'" and 2: "q = q'" by simp_all
  from quot_rem_unique [OF assms(1,2,5,6) 1] 2 show ?thesis by simp
qed

lemma lands_iff:
  assumes "geometry_ok g" "0 \<le> c" "0 \<le> r" "r < height g" "0 \<le> q" "q < width g"
  shows "in_image_int g h w c \<and> image_offset_int g h w c = spec_image_index g ch r q \<longleftrightarrow>
     spec_c_im g c = ch \<and> spec_h_pad g h c = r \<and> spec_w_pad g w c = q"
proof
  assume a: "in_image_int g h w c \<and> image_offset_int g h w c = spec_image_index g ch r q"
  with position_agrees [OF assms(1,2)]
  have b: "0 \<le> spec_h_pad g h c" "spec_h_pad g h c < height g"
    "0 \<le> spec_w_pad g w c" "spec_w_pad g w c < width g"
    and e: "spec_image_index g (spec_c_im g c) (spec_h_pad g h c) (spec_w_pad g w c) =
      spec_image_index g ch r q"
    by (simp_all add: spec_in_bounds_def)
  from image_index_eq [OF b assms(3-6) e]
  show "spec_c_im g c = ch \<and> spec_h_pad g h c = r \<and> spec_w_pad g w c = q" .
next
  assume "spec_c_im g c = ch \<and> spec_h_pad g h c = r \<and> spec_w_pad g w c = q"
  with position_agrees [OF assms(1,2)] assms(3-6)
  show "in_image_int g h w c \<and> image_offset_int g h w c = spec_image_index g ch r q"
    by (simp add: spec_in_bounds_def)
qed

lemma contributors_list:
  assumes "geometry_ok g" "0 \<le> r" "r < height g" "0 \<le> q" "q < width g"
  shows "filter (\<lambda>(c, h, w). in_image_int g h w c \<and>
            image_offset_int g h w c = spec_image_index g ch r q) (triples_int g) =
         filter (\<lambda>(c, h, w). spec_c_im g c = ch \<and> spec_h_pad g h c = r \<and> spec_w_pad g w c = q)
           (triples_int g)"
proof (rule filter_cong [OF refl])
  fix t
  assume t: "t \<in> set (triples_int g)"
  obtain c h w where e: "t = (c, h, w)" by (cases t) auto
  from t have "0 \<le> c" unfolding e by (simp add: set_triples)
  from lands_iff [OF assms(1) this assms(2-5), of h w ch]
  show "(case t of (c, h, w) \<Rightarrow> in_image_int g h w c \<and>
            image_offset_int g h w c = spec_image_index g ch r q) =
        (case t of (c, h, w) \<Rightarrow> spec_c_im g c = ch \<and> spec_h_pad g h c = r \<and>
            spec_w_pad g w c = q)"
    unfolding e by simp
qed

lemma contributors_set:
  "set (filter (\<lambda>(c, h, w). spec_c_im g c = ch \<and> spec_h_pad g h c = r \<and> spec_w_pad g w c = q)
           (triples_int g)) = spec_contributors g ch r q"
  by (auto simp: spec_contributors_def set_triples)

lemma col2im_cpu_int_at_location:
  fixes data_col :: "('a::comm_monoid_add) buffer"
  assumes "geometry_ok g"
    and "0 \<le> ch" "ch < channels g" "0 \<le> r" "r < height g" "0 \<le> q" "q < width g"
  shows "\<exists>out. col2im_cpu_int data_col g data_im = Inr out \<and>
     out (spec_image_index g ch r q) =
       (\<Sum>(c, h, w)\<in>spec_contributors g ch r q. data_col (slot_int g h w c))"
proof -
  from assms(1) have s: "stride_h g \<noteq> 0" "stride_w g \<noteq> 0" by (simp_all add: geometry_ok_def)
  from col2im_cpu_int_sum_list [OF s, of data_col data_im]
  obtain out where o: "col2im_cpu_int data_col g data_im = Inr out"
    and v: "\<And>i. out i = zero_image_int g data_im i +
        sum_list (map (\<lambda>(c, h, w). data_col (slot_int g h w c))
          (filter (\<lambda>(c, h, w). in_image_int g h w c \<and> image_offset_int g h w c = i) (triples_int g)))"
    by blast
  let ?L = "filter (\<lambda>(c, h, w). spec_c_im g c = ch \<and> spec_h_pad g h c = r \<and> spec_w_pad g w c = q)
           (triples_int g)"
  have z: "zero_image_int g data_im (spec_image_index g ch r q) = 0"
    using image_index_bounds [OF assms(2-7)] by (simp add: zero_image_int_apply)
  have d: "distinct ?L" by (simp add: distinct_triples)
  have "out (spec_image_index g ch r q) =
      sum_list (map (\<lambda>(c, h, w). data_col (slot_int g h w c)) ?L)"
    by (simp only: v z contributors_list [OF assms(1,4-7)] add_0_left)
  also have "\<dots> = sum (\<lambda>(c, h, w). data_col (slot_int g h w c)) (set ?L)"
    using d by (rule sum_list_distinct_conv_sum_set)
  finally show ?thesis using o by (simp only: contributors_set) blast
qed

subsection \<open>The index space, the stores and the derived sizes\<close>

lemma channels_col_ok: "geometry_ok g \<Longrightarrow> 1 \<le> channels_col_int g"
proof -
  assume a: "geometry_ok g"
  then have "0 < channels g" "0 < kernel_h g" "0 < kernel_w g" by (simp_all add: geometry_ok_def)
  then have "0 < channels g * kernel_h g * kernel_w g" by simp
  then show ?thesis by (simp add: channels_col_int_def)
qed

lemma spec_c_im_bounds:
  assumes "geometry_ok g" "0 \<le> c" "c < channels_col_int g"
  shows "0 \<le> spec_c_im g c \<and> spec_c_im g c < channels g"
proof -
  from assms(1) have "0 < kernel_h g * kernel_w g" by (simp add: geometry_ok_def)
  moreover from assms(3) have "c < kernel_h g * kernel_w g * channels g"
    by (simp add: channels_col_int_def algebra_simps)
  ultimately show ?thesis
    using radix_split [OF assms(2), of "kernel_h g * kernel_w g" "channels g"]
    by (simp add: spec_c_im_def)
qed

lemma product_Nil_right: "List.product xs [] = []"
  by (induction xs) simp_all

lemma triples_empty: "height_col_int g \<le> 0 \<or> width_col_int g \<le> 0 \<Longrightarrow> triples_int g = []"
  by (auto simp: triples_int_def product_Nil_right)

lemma map_fst_stores:
  "map fst (im2col_stores_int data_im g) = map (\<lambda>(c, h, w). slot_int g h w c) (triples_int g)"
  by (simp add: im2col_stores_int_eq case_prod_unfold comp_def)

lemma replay_stores:
  "fold (\<lambda>(k, x) f. f(k := x)) (im2col_stores_int data_im g) data_col =
   im2col_loops_int (\<lambda>k x data_col. data_col(k := x)) data_im g data_col"
  by (simp add: im2col_stores_int_eq im2col_loops_int_writes fold_map comp_def case_prod_unfold)

lemma c_div_succ_nonpos_iff:
  assumes "0 < b"
  shows "c_div a b + 1 \<le> 0 \<longleftrightarrow> a \<le> - b"
proof (cases "0 \<le> a")
  case True
  with assms have "0 \<le> c_div a b" by (simp add: c_div_nonneg pos_imp_zdiv_nonneg_iff)
  with True assms show ?thesis by simp
next
  case False
  with assms have "c_div a b = - ((- a) div b)" by (simp add: c_div_def)
  moreover have "0 < (- a) div b \<longleftrightarrow> b \<le> - a"
    using assms by (rule pos_imp_zdiv_pos_iff)
  ultimately show ?thesis by linarith
qed

lemma height_col_nonpos_iff:
  "0 < stride_h g \<Longrightarrow>
     height_col_int g \<le> 0 \<longleftrightarrow> height g + 2 * pad_h g - kernel_h g \<le> - stride_h g"
  unfolding height_col_int_def by (rule c_div_succ_nonpos_iff)

lemma width_col_nonpos_iff:
  "0 < stride_w g \<Longrightarrow>
     width_col_int g \<le> 0 \<longleftrightarrow> width g + 2 * pad_w g - kernel_w g \<le> - stride_w g"
  unfolding width_col_int_def by (rule c_div_succ_nonpos_iff)

subsection \<open>Composite indices and image locations\<close>

lemma encode_index:
  assumes "geometry_ok g" "0 \<le> ch" "0 \<le> ho" "ho < kernel_h g" "0 \<le> wo" "wo < kernel_w g"
  defines "c \<equiv> (ch * kernel_h g + ho) * kernel_w g + wo"
  shows "spec_w_offset g c = wo" "spec_h_offset g c = ho" "spec_c_im g c = ch" "0 \<le> c"
    "ch < channels g \<Longrightarrow> c < channels_col_int g"
proof -
  from assms have k: "0 < kernel_h g" "0 < kernel_w g" by (simp_all add: geometry_ok_def)
  show 1: "spec_w_offset g c = wo"
    using assms(5,6) by (simp add: c_def spec_w_offset_def)
  have d: "c div kernel_w g = ch * kernel_h g + ho"
    using assms(5,6) k by (simp add: c_def div_pos_pos_trivial)
  show 2: "spec_h_offset g c = ho"
    using assms(3,4) by (simp add: spec_h_offset_def d)
  have "c div (kernel_w g * kernel_h g) = c div kernel_w g div kernel_h g"
    using k by (intro zdiv_zmult2_eq) simp
  also have "\<dots> = ch" using assms(3,4) k by (simp add: d div_pos_pos_trivial)
  finally show 3: "spec_c_im g c = ch" by (simp add: spec_c_im_def mult.commute)
  from radix_bound [OF assms(3,4,2), of "ch + 1"]
  have x: "0 \<le> kernel_h g * ch + ho" by simp
  from radix_bound [OF assms(5,6) x, of "kernel_h g * ch + ho + 1"]
  show "0 \<le> c" by (simp add: c_def algebra_simps)
  assume "ch < channels g"
  from radix_bound [OF assms(3,4,2) this]
  have y: "kernel_h g * ch + ho < kernel_h g * channels g" by simp
  from radix_bound [OF assms(5,6) x y]
  show "c < channels_col_int g" by (simp add: c_def channels_col_int_def algebra_simps)
qed

lemma decode_index:
  assumes "geometry_ok g"
  shows "c = (spec_c_im g c * kernel_h g + spec_h_offset g c) * kernel_w g + spec_w_offset g c"
proof -
  from assms have k: "0 < kernel_h g" "0 < kernel_w g" by (simp_all add: geometry_ok_def)
  have "c div (kernel_w g * kernel_h g) = c div kernel_w g div kernel_h g"
    using k by (intro zdiv_zmult2_eq) simp
  then have "c div (kernel_h g * kernel_w g) = c div kernel_w g div kernel_h g"
    by (simp only: mult.commute [of "kernel_h g" "kernel_w g"])
  then have "spec_c_im g c * kernel_h g + spec_h_offset g c = c div kernel_w g"
    by (simp add: spec_c_im_def spec_h_offset_def)
  then show ?thesis by (simp add: spec_w_offset_def)
qed

lemma spec_offset_bounds:
  assumes "geometry_ok g"
  shows "0 \<le> spec_h_offset g c" "spec_h_offset g c < kernel_h g"
    "0 \<le> spec_w_offset g c" "spec_w_offset g c < kernel_w g"
  using assms by (simp_all add: geometry_ok_def spec_h_offset_def spec_w_offset_def)

lemma contributors_single:
  assumes "geometry_ok g" "0 \<le> ch" "ch < channels g"
    and "patches_over_row g r = [h0]" "patches_over_col g q = [w0]"
  shows "spec_contributors g ch r q =
     {((ch * kernel_h g + (r - (h0 * stride_h g - pad_h g))) * kernel_w g +
        (q - (w0 * stride_w g - pad_w g)), h0, w0)}"
    (is "_ = {(?c0, h0, w0)}")
proof -
  have hs: "0 \<le> h \<and> h < height_col_int g \<and> h * stride_h g - pad_h g \<le> r \<and>
      r < h * stride_h g - pad_h g + kernel_h g \<longleftrightarrow> h = h0" for h
  proof -
    have "h \<in> set (patches_over_row g r) \<longleftrightarrow> h = h0" by (simp add: assms(4))
    then show ?thesis by (auto simp: patches_over_row_def)
  qed
  have ws: "0 \<le> w \<and> w < width_col_int g \<and> w * stride_w g - pad_w g \<le> q \<and>
      q < w * stride_w g - pad_w g + kernel_w g \<longleftrightarrow> w = w0" for w
  proof -
    have "w \<in> set (patches_over_col g q) \<longleftrightarrow> w = w0" by (simp add: assms(5))
    then show ?thesis by (auto simp: patches_over_col_def)
  qed
  let ?ho = "r - (h0 * stride_h g - pad_h g)" and ?wo = "q - (w0 * stride_w g - pad_w g)"
  from hs [of h0] ws [of w0]
  have o: "0 \<le> ?ho" "?ho < kernel_h g" "0 \<le> ?wo" "?wo < kernel_w g"
    and b: "0 \<le> h0" "h0 < height_col_int g" "0 \<le> w0" "w0 < width_col_int g"
    by simp_all
  note enc = encode_index [OF assms(1,2) o]
  show ?thesis
  proof (intro set_eqI iffI)
    fix t
    assume "t \<in> {(?c0, h0, w0)}"
    then have t: "t = (?c0, h0, w0)" by simp
    show "t \<in> spec_contributors g ch r q"
      unfolding t using enc(1-4) enc(5) [OF assms(3)] b
      by (simp add: spec_contributors_def spec_h_pad_def spec_w_pad_def)
  next
    fix t
    assume a: "t \<in> spec_contributors g ch r q"
    obtain c h w where t: "t = (c, h, w)" by (cases t) auto
    from a have m: "0 \<le> h" "h < height_col_int g" "0 \<le> w" "w < width_col_int g"
      and l: "spec_c_im g c = ch" "spec_h_pad g h c = r" "spec_w_pad g w c = q"
      unfolding t by (simp_all add: spec_contributors_def)
    from l(2) spec_offset_bounds(1,2) [OF assms(1), of c] m hs [of h]
    have h: "h = h0" by (simp add: spec_h_pad_def)
    from l(3) spec_offset_bounds(3,4) [OF assms(1), of c] m ws [of w]
    have w: "w = w0" by (simp add: spec_w_pad_def)
    from l(2) h have "spec_h_offset g c = ?ho" by (simp add: spec_h_pad_def)
    moreover from l(3) w have "spec_w_offset g c = ?wo" by (simp add: spec_w_pad_def)
    ultimately have "c = ?c0" using decode_index [OF assms(1), of c] l(1) by simp
    with h w show "t \<in> {(?c0, h0, w0)}" unfolding t by simp
  qed
qed

lemma image_index_onto:
  assumes "0 \<le> i" "i < channels g * height g * width g" "0 < height g" "0 < width g"
  shows "\<exists>ch r q. 0 \<le> ch \<and> ch < channels g \<and> 0 \<le> r \<and> r < height g \<and>
     0 \<le> q \<and> q < width g \<and> spec_image_index g ch r q = i"
proof -
  let ?x = "i div width g"
  from assms(2) have "i < width g * (height g * channels g)" by (simp add: algebra_simps)
  from radix_split [OF assms(1) this assms(4)]
  have 1: "0 \<le> ?x" "?x < height g * channels g" "0 \<le> i mod width g" "i mod width g < width g"
    by simp_all
  from radix_split [OF 1(1,2) assms(3)]
  have 2: "0 \<le> ?x div height g" "?x div height g < channels g"
    "0 \<le> ?x mod height g" "?x mod height g < height g"
    by simp_all
  have "spec_image_index g (?x div height g) (?x mod height g) (i mod width g) = i"
    by (simp add: spec_image_index_def)
  with 1 2 show ?thesis by blast
qed

lemma col2im_cpu_int_outside:
  fixes data_col :: "('a::monoid_add) buffer"
  assumes "geometry_ok g" "i \<notin> {0..<channels g * height g * width g}"
  shows "\<exists>out. col2im_cpu_int data_col g data_im = Inr out \<and> out i = data_im i"
proof -
  from assms(1) have s: "stride_h g \<noteq> 0" "stride_w g \<noteq> 0" by (simp_all add: geometry_ok_def)
  have "\<not> (in_image_int g h w c \<and> image_offset_int g h w c = i)" if "(c, h, w) \<in> set (triples_int g)" for c h w
  proof
    assume a: "in_image_int g h w c \<and> image_offset_int g h w c = i"
    from that have c: "0 \<le> c" "c < channels_col_int g" by (simp_all add: set_triples)
    from a position_agrees [OF assms(1) c(1)]
    have b: "0 \<le> spec_h_pad g h c" "spec_h_pad g h c < height g"
      "0 \<le> spec_w_pad g w c" "spec_w_pad g w c < width g"
      and e: "spec_image_index g (spec_c_im g c) (spec_h_pad g h c) (spec_w_pad g w c) = i"
      by (simp_all add: spec_in_bounds_def)
    from spec_c_im_bounds [OF assms(1) c]
    have "0 \<le> spec_c_im g c" "spec_c_im g c < channels g" by simp_all
    from image_index_bounds [OF this b] e assms(2) show False
      by (simp add: algebra_simps)
  qed
  then have "filter (\<lambda>(c, h, w). in_image_int g h w c \<and> image_offset_int g h w c = i) (triples_int g) = []"
    by (auto simp: filter_empty_conv)
  moreover from assms(2) have "zero_image_int g data_im i = data_im i"
    by (auto simp: zero_image_int_apply algebra_simps)
  ultimately show ?thesis
    using col2im_cpu_int_sum_list [OF s, of data_col data_im] by auto
qed

subsection \<open>The concrete geometries\<close>

lemma upto_0_8: "[0..8] = [0, 1, 2, 3, 4, 5, 6, 7, 8]"
  by (simp add: upto.simps)

lemma upto_0_15: "[0..15] = [0, 1, 2, 3, 4, 5, 6, 7, 8, 9, 10, 11, 12, 13, 14, 15]"
  by (simp add: upto.simps)

lemma ball_int_range: "(\<forall>r\<in>{i..<j}. P r) \<longleftrightarrow> list_all P [i..j - 1]"
  by (auto simp: list_all_iff)

lemma ball_range_map:
  "(\<forall>i\<in>{a..<b}. f i = g i) \<Longrightarrow> map f [a..b - 1] = map g [a..b - 1]"
  by simp

lemma scenario_sizes:
  "height_col_int scenario = 2" "width_col_int scenario = 2" "channels_col_int scenario = 9"
  by (simp_all add: scenario_def height_col_int_def width_col_int_def channels_col_int_def c_div_def)

lemma scenario_fields:
  "channels scenario = 1" "height scenario = 4" "width scenario = 4"
  "kernel_h scenario = 3" "kernel_w scenario = 3" "pad_h scenario = 0" "pad_w scenario = 0"
  "stride_h scenario = 1" "stride_w scenario = 1"
  by (simp_all add: scenario_def)

lemma scenario_ok: "geometry_ok scenario"
  by (simp add: geometry_ok_def scenario_fields)

lemma scenario_contributors_1_1:
  "spec_contributors scenario 0 1 1 = {(0, 1, 1), (1, 1, 0), (3, 0, 1), (4, 0, 0)}"
  unfolding contributors_set [symmetric] triples_int_def scenario_sizes
  by (simp add: upto.simps spec_c_im_def spec_h_pad_def spec_w_pad_def spec_h_offset_def
      spec_w_offset_def scenario_fields insert_commute)

lemma padded_sizes:
  "height_col_int padded_example = 2" "width_col_int padded_example = 4"
  "channels_col_int padded_example = 12"
  by (simp_all add: padded_example_def height_col_int_def width_col_int_def channels_col_int_def c_div_def)

lemma padded_fields:
  "channels padded_example = 2" "height padded_example = 4" "width padded_example = 5"
  "kernel_h padded_example = 3" "kernel_w padded_example = 2"
  "pad_h padded_example = 1" "pad_w padded_example = 0"
  "stride_h padded_example = 2" "stride_w padded_example = 1"
  by (simp_all add: padded_example_def)

lemma tiled_sizes:
  "height_col_int tiled_example = 2" "width_col_int tiled_example = 2" "channels_col_int tiled_example = 12"
  by (simp_all add: tiled_example_def height_col_int_def width_col_int_def channels_col_int_def c_div_def)

lemma tiled_fields:
  "channels tiled_example = 2" "height tiled_example = 4" "width tiled_example = 6"
  "kernel_h tiled_example = 2" "kernel_w tiled_example = 3"
  "pad_h tiled_example = 0" "pad_w tiled_example = 0"
  "stride_h tiled_example = 2" "stride_w tiled_example = 3"
  by (simp_all add: tiled_example_def)

lemma sparse_sizes:
  "height_col_int sparse_example = 2" "width_col_int sparse_example = 2" "channels_col_int sparse_example = 1"
  by (simp_all add: sparse_example_def height_col_int_def width_col_int_def channels_col_int_def c_div_def)

lemma sparse_fields:
  "channels sparse_example = 1" "height sparse_example = 3" "width sparse_example = 3"
  "kernel_h sparse_example = 1" "kernel_w sparse_example = 1"
  "pad_h sparse_example = 0" "pad_w sparse_example = 0"
  "stride_h sparse_example = 2" "stride_w sparse_example = 2"
  by (simp_all add: sparse_example_def)

lemma degenerate_fields:
  "channels degenerate_example = 1" "height degenerate_example = 2" "width degenerate_example = 2"
  "kernel_h degenerate_example = 5" "kernel_w degenerate_example = 5"
  "pad_h degenerate_example = 0" "pad_w degenerate_example = 0"
  "stride_h degenerate_example = 1" "stride_w degenerate_example = 1"
  by (simp_all add: degenerate_example_def)

subsection \<open>The results on mathematical integers\<close>

lemma slot_value_int:
  fixes data_im :: "('a::zero) buffer"
  assumes "geometry_ok g" "1 \<le> height_col_int g" "1 \<le> width_col_int g"
    and "0 \<le> h" "h < height_col_int g" "0 \<le> w" "w < width_col_int g"
    and "0 \<le> c" "c < channels_col_int g"
  shows "\<exists>out. im2col_cpu_int data_im g data_col = Inr out \<and>
     out (channels_col_int g * width_col_int g * h + channels_col_int g * w + c) =
       (if 0 \<le> spec_h_pad g h c \<and> spec_h_pad g h c < height g \<and>
           0 \<le> spec_w_pad g w c \<and> spec_w_pad g w c < width g
        then data_im ((spec_c_im g c * height g + spec_h_pad g h c) * width g + spec_w_pad g w c)
        else 0)"
proof -
  let ?out = "im2col_loops_int (\<lambda>k x data_col. data_col(k := x)) data_im g data_col"
  from assms(1) have s: "stride_h g \<noteq> 0" "stride_w g \<noteq> 0" by (simp_all add: geometry_ok_def)
  from assms have t: "(c, h, w) \<in> set (triples_int g)" by (simp add: set_triples)
  have v: "?out (channels_col_int g * width_col_int g * h + channels_col_int g * w + c) =
       (if 0 \<le> spec_h_pad g h c \<and> spec_h_pad g h c < height g \<and>
           0 \<le> spec_w_pad g w c \<and> spec_w_pad g w c < width g
        then data_im ((spec_c_im g c * height g + spec_h_pad g h c) * width g + spec_w_pad g w c)
        else 0)"
    using im2col_at_slot [OF t, of data_im data_col] position_agrees [OF assms(1,8)]
    by (simp add: slot_int_def spec_in_bounds_def spec_image_index_def)
  show ?thesis
  proof (intro exI conjI)
    show "im2col_cpu_int data_im g data_col = Inr ?out" by (rule im2col_cpu_int_Inr [OF s])
    show "?out (channels_col_int g * width_col_int g * h + channels_col_int g * w + c) =
       (if 0 \<le> spec_h_pad g h c \<and> spec_h_pad g h c < height g \<and>
           0 \<le> spec_w_pad g w c \<and> spec_w_pad g w c < width g
        then data_im ((spec_c_im g c * height g + spec_h_pad g h c) * width g + spec_w_pad g w c)
        else 0)" by (rule v)
  qed
qed

lemma sums_contributions_int:
  fixes data_col :: "('a::comm_monoid_add) buffer"
  assumes "geometry_ok g" "1 \<le> height_col_int g" "1 \<le> width_col_int g"
    and "0 \<le> ch" "ch < channels g" "0 \<le> r" "r < height g" "0 \<le> q" "q < width g"
  shows "(\<forall>i\<in>{0..<channels g * height g * width g}. zero_image_int g data_im i = 0) \<and>
     (\<exists>out. col2im_cpu_int data_col g data_im = Inr out \<and>
        out ((ch * height g + r) * width g + q) =
          (\<Sum>(c, h, w)\<in>spec_contributors g ch r q.
             data_col (channels_col_int g * width_col_int g * h + channels_col_int g * w + c)) \<and>
        (\<forall>i. i \<notin> {0..<channels g * height g * width g} \<longrightarrow> out i = data_im i))"
proof -
  from assms(1) have s: "stride_h g \<noteq> 0" "stride_w g \<noteq> 0" by (simp_all add: geometry_ok_def)
  from col2im_cpu_int_sum_list [OF s, of data_col data_im]
  obtain out where o: "col2im_cpu_int data_col g data_im = Inr out" by blast
  have 1: "\<forall>i\<in>{0..<channels g * height g * width g}. zero_image_int g data_im i = 0"
    by (simp add: zero_image_int_apply algebra_simps)
  have 2: "out ((ch * height g + r) * width g + q) =
          (\<Sum>(c, h, w)\<in>spec_contributors g ch r q.
             data_col (channels_col_int g * width_col_int g * h + channels_col_int g * w + c))"
    using col2im_cpu_int_at_location [OF assms(1,4-9), of data_col data_im] o
    by (simp add: spec_image_index_def slot_int_def)
  have 3: "out i = data_im i" if "i \<notin> {0..<channels g * height g * width g}" for i
    using col2im_cpu_int_outside [OF assms(1) that, of data_col data_im] o by simp
  from o 1 2 3 show ?thesis by blast
qed

lemma roundtrip_int:
  fixes data_im :: "('a::comm_monoid_add) buffer"
  assumes "geometry_ok g" "pad_h g = 0" "pad_w g = 0"
    and "kernel_h g \<le> stride_h g" "kernel_w g \<le> stride_w g"
    and "1 \<le> height_col_int g" "1 \<le> width_col_int g"
    and rows: "\<forall>r\<in>{0..<height g}. length (patches_over_row g r) = 1"
    and cols: "\<forall>q\<in>{0..<width g}. length (patches_over_col g q) = 1"
  shows "\<exists>patches out.
     im2col_cpu_int data_im g data_col = Inr patches \<and> col2im_cpu_int patches g img = Inr out \<and>
     (\<forall>i\<in>{0..<channels g * height g * width g}. out i = data_im i)"
proof -
  let ?patches = "im2col_loops_int (\<lambda>k x data_col. data_col(k := x)) data_im g data_col"
  from assms(1) have s: "stride_h g \<noteq> 0" "stride_w g \<noteq> 0"
    and p: "0 < height g" "0 < width g" by (simp_all add: geometry_ok_def)
  from col2im_cpu_int_sum_list [OF s, of ?patches img]
  obtain out where o: "col2im_cpu_int ?patches g img = Inr out" by blast
  have "out i = data_im i" if "i \<in> {0..<channels g * height g * width g}" for i
  proof -
    from that have "0 \<le> i" "i < channels g * height g * width g" by simp_all
    from image_index_onto [OF this p]
    obtain ch r q where b: "0 \<le> ch" "ch < channels g" "0 \<le> r" "r < height g"
      "0 \<le> q" "q < width g" and i: "spec_image_index g ch r q = i"
      by blast
    from rows b(3,4) have "length (patches_over_row g r) = 1" by simp
    then obtain h0 where h0: "patches_over_row g r = [h0]"
      by (auto simp: length_Suc_conv)
    from cols b(5,6) have "length (patches_over_col g q) = 1" by simp
    then obtain w0 where w0: "patches_over_col g q = [w0]"
      by (auto simp: length_Suc_conv)
    note single = contributors_single [OF assms(1) b(1,2) h0 w0]
    have v: "?patches (slot_int g h w c) = data_im i" if "(c, h, w) \<in> spec_contributors g ch r q"
      for c h w
    proof -
      from that have t: "(c, h, w) \<in> set (triples_int g)" and c: "0 \<le> c"
        and l: "spec_c_im g c = ch" "spec_h_pad g h c = r" "spec_w_pad g w c = q"
        by (simp_all add: spec_contributors_def set_triples)
      from im2col_at_slot [OF t, of data_im data_col] position_agrees [OF assms(1) c] l b i
      show ?thesis by (simp add: spec_in_bounds_def)
    qed
    from col2im_cpu_int_at_location [OF assms(1) b, of ?patches img] o
    have "out i = (\<Sum>(c, h, w)\<in>spec_contributors g ch r q. ?patches (slot_int g h w c))"
      by (simp add: i)
    also have "\<dots> = (\<Sum>t\<in>spec_contributors g ch r q. data_im i)"
      using v by (intro sum.cong refl) auto
    also have "\<dots> = data_im i" by (simp add: single)
    finally show ?thesis .
  qed
  with o im2col_cpu_int_Inr [OF s, of data_im data_col] show ?thesis by blast
qed

lemma all_ones_coverage_int:
  fixes data_col :: "('a::semiring_1) buffer"
  assumes "geometry_ok g" "1 \<le> height_col_int g" "1 \<le> width_col_int g"
    and "stride_h g < kernel_h g \<or> stride_w g < kernel_w g"
    and "\<forall>k\<in>{0..<height_col_int g * width_col_int g * channels_col_int g}. data_col k = 1"
    and "0 \<le> ch" "ch < channels g" "0 \<le> r" "r < height g" "0 \<le> q" "q < width g"
  shows "\<exists>out. col2im_cpu_int data_col g data_im = Inr out \<and>
        out ((ch * height g + r) * width g + q) = of_nat (card (spec_contributors g ch r q))"
proof -
  have "data_col (slot_int g h w c) = 1" if "(c, h, w) \<in> spec_contributors g ch r q" for c h w
  proof -
    from that have "(c, h, w) \<in> set (triples_int g)"
      by (simp add: spec_contributors_def set_triples)
    from slot_bounds [OF this] assms(5) show ?thesis by simp
  qed
  then have "(\<Sum>(c, h, w)\<in>spec_contributors g ch r q. data_col (slot_int g h w c)) =
      (\<Sum>t\<in>spec_contributors g ch r q. 1)"
    by (intro sum.cong refl) auto
  with col2im_cpu_int_at_location [OF assms(1,6-11), of data_col data_im]
  show ?thesis by (simp add: spec_image_index_def)
qed

lemma all_ones_padding_int:
  fixes data_im :: "('a::zero_neq_one) buffer"
  assumes "geometry_ok g" "1 \<le> height_col_int g" "1 \<le> width_col_int g"
    and "0 < pad_h g \<or> 0 < pad_w g"
    and "\<forall>i\<in>{0..<channels g * height g * width g}. data_im i = 1"
    and "0 \<le> h" "h < height_col_int g" "0 \<le> w" "w < width_col_int g"
    and "0 \<le> c" "c < channels_col_int g"
  shows "\<exists>out. im2col_cpu_int data_im g data_col = Inr out \<and>
     out (channels_col_int g * width_col_int g * h + channels_col_int g * w + c) =
       (if 0 \<le> spec_h_pad g h c \<and> spec_h_pad g h c < height g \<and>
           0 \<le> spec_w_pad g w c \<and> spec_w_pad g w c < width g then 1 else 0) \<and>
     (out (channels_col_int g * width_col_int g * h + channels_col_int g * w + c) = 0 \<longleftrightarrow>
        \<not> (0 \<le> spec_h_pad g h c \<and> spec_h_pad g h c < height g \<and>
           0 \<le> spec_w_pad g w c \<and> spec_w_pad g w c < width g))"
proof -
  let ?out = "im2col_loops_int (\<lambda>k x data_col. data_col(k := x)) data_im g data_col"
  let ?k = "channels_col_int g * width_col_int g * h + channels_col_int g * w + c"
  let ?inside = "0 \<le> spec_h_pad g h c \<and> spec_h_pad g h c < height g \<and>
           0 \<le> spec_w_pad g w c \<and> spec_w_pad g w c < width g"
  from assms(1) have s: "stride_h g \<noteq> 0" "stride_w g \<noteq> 0" by (simp_all add: geometry_ok_def)
  from assms have t: "(c, h, w) \<in> set (triples_int g)" by (simp add: set_triples)
  have one: "data_im (spec_image_index g (spec_c_im g c) (spec_h_pad g h c) (spec_w_pad g w c)) = 1"
    if "?inside"
  proof -
    from spec_c_im_bounds [OF assms(1,10,11)] that
    have "0 \<le> spec_c_im g c" "spec_c_im g c < channels g"
      "0 \<le> spec_h_pad g h c" "spec_h_pad g h c < height g"
      "0 \<le> spec_w_pad g w c" "spec_w_pad g w c < width g" by simp_all
    from image_index_bounds [OF this] assms(5) show ?thesis
      by (simp add: algebra_simps)
  qed
  have v: "?out ?k = (if ?inside then 1 else 0)"
    using im2col_at_slot [OF t, of data_im data_col] position_agrees [OF assms(1,10)] one
    by (simp add: slot_int_def spec_in_bounds_def)
  show ?thesis
  proof (intro exI conjI)
    show "im2col_cpu_int data_im g data_col = Inr ?out" by (rule im2col_cpu_int_Inr [OF s])
    show "?out ?k = (if ?inside then 1 else 0)" by (rule v)
    show "?out ?k = 0 \<longleftrightarrow> \<not> ?inside" unfolding v by simp
  qed
qed

lemma stores_once_int:
  fixes data_im :: "('a::zero) buffer"
  assumes "geometry_ok g" "1 \<le> height_col_int g" "1 \<le> width_col_int g"
  shows "distinct (map fst (im2col_stores_int data_im g)) \<and>
     set (map fst (im2col_stores_int data_im g)) =
       {0..<height_col_int g * width_col_int g * channels_col_int g} \<and>
     (\<exists>out1 out2.
        im2col_cpu_int data_im g col1 = Inr out1 \<and> im2col_cpu_int data_im g col2 = Inr out2 \<and>
        out1 = fold (\<lambda>(k, x) f. f(k := x)) (im2col_stores_int data_im g) col1 \<and>
        out2 = fold (\<lambda>(k, x) f. f(k := x)) (im2col_stores_int data_im g) col2 \<and>
        (\<forall>i\<in>{0..<height_col_int g * width_col_int g * channels_col_int g}. out1 i = out2 i))"
proof -
  let ?run = "im2col_loops_int (\<lambda>k x data_col. data_col(k := x)) data_im g"
  from assms(1) have s: "stride_h g \<noteq> 0" "stride_w g \<noteq> 0" by (simp_all add: geometry_ok_def)
  note cc = channels_col_ok [OF assms(1)]
  have 1: "distinct (map fst (im2col_stores_int data_im g))"
    unfolding map_fst_stores by (simp add: distinct_map distinct_triples slot_inj)
  have 2: "set (map fst (im2col_stores_int data_im g)) =
       {0..<height_col_int g * width_col_int g * channels_col_int g}"
    unfolding map_fst_stores using slot_image [OF assms(2,3) cc] by simp
  have 3: "?run col1 i = ?run col2 i"
    if "i \<in> {0..<height_col_int g * width_col_int g * channels_col_int g}" for i
  proof -
    from that have "0 \<le> i" "i < height_col_int g * width_col_int g * channels_col_int g" by simp_all
    from slot_onto [OF this assms(3) cc]
    obtain c h w where t: "(c, h, w) \<in> set (triples_int g)" and i: "slot_int g h w c = i" by blast
    from im2col_at_slot [OF t, of data_im col1] im2col_at_slot [OF t, of data_im col2]
    show ?thesis unfolding i by simp
  qed
  show ?thesis
  proof (intro conjI exI ballI)
    show "im2col_cpu_int data_im g col1 = Inr (?run col1)" by (rule im2col_cpu_int_Inr [OF s])
    show "im2col_cpu_int data_im g col2 = Inr (?run col2)" by (rule im2col_cpu_int_Inr [OF s])
    show "?run col1 = fold (\<lambda>(k, x) f. f(k := x)) (im2col_stores_int data_im g) col1"
      by (rule replay_stores [symmetric])
    show "?run col2 = fold (\<lambda>(k, x) f. f(k := x)) (im2col_stores_int data_im g) col2"
      by (rule replay_stores [symmetric])
  qed (rule 1, rule 2, rule 3)
qed

section \<open>The functions against the computation on mathematical integers\<close>

subsection \<open>Loops as folds\<close>

lemma sint_of_int32: "in32 x \<Longrightarrow> sint (word_of_int x :: cint) = x"
  by (simp add: in32_def sint_sbintrunc' signed_take_bit_int_eq_self)

lemma in32_sint: "in32 (sint (a :: cint))"
  using sint_ge [of a] sint_lt [of a] by (simp add: in32_def)

lemma sint_succ: "sint (i :: cint) < sint (n :: cint) \<Longrightarrow> sint (i + 1) = sint i + 1"
proof -
  assume a: "sint i < sint n"
  have "sint n < 2 ^ 31" using sint_lt [of n] by simp
  moreover have "- (2 ^ 31) \<le> sint i" using sint_ge [of i] by simp
  ultimately show ?thesis
    using a by (simp add: sint_word_ariths signed_take_bit_int_eq_self)
qed

lemma for_loop_fold:
  "for_loop i n body s = fold (\<lambda>k. body (word_of_int k)) [sint i..sint n - 1] s"
proof (induction i n body s rule: for_loop.induct)
  case (1 i n body s)
  show ?case
  proof (cases "sint i < sint n")
    case True
    then have "[sint i..sint n - 1] = sint i # [sint (i + 1)..sint n - 1]"
      by (simp add: upto_rec1 sint_succ)
    with True 1 show ?thesis by (simp add: for_loop.simps [of i])
  next
    case False
    then show ?thesis by (simp add: for_loop.simps [of i])
  qed
qed

lemma im2col_with_flat32:
  assumes "height_col g = Inr hc" "width_col g = Inr wc"
  shows "im2col_with store data_im g s =
     Inr (fold (\<lambda>(c, h, w) s.
             if in_image32 g (word_of_int h) (word_of_int w) (word_of_int c)
             then store (slot32 (channels_col g) wc
                      (word_of_int h) (word_of_int w) (word_of_int c))
                    (data_im (image_offset32 g (word_of_int h) (word_of_int w) (word_of_int c))) s
             else store (slot32 (channels_col g) wc
                      (word_of_int h) (word_of_int w) (word_of_int c)) 0 s)
       (triples32 (channels_col g) hc wc) s)"
proof -
  have "im2col_with store data_im g s =
     Inr (fold (\<lambda>c. fold (\<lambda>h. fold (\<lambda>w s.
             if in_image32 g (word_of_int h) (word_of_int w) (word_of_int c)
             then store (slot32 (channels_col g) wc
                      (word_of_int h) (word_of_int w) (word_of_int c))
                    (data_im (image_offset32 g (word_of_int h) (word_of_int w) (word_of_int c))) s
             else store (slot32 (channels_col g) wc
                      (word_of_int h) (word_of_int w) (word_of_int c)) 0 s)
           [0..sint wc - 1]) [0..sint hc - 1])
           [0..sint (channels_col g) - 1] s)"
    unfolding im2col_with_def assms for_loop_fold Let_def slot32_def in_image32_def
      image_offset32_def h_pad32_def w_pad32_def h_offset32_def w_offset32_def c_im32_def
    by simp
  also have "\<dots> = Inr (fold (\<lambda>(c, h, w) s.
             if in_image32 g (word_of_int h) (word_of_int w) (word_of_int c)
             then store (slot32 (channels_col g) wc
                      (word_of_int h) (word_of_int w) (word_of_int c))
                    (data_im (image_offset32 g (word_of_int h) (word_of_int w) (word_of_int c))) s
             else store (slot32 (channels_col g) wc
                      (word_of_int h) (word_of_int w) (word_of_int c)) 0 s)
       (triples32 (channels_col g) hc wc) s)"
    unfolding triples32_def by (simp only: fold_product3)
  finally show ?thesis .
qed

lemma col2im_cpu_flat32:
  fixes data_col :: "('a::{zero,plus}) buffer"
  assumes "height_col g = Inr hc" "width_col g = Inr wc"
  shows "col2im_cpu data_col g data_im =
     Inr (fold (\<lambda>(c, h, w) s.
             if in_image32 g (word_of_int h) (word_of_int w) (word_of_int c)
             then s(image_offset32 g (word_of_int h) (word_of_int w) (word_of_int c) :=
                    s (image_offset32 g (word_of_int h) (word_of_int w) (word_of_int c)) +
                    data_col (slot32 (channels_col g) wc
                      (word_of_int h) (word_of_int w) (word_of_int c)))
             else s)
       (triples32 (channels_col g) hc wc)
       (zero_image g data_im))"
proof -
  have "col2im_cpu data_col g data_im =
     Inr (fold (\<lambda>c. fold (\<lambda>h. fold (\<lambda>w s.
             if in_image32 g (word_of_int h) (word_of_int w) (word_of_int c)
             then s(image_offset32 g (word_of_int h) (word_of_int w) (word_of_int c) :=
                    s (image_offset32 g (word_of_int h) (word_of_int w) (word_of_int c)) +
                    data_col (slot32 (channels_col g) wc
                      (word_of_int h) (word_of_int w) (word_of_int c)))
             else s)
           [0..sint wc - 1]) [0..sint hc - 1])
           [0..sint (channels_col g) - 1] (zero_image g data_im))"
    unfolding col2im_cpu_def assms for_loop_fold Let_def slot32_def in_image32_def
      image_offset32_def h_pad32_def w_pad32_def h_offset32_def w_offset32_def c_im32_def
    by simp
  also have "\<dots> = Inr (fold (\<lambda>(c, h, w) s.
             if in_image32 g (word_of_int h) (word_of_int w) (word_of_int c)
             then s(image_offset32 g (word_of_int h) (word_of_int w) (word_of_int c) :=
                    s (image_offset32 g (word_of_int h) (word_of_int w) (word_of_int c)) +
                    data_col (slot32 (channels_col g) wc
                      (word_of_int h) (word_of_int w) (word_of_int c)))
             else s)
       (triples32 (channels_col g) hc wc)
       (zero_image g data_im))"
    unfolding triples32_def by (simp only: fold_product3)
  finally show ?thesis .
qed

lemma zero_image_apply:
  "zero_image g data_im i =
     (if 0 \<le> i \<and> i < sint (height g * width g * channels g) then 0 else data_im i)"
proof -
  have f: "fold (\<lambda>i f. f(i := 0)) xs f0 i = (if i \<in> set xs then 0 else f0 i)"
    for xs :: "int list" and f0 :: "int \<Rightarrow> 'a"
    by (induction xs arbitrary: f0) auto
  let ?n = "sint (height g * width g * channels g)"
  have "fold (\<lambda>k f. f(sint (word_of_int k :: cint) := 0)) [0..?n - 1] data_im =
      fold (\<lambda>k f. f(k := 0)) [0..?n - 1] data_im"
  proof (rule fold_cong [OF refl refl])
    fix k assume "k \<in> set [0..?n - 1]"
    then have "0 \<le> k" "k < ?n" by simp_all
    with sint_lt [of "height g * width g * channels g"] have "in32 k"
      by (simp add: in32_def)
    then show "(\<lambda>f. f(sint (word_of_int k :: cint) := (0::'a))) = (\<lambda>f. f(k := 0))"
      by (simp add: sint_of_int32)
  qed
  then show ?thesis
    unfolding zero_image_def for_loop_fold by (auto simp: f)
qed

subsection \<open>The divisions inside the loops\<close>

lemma loop_divisors_nonzero:
  assumes "0 < sint (channels_col g)"
  shows "sint (kernel_h g) \<noteq> 0" "sint (kernel_w g) \<noteq> 0"
proof -
  have "channels_col g = 0" if "sint (kernel_h g) = 0 \<or> sint (kernel_w g) = 0"
    using that by (auto simp: channels_col_def signed_eq_0_iff)
  with assms show "sint (kernel_h g) \<noteq> 0" "sint (kernel_w g) \<noteq> 0" by auto
qed

lemma c_div_abs_le: "\<bar>c_div a b\<bar> \<le> \<bar>a\<bar>"
proof -
  have nn: "0 \<le> \<bar>a\<bar> div \<bar>b\<bar>"
    by (cases "b = 0") (simp_all add: pos_imp_zdiv_nonneg_iff)
  then have "\<bar>c_div a b\<bar> = \<bar>sgn a\<bar> * \<bar>sgn b\<bar> * (\<bar>a\<bar> div \<bar>b\<bar>)"
    unfolding c_div_def abs_mult by simp
  also have "\<dots> \<le> \<bar>a\<bar> div \<bar>b\<bar>"
    using nn by (cases "a = 0"; cases "b = 0") (simp_all add: abs_sgn_eq)
  also have "\<dots> \<le> \<bar>a\<bar>"
  proof (cases "b = 0")
    case False
    then have "1 \<le> \<bar>b\<bar>" by simp
    from zdiv_mono2 [OF _ _ this, of "\<bar>a\<bar>"] show ?thesis by simp
  qed simp
  finally show ?thesis .
qed

lemma loop_dividends:
  fixes n d :: cint
  assumes "k \<in> set [0..sint n - 1]"
  shows "sint (word_of_int k :: cint) = k"
    and "sint (quot32 (word_of_int k) d) \<noteq> - (2 ^ 31)"
proof -
  from assms have "0 \<le> k" "k < sint n" by simp_all
  with sint_lt [of n] have k: "in32 k" "0 \<le> k" "k < 2 ^ 31" by (simp_all add: in32_def)
  then show 1: "sint (word_of_int k :: cint) = k" by (simp add: sint_of_int32)
  from c_div_abs_le [of k "sint d"] k have "in32 (c_div k (sint d))" "c_div k (sint d) \<noteq> - (2 ^ 31)"
    unfolding in32_def by linarith+
  then show "sint (quot32 (word_of_int k) d) \<noteq> - (2 ^ 31)"
    unfolding quot32_def 1 by (simp add: sint_of_int32)
qed

subsection \<open>Values that fit\<close>

lemma to_c_sint:
  assumes "representable g"
  shows "sint (channels (to_c g)) = channels g" "sint (height (to_c g)) = height g"
    "sint (width (to_c g)) = width g" "sint (kernel_h (to_c g)) = kernel_h g"
    "sint (kernel_w (to_c g)) = kernel_w g" "sint (pad_h (to_c g)) = pad_h g"
    "sint (pad_w (to_c g)) = pad_w g" "sint (stride_h (to_c g)) = stride_h g"
    "sint (stride_w (to_c g)) = stride_w g"
  using assms by (simp_all add: representable_def to_c_def sint_of_int32)

lemma quot32_of_int:
  "in32 a \<Longrightarrow> in32 b \<Longrightarrow> quot32 (word_of_int a) (word_of_int b) = word_of_int (c_div a b)"
  by (simp add: quot32_def sint_of_int32)

lemma rem32_of_int:
  "in32 a \<Longrightarrow> in32 b \<Longrightarrow> rem32 (word_of_int a) (word_of_int b) = word_of_int (c_rem a b)"
  by (simp add: rem32_def sint_of_int32)

lemma checked_div_of_int:
  assumes "in32 a" "in32 b" "0 < b"
  shows "checked_div (word_of_int a) (word_of_int b) = Inr (word_of_int (c_div a b))"
  using assms by (simp add: checked_div_def sint_of_int32 quot32_of_int)

lemma height_col_to_c:
  assumes "representable g" "geometry_ok g" "fits g"
  shows "height_col (to_c g) = Inr (word_of_int (height_col_int g - 1) + 1)"
proof -
  have "height (to_c g) + 2 * pad_h (to_c g) - kernel_h (to_c g) =
      word_of_int (height g + 2 * pad_h g - kernel_h g)"
    by (simp add: to_c_def)
  moreover have "stride_h (to_c g) = word_of_int (stride_h g)" by (simp add: to_c_def)
  moreover from assms have "in32 (height g + 2 * pad_h g - kernel_h g)" "in32 (stride_h g)"
    "0 < stride_h g"
    by (simp_all add: fits_def representable_def geometry_ok_def)
  ultimately show ?thesis
    unfolding height_col_def by (simp only: checked_div_of_int) (simp add: height_col_int_def)
qed

lemma width_col_to_c:
  assumes "representable g" "geometry_ok g" "fits g"
  shows "width_col (to_c g) = Inr (word_of_int (width_col_int g - 1) + 1)"
proof -
  have "width (to_c g) + 2 * pad_w (to_c g) - kernel_w (to_c g) =
      word_of_int (width g + 2 * pad_w g - kernel_w g)"
    by (simp add: to_c_def)
  moreover have "stride_w (to_c g) = word_of_int (stride_w g)" by (simp add: to_c_def)
  moreover from assms have "in32 (width g + 2 * pad_w g - kernel_w g)" "in32 (stride_w g)"
    "0 < stride_w g"
    by (simp_all add: fits_def representable_def geometry_ok_def)
  ultimately show ?thesis
    unfolding width_col_def by (simp only: checked_div_of_int) (simp add: width_col_int_def)
qed

lemma sizes_to_c:
  assumes "fits g"
  shows "sint (word_of_int (height_col_int g - 1) + 1 :: cint) = height_col_int g"
    "sint (word_of_int (width_col_int g - 1) + 1 :: cint) = width_col_int g"
    "sint (channels (to_c g) * kernel_h (to_c g) * kernel_w (to_c g)) = channels_col_int g"
    "sint (height (to_c g) * width (to_c g) * channels (to_c g)) =
       height g * width g * channels g"
proof -
  have "(word_of_int (height_col_int g - 1) + 1 :: cint) = word_of_int (height_col_int g)"
    "(word_of_int (width_col_int g - 1) + 1 :: cint) = word_of_int (width_col_int g)"
    "channels (to_c g) * kernel_h (to_c g) * kernel_w (to_c g) = word_of_int (channels_col_int g)"
    "height (to_c g) * width (to_c g) * channels (to_c g) =
       word_of_int (height g * width g * channels g)"
    by (simp_all add: to_c_def channels_col_int_def)
  with assms show "sint (word_of_int (height_col_int g - 1) + 1 :: cint) = height_col_int g"
    "sint (word_of_int (width_col_int g - 1) + 1 :: cint) = width_col_int g"
    "sint (channels (to_c g) * kernel_h (to_c g) * kernel_w (to_c g)) = channels_col_int g"
    "sint (height (to_c g) * width (to_c g) * channels (to_c g)) =
       height g * width g * channels g"
    by (simp_all only: fits_def sint_of_int32)
qed

lemma triples_to_c:
  assumes "fits g"
  shows "triples32 (channels (to_c g) * kernel_h (to_c g) * kernel_w (to_c g))
     (word_of_int (height_col_int g - 1) + 1) (word_of_int (width_col_int g - 1) + 1) = triples_int g"
  unfolding triples32_def triples_int_def by (simp only: sizes_to_c [OF assms])

lemma in32_between: "in32 a \<Longrightarrow> in32 b \<Longrightarrow> a \<le> x \<Longrightarrow> x \<le> b \<Longrightarrow> in32 x"
  by (simp add: in32_def)

lemma int_div_le_self: "0 \<le> c \<Longrightarrow> 0 < k \<Longrightarrow> c div k \<le> (c::int)"
  using zdiv_mono2 [of c 1 k] by simp

lemma body_to_c:
  assumes r: "representable g" and ok: "geometry_ok g" and f: "fits g"
    and t: "(c, h, w) \<in> set (triples_int g)"
  shows "in_image32 (to_c g) (word_of_int h) (word_of_int w) (word_of_int c) = in_image_int g h w c"
    and "slot32 (channels (to_c g) * kernel_h (to_c g) * kernel_w (to_c g))
           (word_of_int (width_col_int g - 1) + 1) (word_of_int h) (word_of_int w) (word_of_int c) =
         slot_int g h w c"
    and "in_image_int g h w c \<Longrightarrow>
         image_offset32 (to_c g) (word_of_int h) (word_of_int w) (word_of_int c) =
         image_offset_int g h w c"
proof -
  from t have b: "0 \<le> c" "c < channels_col_int g" "0 \<le> h" "h < height_col_int g"
    "0 \<le> w" "w < width_col_int g"
    by (simp_all add: set_triples)
  from ok have k: "0 < kernel_h g" "0 < kernel_w g" "0 < stride_h g" "0 < stride_w g"
    by (simp_all add: geometry_ok_def)
  from r have rk: "in32 (kernel_h g)" "in32 (kernel_w g)" by (simp_all add: representable_def)
  from f have fc: "in32 (channels_col_int g)" by (simp add: fits_def)
  have z: "in32 0" by (simp add: in32_def)
  from b fc have c: "in32 c" by (intro in32_between [OF z fc]) simp_all
  have d1: "in32 (c_div c (kernel_w g))"
    using b k by (intro in32_between [OF z c]) (simp_all add: c_div_nonneg pos_imp_zdiv_nonneg_iff int_div_le_self)
  have d2: "in32 (c_div c (kernel_h g))"
    using b k by (intro in32_between [OF z c]) (simp_all add: c_div_nonneg pos_imp_zdiv_nonneg_iff int_div_le_self)
  have wo: "w_offset32 (to_c g) (word_of_int c) = word_of_int (w_offset_int g c)"
    by (simp add: w_offset32_def w_offset_int_def to_c_def rem32_of_int [OF c rk(2)])
  have ho: "h_offset32 (to_c g) (word_of_int c) = word_of_int (h_offset_int g c)"
    by (simp add: h_offset32_def h_offset_int_def to_c_def quot32_of_int [OF c rk(2)]
        rem32_of_int [OF d1 rk(1)])
  have ci: "c_im32 (to_c g) (word_of_int c) = word_of_int (c_im_int g c)"
    by (simp add: c_im32_def c_im_int_def to_c_def quot32_of_int [OF c rk(1)]
        quot32_of_int [OF d2 rk(2)])
  have hp: "h_pad32 (to_c g) (word_of_int h) (word_of_int c) = word_of_int (h_pad_int g h c)"
    by (simp add: h_pad32_def h_pad_int_def ho) (simp add: to_c_def)
  have wp: "w_pad32 (to_c g) (word_of_int w) (word_of_int c) = word_of_int (w_pad_int g w c)"
    by (simp add: w_pad32_def w_pad_int_def wo) (simp add: to_c_def)
  have hob: "0 \<le> h_offset_int g c" "h_offset_int g c \<le> kernel_h g - 1"
    and wob: "0 \<le> w_offset_int g c" "w_offset_int g c \<le> kernel_w g - 1"
    using decode_agrees [OF ok b(1)] k
    by (simp_all add: spec_h_offset_def spec_w_offset_def)
  have hs: "0 \<le> h * stride_h g" "h * stride_h g \<le> (height_col_int g - 1) * stride_h g"
    using b k by (simp_all add: mult_right_mono)
  have ws: "0 \<le> w * stride_w g" "w * stride_w g \<le> (width_col_int g - 1) * stride_w g"
    using b k by (simp_all add: mult_right_mono)
  from f have fh: "in32 (- pad_h g)"
    "in32 ((height_col_int g - 1) * stride_h g - pad_h g + kernel_h g - 1)"
    and fw: "in32 (- pad_w g)"
    "in32 ((width_col_int g - 1) * stride_w g - pad_w g + kernel_w g - 1)"
    by (simp_all add: fits_def)
  have hpi: "in32 (h_pad_int g h c)"
    using hob hs by (intro in32_between [OF fh]) (simp_all add: h_pad_int_def)
  have wpi: "in32 (w_pad_int g w c)"
    using wob ws by (intro in32_between [OF fw]) (simp_all add: w_pad_int_def)
  show ii: "in_image32 (to_c g) (word_of_int h) (word_of_int w) (word_of_int c) =
      in_image_int g h w c"
    by (simp add: in_image32_def in_image_int_def hp wp sint_of_int32 [OF hpi] sint_of_int32 [OF wpi]
        to_c_sint [OF r])
  have "channels (to_c g) * kernel_h (to_c g) * kernel_w (to_c g) *
        (word_of_int (width_col_int g - 1) + 1) * word_of_int h +
        channels (to_c g) * kernel_h (to_c g) * kernel_w (to_c g) * word_of_int w +
        word_of_int c = (word_of_int (slot_int g h w c) :: cint)"
    by (simp add: slot_int_def channels_col_int_def to_c_def)
  moreover have "in32 (slot_int g h w c)"
  proof -
    from f have "in32 (height_col_int g * width_col_int g * channels_col_int g)" by (simp add: fits_def)
    with slot_bounds [OF t] show ?thesis by (simp add: in32_def)
  qed
  ultimately show "slot32 (channels (to_c g) * kernel_h (to_c g) * kernel_w (to_c g))
           (word_of_int (width_col_int g - 1) + 1) (word_of_int h) (word_of_int w) (word_of_int c) =
         slot_int g h w c"
    unfolding slot32_def by (simp only: sint_of_int32)
  assume a: "in_image_int g h w c"
  have "(c_im32 (to_c g) (word_of_int c) * height (to_c g) +
         h_pad32 (to_c g) (word_of_int h) (word_of_int c)) * width (to_c g) +
        w_pad32 (to_c g) (word_of_int w) (word_of_int c) =
        (word_of_int (image_offset_int g h w c) :: cint)"
    by (simp add: ci hp wp image_offset_int_def) (simp add: to_c_def)
  moreover have "in32 (image_offset_int g h w c)"
  proof -
    from a position_agrees [OF ok b(1)]
    have p: "0 \<le> spec_h_pad g h c" "spec_h_pad g h c < height g"
      "0 \<le> spec_w_pad g w c" "spec_w_pad g w c < width g"
      by (simp_all add: spec_in_bounds_def)
    from spec_c_im_bounds [OF ok b(1,2)]
    have "0 \<le> spec_c_im g c" "spec_c_im g c < channels g" by simp_all
    from image_index_bounds [OF this p] position_agrees(4) [OF ok b(1), of h w]
    have "0 \<le> image_offset_int g h w c" "image_offset_int g h w c < height g * width g * channels g"
      by simp_all
    moreover from f have "in32 (height g * width g * channels g)" by (simp add: fits_def)
    ultimately show ?thesis by (simp add: in32_def)
  qed
  ultimately show "image_offset32 (to_c g) (word_of_int h) (word_of_int w) (word_of_int c) =
         image_offset_int g h w c"
    unfolding image_offset32_def by (simp only: sint_of_int32)
qed

subsection \<open>Refinement\<close>

lemma im2col_with_refines:
  assumes r: "representable g" and ok: "geometry_ok g" and f: "fits g"
  shows "im2col_with store data_im (to_c g) s = Inr (im2col_loops_int store data_im g s)"
proof -
  note flat = im2col_with_flat32 [OF height_col_to_c [OF r ok f] width_col_to_c [OF r ok f],
      of store data_im s, unfolded channels_col_def]
  have "fold (\<lambda>(c, h, w) s.
             if in_image32 (to_c g) (word_of_int h) (word_of_int w) (word_of_int c)
             then store (slot32 (channels (to_c g) * kernel_h (to_c g) * kernel_w (to_c g))
                      (word_of_int (width_col_int g - 1) + 1)
                      (word_of_int h) (word_of_int w) (word_of_int c))
                    (data_im (image_offset32 (to_c g) (word_of_int h) (word_of_int w)
                      (word_of_int c))) s
             else store (slot32 (channels (to_c g) * kernel_h (to_c g) * kernel_w (to_c g))
                      (word_of_int (width_col_int g - 1) + 1)
                      (word_of_int h) (word_of_int w) (word_of_int c)) 0 s)
       (triples_int g) s =
     fold (\<lambda>(c, h, w) s.
             if in_image_int g h w c then store (slot_int g h w c) (data_im (image_offset_int g h w c)) s
             else store (slot_int g h w c) 0 s)
       (triples_int g) s"
  proof (rule fold_cong [OF refl refl])
    fix t assume t: "t \<in> set (triples_int g)"
    obtain c h w where e: "t = (c, h, w)" by (cases t) auto
    from t have m: "(c, h, w) \<in> set (triples_int g)" unfolding e .
    show "(case t of (c, h, w) \<Rightarrow> \<lambda>s.
             if in_image32 (to_c g) (word_of_int h) (word_of_int w) (word_of_int c)
             then store (slot32 (channels (to_c g) * kernel_h (to_c g) * kernel_w (to_c g))
                      (word_of_int (width_col_int g - 1) + 1)
                      (word_of_int h) (word_of_int w) (word_of_int c))
                    (data_im (image_offset32 (to_c g) (word_of_int h) (word_of_int w)
                      (word_of_int c))) s
             else store (slot32 (channels (to_c g) * kernel_h (to_c g) * kernel_w (to_c g))
                      (word_of_int (width_col_int g - 1) + 1)
                      (word_of_int h) (word_of_int w) (word_of_int c)) 0 s) =
          (case t of (c, h, w) \<Rightarrow> \<lambda>s.
             if in_image_int g h w c then store (slot_int g h w c) (data_im (image_offset_int g h w c)) s
             else store (slot_int g h w c) 0 s)"
      unfolding e using body_to_c [OF r ok f m] by (auto simp: fun_eq_iff)
  qed
  with flat show ?thesis
    by (simp only: triples_to_c [OF f] im2col_loops_int_flat)
qed

lemma im2col_cpu_refines:
  assumes "representable g" "geometry_ok g" "fits g"
  shows "im2col_cpu data_im (to_c g) data_col = im2col_cpu_int data_im g data_col"
proof -
  from assms(2) have "stride_h g \<noteq> 0" "stride_w g \<noteq> 0" by (simp_all add: geometry_ok_def)
  then show ?thesis
    by (simp add: im2col_cpu_def im2col_cpu_int_def im2col_with_refines [OF assms])
qed

lemma im2col_stores_refines:
  assumes "representable g" "geometry_ok g" "fits g"
  shows "im2col_stores data_im (to_c g) = Inr (im2col_stores_int data_im g)"
  by (simp add: im2col_stores_def im2col_stores_int_def im2col_with_refines [OF assms])

lemma zero_image_refines:
  assumes "fits g"
  shows "zero_image (to_c g) data_im = zero_image_int g data_im"
  by (rule ext) (simp add: zero_image_apply zero_image_int_apply sizes_to_c [OF assms])

lemma col2im_cpu_refines:
  fixes data_col :: "('a::{zero,plus}) buffer"
  assumes r: "representable g" and ok: "geometry_ok g" and f: "fits g"
  shows "col2im_cpu data_col (to_c g) data_im = col2im_cpu_int data_col g data_im"
proof -
  from ok have s: "stride_h g \<noteq> 0" "stride_w g \<noteq> 0" by (simp_all add: geometry_ok_def)
  note flat = col2im_cpu_flat32 [OF height_col_to_c [OF r ok f] width_col_to_c [OF r ok f],
      of data_col data_im, unfolded channels_col_def]
  have "fold (\<lambda>(c, h, w) s.
             if in_image32 (to_c g) (word_of_int h) (word_of_int w) (word_of_int c)
             then s(image_offset32 (to_c g) (word_of_int h) (word_of_int w) (word_of_int c) :=
                    s (image_offset32 (to_c g) (word_of_int h) (word_of_int w) (word_of_int c)) +
                    data_col (slot32 (channels (to_c g) * kernel_h (to_c g) * kernel_w (to_c g))
                      (word_of_int (width_col_int g - 1) + 1)
                      (word_of_int h) (word_of_int w) (word_of_int c)))
             else s)
       (triples_int g) (zero_image_int g data_im) =
     fold (\<lambda>(c, h, w) s.
             if in_image_int g h w c
             then s(image_offset_int g h w c := s (image_offset_int g h w c) + data_col (slot_int g h w c))
             else s)
       (triples_int g) (zero_image_int g data_im)"
  proof (rule fold_cong [OF refl refl])
    fix t assume t: "t \<in> set (triples_int g)"
    obtain c h w where e: "t = (c, h, w)" by (cases t) auto
    from t have m: "(c, h, w) \<in> set (triples_int g)" unfolding e .
    show "(case t of (c, h, w) \<Rightarrow> \<lambda>s.
             if in_image32 (to_c g) (word_of_int h) (word_of_int w) (word_of_int c)
             then s(image_offset32 (to_c g) (word_of_int h) (word_of_int w) (word_of_int c) :=
                    s (image_offset32 (to_c g) (word_of_int h) (word_of_int w) (word_of_int c)) +
                    data_col (slot32 (channels (to_c g) * kernel_h (to_c g) * kernel_w (to_c g))
                      (word_of_int (width_col_int g - 1) + 1)
                      (word_of_int h) (word_of_int w) (word_of_int c)))
             else s) =
          (case t of (c, h, w) \<Rightarrow> \<lambda>s.
             if in_image_int g h w c
             then s(image_offset_int g h w c := s (image_offset_int g h w c) + data_col (slot_int g h w c))
             else s)"
      unfolding e using body_to_c [OF r ok f m] by (auto simp: fun_eq_iff)
  qed
  with flat show ?thesis
    by (simp only: triples_to_c [OF f] zero_image_refines [OF f] col2im_cpu_int_flat [OF s])
qed

subsection \<open>Sums in the order of the loops\<close>

lemma fold_accum_order:
  fixes f0 :: "'i \<Rightarrow> 'a::plus"
  shows "fold (\<lambda>t f. if p t then f(k t := f (k t) + v t) else f) ts f0 i =
     foldl (+) (f0 i) (map v (filter (\<lambda>t. p t \<and> k t = i) ts))"
  by (induction ts arbitrary: f0) auto

lemma col2im_cpu_int_in_order:
  fixes data_col :: "('a::{zero,plus}) buffer"
  assumes "stride_h g \<noteq> 0" "stride_w g \<noteq> 0"
  shows "\<exists>out. col2im_cpu_int data_col g data_im = Inr out \<and>
     (\<forall>i. out i = foldl (+) (zero_image_int g data_im i)
        (map (\<lambda>(c, h, w). data_col (slot_int g h w c))
          (filter (\<lambda>(c, h, w). in_image_int g h w c \<and> image_offset_int g h w c = i) (triples_int g))))"
proof -
  let ?p = "\<lambda>(c, h, w). in_image_int g h w c"
  let ?k = "\<lambda>(c, h, w). image_offset_int g h w c"
  let ?v = "\<lambda>(c, h, w). data_col (slot_int g h w c)"
  have "(\<lambda>(c, h, w) s.
             if in_image_int g h w c
             then s(image_offset_int g h w c := s (image_offset_int g h w c) + data_col (slot_int g h w c))
             else s) =
        (\<lambda>t f. if ?p t then f(?k t := f (?k t) + ?v t) else f)"
    by (intro ext) (simp split: prod.split)
  then have e: "col2im_cpu_int data_col g data_im =
      Inr (fold (\<lambda>t f. if ?p t then f(?k t := f (?k t) + ?v t) else f) (triples_int g)
        (zero_image_int g data_im))"
    by (simp only: col2im_cpu_int_flat [OF assms])
  have p: "(\<lambda>t. ?p t \<and> ?k t = i) =
      (\<lambda>(c, h, w). in_image_int g h w c \<and> image_offset_int g h w c = i)" for i
    by (intro ext) (simp split: prod.split)
  have "fold (\<lambda>t f. if ?p t then f(?k t := f (?k t) + ?v t) else f) (triples_int g)
        (zero_image_int g data_im) i =
      foldl (+) (zero_image_int g data_im i)
        (map (\<lambda>(c, h, w). data_col (slot_int g h w c))
          (filter (\<lambda>(c, h, w). in_image_int g h w c \<and> image_offset_int g h w c = i) (triples_int g)))" for i
    using fold_accum_order [where p = ?p and k = ?k and v = ?v and ts = "triples_int g"
        and ?f0.0 = "zero_image_int g data_im" and i = i]
    by (simp only: p)
  with e show ?thesis by blast
qed

lemma sums_in_order_int:
  fixes data_col :: "('a::{zero,plus}) buffer"
  assumes "geometry_ok g"
    and "0 \<le> ch" "ch < channels g" "0 \<le> r" "r < height g" "0 \<le> q" "q < width g"
  shows "\<exists>out. col2im_cpu_int data_col g data_im = Inr out \<and>
     out (spec_image_index g ch r q) =
       foldl (+) 0 (map (\<lambda>(c, h, w). data_col (slot_int g h w c))
         (filter (\<lambda>(c, h, w). spec_c_im g c = ch \<and> spec_h_pad g h c = r \<and>
             spec_w_pad g w c = q) (triples_int g))) \<and>
     (\<forall>i. i \<notin> {0..<channels g * height g * width g} \<longrightarrow> out i = data_im i)"
proof -
  from assms(1) have s: "stride_h g \<noteq> 0" "stride_w g \<noteq> 0" by (simp_all add: geometry_ok_def)
  from col2im_cpu_int_in_order [OF s, of data_col data_im]
  obtain out where o: "col2im_cpu_int data_col g data_im = Inr out"
    and v: "\<And>i. out i = foldl (+) (zero_image_int g data_im i)
        (map (\<lambda>(c, h, w). data_col (slot_int g h w c))
          (filter (\<lambda>(c, h, w). in_image_int g h w c \<and> image_offset_int g h w c = i) (triples_int g)))"
    by blast
  have z: "zero_image_int g data_im (spec_image_index g ch r q) = 0"
    using image_index_bounds [OF assms(2-7)] by (simp add: zero_image_int_apply)
  have 1: "out (spec_image_index g ch r q) =
       foldl (+) 0 (map (\<lambda>(c, h, w). data_col (slot_int g h w c))
         (filter (\<lambda>(c, h, w). spec_c_im g c = ch \<and> spec_h_pad g h c = r \<and>
             spec_w_pad g w c = q) (triples_int g)))"
    by (simp only: v z contributors_list [OF assms(1,4-7)])
  have 2: "out i = data_im i" if "i \<notin> {0..<channels g * height g * width g}" for i
  proof -
    have "\<not> (in_image_int g h w c \<and> image_offset_int g h w c = i)"
      if "(c, h, w) \<in> set (triples_int g)" for c h w
    proof
      assume a: "in_image_int g h w c \<and> image_offset_int g h w c = i"
      from that have c: "0 \<le> c" "c < channels_col_int g" by (simp_all add: set_triples)
      from a position_agrees [OF assms(1) c(1)]
      have b: "0 \<le> spec_h_pad g h c" "spec_h_pad g h c < height g"
        "0 \<le> spec_w_pad g w c" "spec_w_pad g w c < width g"
        and e: "spec_image_index g (spec_c_im g c) (spec_h_pad g h c) (spec_w_pad g w c) = i"
        by (simp_all add: spec_in_bounds_def)
      from spec_c_im_bounds [OF assms(1) c]
      have "0 \<le> spec_c_im g c" "spec_c_im g c < channels g" by simp_all
      from image_index_bounds [OF this b] e \<open>i \<notin> {0..<channels g * height g * width g}\<close>
      show False by (simp add: algebra_simps)
    qed
    then have "filter (\<lambda>(c, h, w). in_image_int g h w c \<and> image_offset_int g h w c = i) (triples_int g) = []"
      by (auto simp: filter_empty_conv)
    moreover from that have "zero_image_int g data_im i = data_im i"
      by (auto simp: zero_image_int_apply algebra_simps)
    ultimately show ?thesis by (simp add: v)
  qed
  from o 1 2 show ?thesis by blast
qed

lemma uncovered_zero_int:
  fixes data_col :: "('a::{zero,plus}) buffer"
  assumes "geometry_ok g"
    and "0 \<le> ch" "ch < channels g" "0 \<le> r" "r < height g" "0 \<le> q" "q < width g"
    and "spec_contributors g ch r q = {}"
  shows "\<exists>out. col2im_cpu_int data_col g data_im = Inr out \<and>
     out (spec_image_index g ch r q) = 0"
proof -
  from assms(8) have "set (filter (\<lambda>(c, h, w). spec_c_im g c = ch \<and> spec_h_pad g h c = r \<and>
             spec_w_pad g w c = q) (triples_int g)) = {}"
    by (simp only: contributors_set)
  then have "filter (\<lambda>(c, h, w). spec_c_im g c = ch \<and> spec_h_pad g h c = r \<and>
             spec_w_pad g w c = q) (triples_int g) = []"
    by (simp only: set_empty)
  with sums_in_order_int [OF assms(1-7), of data_col data_im] show ?thesis by auto
qed

subsection \<open>Calls that return\<close>

lemma triples32_empty:
  "sint hc \<le> 0 \<or> sint wc \<le> 0 \<Longrightarrow> triples32 cc hc wc = []"
  by (auto simp: triples32_def product_Nil_right)

lemma image_size32:
  fixes g :: "cint geometry"
  assumes "in32 (sint (channels g) * sint (height g) * sint (width g))"
  shows "sint (height g * width g * channels g) =
     sint (channels g) * sint (height g) * sint (width g)"
proof -
  have "height g * width g * channels g =
      (word_of_int (sint (channels g) * sint (height g) * sint (width g)) :: cint)"
    by simp
  with assms show ?thesis by (simp only: sint_of_int32)
qed


lemma derived_size_value:
  assumes "(case checked_div a b of Inl e \<Rightarrow> Inl e | Inr q \<Rightarrow> Inr (q + 1)) = Inr n"
    and "in32 (c_div (sint a) (sint b) + 1)"
  shows "sint n = c_div (sint a) (sint b) + 1"
proof -
  from assms(1) obtain q where q: "checked_div a b = Inr q" and n: "n = q + 1"
    by (cases "checked_div a b") auto
  from q have "q = word_of_int (c_div (sint a) (sint b))"
    by (auto simp: checked_div_def quot32_def split: if_splits)
  with n have "n = word_of_int (c_div (sint a) (sint b) + 1)" by simp
  with assms(2) show ?thesis by (simp only: sint_of_int32)
qed

subsection \<open>The functions at the concrete geometries\<close>

lemmas run_simps = for_loop.simps Let_def checked_div_def quot32_def rem32_def c_rem_def
  c_div_def to_c_def height_col_def width_col_def channels_col_def

lemma wrapped_padding_run:
  "height_col (to_c wrapped_padding) = Inr 0"
  "width_col (to_c wrapped_padding) = Inr 3"
  "im2col_stores data_im (to_c wrapped_padding) = Inr []"
  "im2col_cpu data_im (to_c wrapped_padding) data_col = Inr data_col"
  unfolding im2col_cpu_def im2col_stores_def im2col_with_def
  by (simp_all add: run_simps wrapped_padding_def)

lemma wrapped_rows_run:
  "height_col (to_c wrapped_rows) = Inr 0"
  "width_col (to_c wrapped_rows) = Inr 2"
  "col2im_cpu data_col (to_c wrapped_rows) data_im = Inr (zero_image (to_c wrapped_rows) data_im)"
  unfolding col2im_cpu_def
  by (simp_all add: run_simps wrapped_rows_def)

lemma wrapped_rows_zero:
  "zero_image (to_c wrapped_rows) data_im 1 = 0"
  by (simp add: zero_image_apply to_c_def wrapped_rows_def)

lemma wrapped_channels_run:
  "height_col (to_c wrapped_channels) = Inr 1"
  "width_col (to_c wrapped_channels) = Inr 1"
  "channels_col (to_c wrapped_channels) = 0"
  "im2col_cpu data_im (to_c wrapped_channels) data_col = Inr data_col"
  "col2im_cpu patches (to_c wrapped_channels) img = Inr img"
  unfolding im2col_cpu_def im2col_with_def col2im_cpu_def zero_image_def
  by (simp_all add: run_simps wrapped_channels_def)

lemma wrapped_kernel_run:
  "height_col (to_c wrapped_kernel) = Inr 1"
  "width_col (to_c wrapped_kernel) = Inr 1"
  "channels_col (to_c wrapped_kernel) = 0"
  "im2col_cpu data_im (to_c wrapped_kernel) data_col = Inr data_col"
  "col2im_cpu patches (to_c wrapped_kernel) img = Inr (img(0 := 0))"
  unfolding im2col_cpu_def im2col_with_def col2im_cpu_def zero_image_def
  by (simp_all add: run_simps wrapped_kernel_def)

lemma wrapped_image_run:
  "height_col (to_c wrapped_image) = Inr 1"
  "width_col (to_c wrapped_image) = Inr 2"
  "\<exists>out. col2im_cpu patches (to_c wrapped_image) img = Inr out \<and> out 1 = img 1"
  unfolding col2im_cpu_def zero_image_def
  by (simp_all add: run_simps wrapped_image_def)

lemma wrapped_degenerate_run:
  "height_col (to_c wrapped_degenerate) = Inr (- 3)"
  "width_col (to_c wrapped_degenerate) = Inr 1073741824"
  "im2col_cpu data_im (to_c wrapped_degenerate) data_col = Inr data_col"
  "col2im_cpu patches (to_c wrapped_degenerate) img = Inr img"
  unfolding im2col_cpu_def im2col_with_def col2im_cpu_def zero_image_def
  by (simp_all add: run_simps wrapped_degenerate_def)

lemma trapping_run:
  "height_col (to_c trapping) = Inl DivisionOverflow"
  "im2col_cpu data_im (to_c trapping) data_col = Inl DivisionOverflow"
  "col2im_cpu patches (to_c trapping) img = Inl DivisionOverflow"
  unfolding im2col_cpu_def im2col_with_def col2im_cpu_def
  by (simp_all add: run_simps trapping_def)

lemma scenario_in_range: "representable scenario" "fits scenario"
  by (simp_all add: representable_def fits_def in32_def scenario_sizes scenario_fields)

lemma padded_in_range: "representable padded_example" "fits padded_example"
  by (simp_all add: representable_def fits_def in32_def padded_sizes padded_fields)

lemma tiled_in_range: "representable tiled_example" "fits tiled_example"
  by (simp_all add: representable_def fits_def in32_def tiled_sizes tiled_fields)

lemma sparse_in_range: "representable sparse_example" "fits sparse_example"
  by (simp_all add: representable_def fits_def in32_def sparse_sizes sparse_fields)

lemma scenario_derived:
  "height_col (to_c scenario) = Inr 2" "width_col (to_c scenario) = Inr 2"
  "channels_col (to_c scenario) = 9"
  "sint (channels (to_c scenario)) = 1" "sint (height (to_c scenario)) = 4"
  "sint (width (to_c scenario)) = 4"
  by (simp_all add: run_simps scenario_def)

lemma degenerate_derived:
  "height_col (to_c degenerate_example) = Inr (- 2)"
  "width_col (to_c degenerate_example) = Inr (- 2)"
  "sint (channels (to_c degenerate_example)) = 1" "sint (height (to_c degenerate_example)) = 2"
  "sint (width (to_c degenerate_example)) = 2"
  by (simp_all add: run_simps degenerate_example_def)

lemma scenario_contributors_list:
  "filter (\<lambda>(c, h, w). spec_c_im scenario c = 0 \<and> spec_h_pad scenario h c = 1 \<and>
      spec_w_pad scenario w c = 1) (triples_int scenario) = [(0, 1, 1), (1, 1, 0), (3, 0, 1), (4, 0, 0)]"
  unfolding triples_int_def scenario_sizes
  by (simp add: upto.simps spec_c_im_def spec_h_pad_def spec_w_pad_def spec_h_offset_def
      spec_w_offset_def scenario_fields)

lemma wrapped_padding_sizes:
  "height_col_int wrapped_padding = 2" "width_col_int wrapped_padding = 3"
  "channels_col_int wrapped_padding = 1"
  by (simp_all add: wrapped_padding_def height_col_int_def width_col_int_def channels_col_int_def c_div_def)

lemma wrapped_padding_fields:
  "channels wrapped_padding = 1" "height wrapped_padding = 2" "width wrapped_padding = 3"
  "kernel_h wrapped_padding = 1" "kernel_w wrapped_padding = 1"
  "pad_h wrapped_padding = 1073741824" "pad_w wrapped_padding = 0"
  "stride_h wrapped_padding = 2147483647" "stride_w wrapped_padding = 1"
  by (simp_all add: wrapped_padding_def)

lemma wrapped_rows_sizes:
  "height_col_int wrapped_rows = 3" "width_col_int wrapped_rows = 2" "channels_col_int wrapped_rows = 6"
  by (simp_all add: wrapped_rows_def height_col_int_def width_col_int_def channels_col_int_def c_div_def)

lemma wrapped_rows_fields:
  "channels wrapped_rows = 1" "height wrapped_rows = 4" "width wrapped_rows = 3"
  "kernel_h wrapped_rows = 3" "kernel_w wrapped_rows = 2"
  "pad_h wrapped_rows = 1073741824" "pad_w wrapped_rows = 0"
  "stride_h wrapped_rows = 1073741824" "stride_w wrapped_rows = 1"
  by (simp_all add: wrapped_rows_def)

lemma wrapped_rows_contributors_list:
  "filter (\<lambda>(c, h, w). spec_c_im wrapped_rows c = 0 \<and> spec_h_pad wrapped_rows h c = 0 \<and>
      spec_w_pad wrapped_rows w c = 1) (triples_int wrapped_rows) = [(0, 1, 1), (1, 1, 0)]"
  unfolding triples_int_def wrapped_rows_sizes
  by (simp add: upto.simps spec_c_im_def spec_h_pad_def spec_w_pad_def spec_h_offset_def
      spec_w_offset_def wrapped_rows_fields)

lemma wrapped_rows_contributors:
  "spec_contributors wrapped_rows 0 0 1 = {(0, 1, 1), (1, 1, 0)}"
  unfolding contributors_set [symmetric] wrapped_rows_contributors_list by simp

lemma wrapped_channels_sizes:
  "height_col_int wrapped_channels = 1" "width_col_int wrapped_channels = 1"
  "channels_col_int wrapped_channels = 4294967296"
  by (simp_all add: wrapped_channels_def height_col_int_def width_col_int_def channels_col_int_def c_div_def)

lemma wrapped_channels_fields:
  "channels wrapped_channels = 1073741824" "height wrapped_channels = 2"
  "width wrapped_channels = 2" "kernel_h wrapped_channels = 2" "kernel_w wrapped_channels = 2"
  "pad_h wrapped_channels = 0" "pad_w wrapped_channels = 0"
  "stride_h wrapped_channels = 2" "stride_w wrapped_channels = 2"
  by (simp_all add: wrapped_channels_def)

lemma wrapped_kernel_sizes:
  "height_col_int wrapped_kernel = 1" "width_col_int wrapped_kernel = 1"
  "channels_col_int wrapped_kernel = 4294967296"
  by (simp_all add: wrapped_kernel_def height_col_int_def width_col_int_def channels_col_int_def c_div_def)

lemma wrapped_kernel_fields:
  "channels wrapped_kernel = 1" "height wrapped_kernel = 1"
  "width wrapped_kernel = 1" "kernel_h wrapped_kernel = 65536" "kernel_w wrapped_kernel = 65536"
  "pad_h wrapped_kernel = 0" "pad_w wrapped_kernel = 0"
  "stride_h wrapped_kernel = 65536" "stride_w wrapped_kernel = 65536"
  by (simp_all add: wrapped_kernel_def)

lemma wrapped_image_sizes:
  "height_col_int wrapped_image = 1" "width_col_int wrapped_image = 2" "channels_col_int wrapped_image = 2"
  by (simp_all add: wrapped_image_def height_col_int_def width_col_int_def channels_col_int_def c_div_def)

lemma wrapped_image_fields:
  "channels wrapped_image = 2" "height wrapped_image = 1" "width wrapped_image = 1073741824"
  "kernel_h wrapped_image = 1" "kernel_w wrapped_image = 1"
  "pad_h wrapped_image = 0" "pad_w wrapped_image = 0"
  "stride_h wrapped_image = 1" "stride_w wrapped_image = 1073741823"
  by (simp_all add: wrapped_image_def)

lemma wrapped_image_uncovered: "spec_contributors wrapped_image 0 0 1 = {}"
  unfolding contributors_set [symmetric] triples_int_def wrapped_image_sizes
  by (simp add: upto.simps spec_c_im_def spec_h_pad_def spec_w_pad_def spec_h_offset_def
      spec_w_offset_def wrapped_image_fields)

lemma wrapped_degenerate_sizes:
  "height_col_int wrapped_degenerate = - 3" "width_col_int wrapped_degenerate = 1073741824"
  "channels_col_int wrapped_degenerate = 10"
  by (simp_all add: wrapped_degenerate_def height_col_int_def width_col_int_def channels_col_int_def c_div_def)

lemma wrapped_degenerate_fields:
  "channels wrapped_degenerate = 2" "height wrapped_degenerate = 1"
  "width wrapped_degenerate = 1073741824"
  "kernel_h wrapped_degenerate = 5" "kernel_w wrapped_degenerate = 1"
  "pad_h wrapped_degenerate = 0" "pad_w wrapped_degenerate = 0"
  "stride_h wrapped_degenerate = 1" "stride_w wrapped_degenerate = 1"
  by (simp_all add: wrapped_degenerate_def)

lemma trapping_fields:
  "channels trapping = 1" "height trapping = 1" "width trapping = 1"
  "kernel_h trapping = 1" "kernel_w trapping = 5"
  "pad_h trapping = - 1073741824" "pad_w trapping = 0"
  "stride_h trapping = - 1" "stride_w trapping = 1"
  by (simp_all add: trapping_def)

lemma wrapped_not_fits:
  "\<not> fits wrapped_padding" "\<not> fits wrapped_rows" "\<not> fits wrapped_channels"
  "\<not> fits wrapped_kernel" "\<not> fits wrapped_image"
  by (simp_all add: fits_def in32_def wrapped_padding_sizes wrapped_padding_fields
      wrapped_rows_sizes wrapped_rows_fields wrapped_channels_sizes wrapped_channels_fields
      wrapped_kernel_sizes wrapped_kernel_fields wrapped_image_sizes wrapped_image_fields)

lemma wrapped_representable:
  "representable wrapped_padding" "representable wrapped_rows" "representable wrapped_channels"
  "representable wrapped_kernel" "representable wrapped_image" "representable wrapped_degenerate"
  "representable trapping"
  by (simp_all add: representable_def in32_def wrapped_padding_fields
      wrapped_rows_fields wrapped_channels_fields
      wrapped_kernel_fields wrapped_image_fields wrapped_degenerate_fields trapping_fields)

lemma wrapped_ok:
  "geometry_ok wrapped_padding" "geometry_ok wrapped_rows" "geometry_ok wrapped_channels"
  "geometry_ok wrapped_kernel" "geometry_ok wrapped_image" "geometry_ok wrapped_degenerate"
  by (simp_all add: geometry_ok_def wrapped_padding_fields
      wrapped_rows_fields wrapped_channels_fields
      wrapped_kernel_fields wrapped_image_fields wrapped_degenerate_fields)

lemma wrapped_products:
  "sint (height (to_c wrapped_image) * width (to_c wrapped_image) * channels (to_c wrapped_image)) =
     - 2147483648"
  "\<not> in32 (sint (channels (to_c wrapped_image)) * sint (height (to_c wrapped_image)) *
     sint (width (to_c wrapped_image)))"
  "\<not> in32 (sint (channels (to_c wrapped_degenerate)) * sint (height (to_c wrapped_degenerate)) *
     sint (width (to_c wrapped_degenerate)))"
  by (simp_all add: to_c_def wrapped_image_def wrapped_degenerate_def
      in32_def)

section \<open>The claims\<close>

text \<open>
  In the statements below \<open>g\<close> is the geometry as nine integers and \<open>to_c g\<close> is what
  the function receives. The claims speak of the derived sizes, the slots and the
  patch triples as integers: these are \<open>height_col_int\<close>, \<open>width_col_int\<close>,
  \<open>channels_col_int\<close>, the slot expression written out, and \<open>triples_int\<close>, and the
  texts call them by the claims' names. \<open>height_col\<close>, \<open>width_col\<close> and
  \<open>channels_col\<close> are what lines 9 to 11 compute. Where a claim fails because an
  \<open>int\<close> expression wraps, the theorem carries the hypotheses \<open>representable g\<close>
  and \<open>fits g\<close>, and a second theorem gives an input at which the claim as written is
  false.
\<close>

subsection \<open>Unfold: the value of every slot\<close>

text \<open>
  C1. Let the nine parameters be values of C \<open>int\<close>s, and let the derived sizes, the
  buffer sizes and the padded coordinates fit in an \<open>int\<close> (\<open>fits\<close>). For positive
  \<open>channels\<close>, \<open>height\<close>, \<open>width\<close>, \<open>kernel_h\<close>, \<open>kernel_w\<close>, \<open>stride_h\<close>,
  \<open>stride_w\<close>, with \<open>height_col\<close> and \<open>width_col\<close> at least 1, and for every output
  position \<open>(h, w)\<close> and composite index \<open>c\<close> of the index space, \<open>im2col_cpu\<close>
  returns, and the slot \<open>channels_col * width_col * h + channels_col * w + c\<close> of its
  output holds the image value at offset \<open>(c_im * height + h_pad) * width + w_pad\<close>
  when \<open>h_pad\<close> and \<open>w_pad\<close> are inside the image, and zero otherwise. The decoding is
  the specification's: \<open>mod\<close> and floor division, the channel by one division by
  \<open>kernel_h * kernel_w\<close>. The paddings are arbitrary integers.
\<close>

theorem im2col_cpu_slot_value:
  fixes data_im :: "('a::zero) buffer"
  assumes "representable g" "fits g"
    and "geometry_ok g" "1 \<le> height_col_int g" "1 \<le> width_col_int g"
    and "0 \<le> h" "h < height_col_int g" "0 \<le> w" "w < width_col_int g"
    and "0 \<le> c" "c < channels_col_int g"
  shows "\<exists>out. im2col_cpu data_im (to_c g) data_col = Inr out \<and>
     out (channels_col_int g * width_col_int g * h + channels_col_int g * w + c) =
       (if 0 \<le> spec_h_pad g h c \<and> spec_h_pad g h c < height g \<and>
           0 \<le> spec_w_pad g w c \<and> spec_w_pad g w c < width g
        then data_im ((spec_c_im g c * height g + spec_h_pad g h c) * width g + spec_w_pad g w c)
        else 0)"
  using slot_value_int [OF assms(3-11), of data_im data_col]
  by (simp only: im2col_cpu_refines [OF assms(1,3,2)])

text \<open>
  At \<open>padded_example\<close>, output position \<open>(1, 2)\<close> and composite index 7 decode to
  channel 1, row 1, column 3: slot 79 receives the image value at offset 28.
\<close>

theorem im2col_cpu_slot_value_witness:
  "representable padded_example \<and> fits padded_example \<and>
   geometry_ok padded_example \<and> 1 \<le> height_col_int padded_example \<and> 1 \<le> width_col_int padded_example \<and>
   (0::int) \<le> 1 \<and> 1 < height_col_int padded_example \<and> (0::int) \<le> 2 \<and> 2 < width_col_int padded_example \<and>
   (0::int) \<le> 7 \<and> 7 < channels_col_int padded_example \<and>
   (\<exists>out. im2col_cpu (\<lambda>i. 100 + i) (to_c padded_example) (\<lambda>i. 0) = Inr out \<and>
      out 79 = (128::int))"
proof -
  have h: "geometry_ok padded_example" "1 \<le> height_col_int padded_example"
    "1 \<le> width_col_int padded_example"
    "(0::int) \<le> 1" "1 < height_col_int padded_example" "(0::int) \<le> 2" "2 < width_col_int padded_example"
    "(0::int) \<le> 7" "7 < channels_col_int padded_example"
    by (simp_all add: geometry_ok_def padded_sizes padded_fields)
  have e: "channels_col_int padded_example = 12" "width_col_int padded_example = 4"
    "spec_h_pad padded_example 1 7 = 1" "spec_w_pad padded_example 2 7 = 3"
    "spec_c_im padded_example 7 = 1" "height padded_example = 4" "width padded_example = 5"
    by (simp_all add: padded_sizes padded_fields
        spec_h_pad_def spec_w_pad_def spec_c_im_def spec_h_offset_def spec_w_offset_def)
  from im2col_cpu_slot_value [OF padded_in_range h, of "\<lambda>i. 100 + i" "\<lambda>i. 0"] h padded_in_range
  show ?thesis
    unfolding e by simp
qed

text \<open>
  Without \<open>fits\<close> the statement of C1 is false. At \<open>wrapped_padding\<close> every parameter
  is a positive \<open>int\<close> (\<open>pad_w\<close> is 0), the derived sizes are 2, 3 and 1, and output
  position \<open>(0, 0)\<close> with composite index 0 decodes to row \<open>-2^30\<close>, outside the
  image: slot 0 should receive zero. But \<open>2 * pad_h\<close> wraps, line 9 computes
  \<open>height_col = 0\<close>, and the function executes no store: slot 0 keeps its prior
  value 7.
\<close>

theorem im2col_cpu_slot_value_wraps:
  "representable wrapped_padding \<and> \<not> fits wrapped_padding \<and>
   geometry_ok wrapped_padding \<and> 1 \<le> height_col_int wrapped_padding \<and>
   1 \<le> width_col_int wrapped_padding \<and>
   (0::int) \<le> 0 \<and> 0 < height_col_int wrapped_padding \<and> 0 < width_col_int wrapped_padding \<and>
   0 < channels_col_int wrapped_padding \<and>
   height_col_int wrapped_padding = 2 \<and> height_col (to_c wrapped_padding) = Inr 0 \<and>
   im2col_stores (\<lambda>i. 1 :: int) (to_c wrapped_padding) = Inr [] \<and>
   im2col_cpu (\<lambda>i. 1 :: int) (to_c wrapped_padding) (\<lambda>k. 7) = Inr (\<lambda>k. 7) \<and>
   \<not> (\<exists>out. im2col_cpu (\<lambda>i. 1 :: int) (to_c wrapped_padding) (\<lambda>k. 7) = Inr out \<and>
     out (channels_col_int wrapped_padding * width_col_int wrapped_padding * 0 +
          channels_col_int wrapped_padding * 0 + 0) =
       (if 0 \<le> spec_h_pad wrapped_padding 0 0 \<and>
           spec_h_pad wrapped_padding 0 0 < height wrapped_padding \<and>
           0 \<le> spec_w_pad wrapped_padding 0 0 \<and>
           spec_w_pad wrapped_padding 0 0 < width wrapped_padding
        then 1 else 0))"
  by (simp add: wrapped_representable wrapped_not_fits wrapped_ok wrapped_padding_sizes
      wrapped_padding_run wrapped_padding_fields spec_h_pad_def spec_h_offset_def)

subsection \<open>Fold: every image location is the sum of its contributions\<close>

text \<open>
  C2. Let the nine parameters be values of C \<open>int\<close>s and let \<open>fits\<close> hold. For a
  geometry with positive parameters and \<open>height_col\<close>, \<open>width_col\<close> at least 1, the
  loop of line 36 sets all \<open>channels * height * width\<close> elements of the image buffer
  to zero, \<open>col2im_cpu\<close> returns, and its value at channel \<open>ch\<close>, row \<open>r\<close>, column
  \<open>q\<close> is the sum, over the patch triples \<open>(c, h, w)\<close> of the index space whose
  decoded coordinates are exactly \<open>(ch, r, q)\<close>, of the patch-matrix value at slot
  \<open>channels_col * width_col * h + channels_col * w + c\<close>. The sum starts from zero and
  adds the values in the order in which the loops visit the triples (\<open>triples_int\<close>
  lists each triple of the index space once), so the statement holds for every
  scalar type with \<open>0\<close> and \<open>+\<close>, floating point included. Triples that decode
  outside the image are in no such sum, and they are added nowhere else: outside the
  \<open>channels * height * width\<close> elements the buffer keeps its prior contents.
\<close>

theorem col2im_cpu_sums_contributions:
  fixes data_col :: "('a::{zero,plus}) buffer"
  assumes "representable g" "fits g"
    and "geometry_ok g" "1 \<le> height_col_int g" "1 \<le> width_col_int g"
    and "0 \<le> ch" "ch < channels g" "0 \<le> r" "r < height g" "0 \<le> q" "q < width g"
  shows "(\<forall>i\<in>{0..<channels g * height g * width g}. zero_image (to_c g) data_im i = 0) \<and>
     distinct (triples_int g) \<and>
     set (triples_int g) = {0..<channels_col_int g} \<times> {0..<height_col_int g} \<times> {0..<width_col_int g} \<and>
     (\<exists>out. col2im_cpu data_col (to_c g) data_im = Inr out \<and>
        out ((ch * height g + r) * width g + q) =
          foldl (+) 0
            (map (\<lambda>(c, h, w). data_col (channels_col_int g * width_col_int g * h + channels_col_int g * w + c))
               (filter (\<lambda>(c, h, w). spec_c_im g c = ch \<and> spec_h_pad g h c = r \<and>
                  spec_w_pad g w c = q) (triples_int g))) \<and>
        (\<forall>i. i \<notin> {0..<channels g * height g * width g} \<longrightarrow> out i = data_im i))"
proof -
  have 1: "\<forall>i\<in>{0..<channels g * height g * width g}. zero_image (to_c g) data_im i = 0"
    by (simp add: zero_image_refines [OF assms(2)] zero_image_int_apply algebra_simps)
  from sums_in_order_int [OF assms(3,6-11), of data_col data_im]
  have 2: "\<exists>out. col2im_cpu data_col (to_c g) data_im = Inr out \<and>
        out ((ch * height g + r) * width g + q) =
          foldl (+) 0
            (map (\<lambda>(c, h, w). data_col (channels_col_int g * width_col_int g * h + channels_col_int g * w + c))
               (filter (\<lambda>(c, h, w). spec_c_im g c = ch \<and> spec_h_pad g h c = r \<and>
                  spec_w_pad g w c = q) (triples_int g))) \<and>
        (\<forall>i. i \<notin> {0..<channels g * height g * width g} \<longrightarrow> out i = data_im i)"
    by (simp only: col2im_cpu_refines [OF assms(1,3,2)] spec_image_index_def slot_int_def)
  from 1 2 show ?thesis by (simp only: distinct_triples set_triples simp_thms)
qed

text \<open>
  At the scenario geometry with the patch matrix \<open>data_col k = k\<close>, row 1, column 1 has
  the four contributors at slots 27, 19, 12 and 4, hence the value 62.
\<close>

theorem col2im_cpu_sums_contributions_witness:
  "representable scenario \<and> fits scenario \<and>
   geometry_ok scenario \<and> 1 \<le> height_col_int scenario \<and> 1 \<le> width_col_int scenario \<and>
   (0::int) \<le> 0 \<and> 0 < channels scenario \<and> (0::int) \<le> 1 \<and> 1 < height scenario \<and>
   (0::int) \<le> 1 \<and> 1 < width scenario \<and>
   (\<exists>out. col2im_cpu (\<lambda>k. k) (to_c scenario) (\<lambda>i. 9) = Inr out \<and> out 5 = (62::int) \<and>
      out 16 = 9)"
proof -
  have h: "geometry_ok scenario" "1 \<le> height_col_int scenario" "1 \<le> width_col_int scenario"
    "(0::int) \<le> 0" "0 < channels scenario" "(0::int) \<le> 1" "1 < height scenario"
    "(0::int) \<le> 1" "1 < width scenario"
    by (simp_all add: scenario_ok scenario_sizes scenario_fields)
  from col2im_cpu_sums_contributions [OF scenario_in_range h, of "\<lambda>i. 9" "\<lambda>k. k"]
  obtain out where o: "col2im_cpu (\<lambda>k. k) (to_c scenario) (\<lambda>i. 9) = Inr out"
    and v: "out ((0 * height scenario + 1) * width scenario + 1) =
          foldl (+) 0
            (map (\<lambda>(c, h, w). channels_col_int scenario * width_col_int scenario * h +
                  channels_col_int scenario * w + c)
               (filter (\<lambda>(c, h, w). spec_c_im scenario c = 0 \<and> spec_h_pad scenario h c = 1 \<and>
                  spec_w_pad scenario w c = 1) (triples_int scenario)))"
    and f: "\<forall>i. i \<notin> {0..<channels scenario * height scenario * width scenario} \<longrightarrow> out i = 9"
    by blast
  from v have "out 5 = 62"
    unfolding scenario_contributors_list by (simp add: scenario_sizes scenario_fields)
  moreover from f have "out 16 = 9" by (simp add: scenario_fields)
  ultimately show ?thesis using h o scenario_in_range by blast
qed

text \<open>
  Without \<open>fits\<close> the statement of C2 is false. At \<open>wrapped_rows\<close> the derived sizes
  are 3, 2 and 6, and row 0, column 1 is the decoded target of the triples
  \<open>(0, 1, 1)\<close> and \<open>(1, 1, 0)\<close>, at slots 18 and 13: with the patch matrix
  \<open>data_col k = k\<close> the sum is 31. But \<open>2 * pad_h\<close> wraps, line 37 computes
  \<open>height_col = 0\<close>, nothing is added, and offset 1 holds 0.
\<close>

theorem col2im_cpu_sums_contributions_wraps:
  "representable wrapped_rows \<and> \<not> fits wrapped_rows \<and>
   geometry_ok wrapped_rows \<and> 1 \<le> height_col_int wrapped_rows \<and> 1 \<le> width_col_int wrapped_rows \<and>
   (0::int) \<le> 0 \<and> 0 < channels wrapped_rows \<and> 0 < height wrapped_rows \<and>
   (0::int) \<le> 1 \<and> 1 < width wrapped_rows \<and>
   height_col_int wrapped_rows = 3 \<and> height_col (to_c wrapped_rows) = Inr 0 \<and>
   filter (\<lambda>(c, h, w). spec_c_im wrapped_rows c = 0 \<and> spec_h_pad wrapped_rows h c = 0 \<and>
      spec_w_pad wrapped_rows w c = 1) (triples_int wrapped_rows) = [(0, 1, 1), (1, 1, 0)] \<and>
   value_at (col2im_cpu (\<lambda>k. k) (to_c wrapped_rows) (\<lambda>i. 9)) 1 = Some 0 \<and>
   \<not> (\<exists>out. col2im_cpu (\<lambda>k. k) (to_c wrapped_rows) (\<lambda>i. 9) = Inr out \<and>
        out ((0 * height wrapped_rows + 0) * width wrapped_rows + 1) =
          foldl (+) 0
            (map (\<lambda>(c, h, w). channels_col_int wrapped_rows * width_col_int wrapped_rows * h +
                   channels_col_int wrapped_rows * w + c)
               (filter (\<lambda>(c, h, w). spec_c_im wrapped_rows c = 0 \<and>
                  spec_h_pad wrapped_rows h c = 0 \<and> spec_w_pad wrapped_rows w c = 1)
                  (triples_int wrapped_rows))))"
  unfolding wrapped_rows_contributors_list
  by (simp add: wrapped_representable wrapped_not_fits wrapped_ok wrapped_rows_sizes
      wrapped_rows_run wrapped_rows_zero wrapped_rows_fields value_at_def)

subsection \<open>Fold after Unfold on tiling patches\<close>

text \<open>
  C3. Let the nine parameters be values of C \<open>int\<close>s and let \<open>fits\<close> hold. For a
  geometry with positive parameters, no padding, strides at least the kernel sizes,
  \<open>height_col\<close> and \<open>width_col\<close> at least 1, and every image row and every image
  column contained in exactly one patch, \<open>col2im_cpu\<close> applied to the output of
  \<open>im2col_cpu\<close> gives back the image, element by element, over a commutative monoid
  (an exact scalar type). The prior contents of both output buffers are arbitrary.
\<close>

theorem fold_unfold_roundtrip:
  fixes data_im :: "('a::comm_monoid_add) buffer"
  assumes "representable g" "fits g"
    and "geometry_ok g" "pad_h g = 0" "pad_w g = 0"
    and "kernel_h g \<le> stride_h g" "kernel_w g \<le> stride_w g"
    and "1 \<le> height_col_int g" "1 \<le> width_col_int g"
    and rows: "\<forall>r\<in>{0..<height g}. length (patches_over_row g r) = 1"
    and cols: "\<forall>q\<in>{0..<width g}. length (patches_over_col g q) = 1"
  shows "\<exists>patches out.
     im2col_cpu data_im (to_c g) data_col = Inr patches \<and>
     col2im_cpu patches (to_c g) img = Inr out \<and>
     (\<forall>i\<in>{0..<channels g * height g * width g}. out i = data_im i)"
  using roundtrip_int [OF assms(3-11), of data_im data_col img]
  by (simp only: im2col_cpu_refines [OF assms(1,3,2)] col2im_cpu_refines [OF assms(1,3,2)])

text \<open>At \<open>tiled_example\<close> the 48 elements of the image \<open>3 * i + 1\<close> come back.\<close>

theorem fold_unfold_roundtrip_witness:
  "representable tiled_example \<and> fits tiled_example \<and>
   geometry_ok tiled_example \<and> pad_h tiled_example = 0 \<and> pad_w tiled_example = 0 \<and>
   kernel_h tiled_example \<le> stride_h tiled_example \<and>
   kernel_w tiled_example \<le> stride_w tiled_example \<and>
   1 \<le> height_col_int tiled_example \<and> 1 \<le> width_col_int tiled_example \<and>
   map (\<lambda>r. length (patches_over_row tiled_example r)) [0..3] = [1, 1, 1, 1] \<and>
   map (\<lambda>q. length (patches_over_col tiled_example q)) [0..5] = [1, 1, 1, 1, 1, 1] \<and>
   (\<exists>patches out.
     im2col_cpu (\<lambda>i. 3 * i + 1) (to_c tiled_example) (\<lambda>k. 7) = Inr patches \<and>
     col2im_cpu patches (to_c tiled_example) (\<lambda>i. 8) = Inr out \<and>
     map out [0..47] = map (\<lambda>i. 3 * i + 1 :: int) [0..47])"
proof -
  have h: "geometry_ok tiled_example" "pad_h tiled_example = 0" "pad_w tiled_example = 0"
    "kernel_h tiled_example \<le> stride_h tiled_example"
    "kernel_w tiled_example \<le> stride_w tiled_example"
    "1 \<le> height_col_int tiled_example" "1 \<le> width_col_int tiled_example"
    by (simp_all add: geometry_ok_def tiled_sizes tiled_fields)
  have r: "\<forall>r\<in>{0..<height tiled_example}. length (patches_over_row tiled_example r) = 1"
    by (simp add: patches_over_row_def tiled_sizes tiled_fields ball_int_range upto.simps)
  have q: "\<forall>q\<in>{0..<width tiled_example}. length (patches_over_col tiled_example q) = 1"
    by (simp add: patches_over_col_def tiled_sizes tiled_fields ball_int_range upto.simps)
  have r': "map (\<lambda>r. length (patches_over_row tiled_example r)) [0..3] = [1, 1, 1, 1]"
    by (simp add: patches_over_row_def tiled_sizes tiled_fields upto.simps)
  have q': "map (\<lambda>q. length (patches_over_col tiled_example q)) [0..5] = [1, 1, 1, 1, 1, 1]"
    by (simp add: patches_over_col_def tiled_sizes tiled_fields upto.simps)
  from fold_unfold_roundtrip [OF tiled_in_range h r q, of "\<lambda>i. 3 * i + 1" "\<lambda>k. 7" "\<lambda>i. 8"]
  obtain patches out where
    "im2col_cpu (\<lambda>i. 3 * i + 1 :: int) (to_c tiled_example) (\<lambda>k. 7) = Inr patches"
    "col2im_cpu patches (to_c tiled_example) (\<lambda>i. 8) = Inr out"
    "\<forall>i\<in>{0..<48}. out i = 3 * i + 1"
    by (auto simp: tiled_fields)
  moreover from this(3) have "map out [0..47] = map (\<lambda>i. 3 * i + 1) [0..47]"
    using ball_range_map [of 0 48 out "\<lambda>i. 3 * i + 1"] by simp
  ultimately show ?thesis using h r' q' tiled_in_range by blast
qed

text \<open>
  Without \<open>fits\<close> the statement of C3 is false. At \<open>wrapped_channels\<close> the patches
  tile the image, but \<open>channels * kernel_h * kernel_w\<close> is \<open>2^32\<close> and wraps to 0:
  \<open>im2col_cpu\<close> stores nothing, \<open>col2im_cpu\<close> adds nothing, and, its zeroing loop
  having a wrapped bound as well, leaves the prior value 9 where the image holds 1.
  At \<open>wrapped_kernel\<close> only \<open>channels_col\<close> wraps: the round trip of the one-element
  image 5 gives 0.
\<close>

theorem fold_unfold_roundtrip_wraps:
  "representable wrapped_channels \<and> \<not> fits wrapped_channels \<and>
   geometry_ok wrapped_channels \<and> pad_h wrapped_channels = 0 \<and> pad_w wrapped_channels = 0 \<and>
   kernel_h wrapped_channels \<le> stride_h wrapped_channels \<and>
   kernel_w wrapped_channels \<le> stride_w wrapped_channels \<and>
   1 \<le> height_col_int wrapped_channels \<and> 1 \<le> width_col_int wrapped_channels \<and>
   map (\<lambda>r. length (patches_over_row wrapped_channels r)) [0..1] = [1, 1] \<and>
   map (\<lambda>q. length (patches_over_col wrapped_channels q)) [0..1] = [1, 1] \<and>
   (0::int) \<in> {0..<channels wrapped_channels * height wrapped_channels * width wrapped_channels} \<and>
   channels_col_int wrapped_channels = 4294967296 \<and>
   channels_col (to_c wrapped_channels) = 0 \<and>
   im2col_cpu (\<lambda>i. 1 :: int) (to_c wrapped_channels) (\<lambda>k. 0) = Inr (\<lambda>k. 0) \<and>
   col2im_cpu (\<lambda>k. 0 :: int) (to_c wrapped_channels) (\<lambda>i. 9) = Inr (\<lambda>i. 9) \<and>
   \<not> (\<exists>patches out.
     im2col_cpu (\<lambda>i. 1 :: int) (to_c wrapped_channels) (\<lambda>k. 0) = Inr patches \<and>
     col2im_cpu patches (to_c wrapped_channels) (\<lambda>i. 9) = Inr out \<and> out 0 = 1) \<and>
   representable wrapped_kernel \<and> \<not> fits wrapped_kernel \<and>
   geometry_ok wrapped_kernel \<and> pad_h wrapped_kernel = 0 \<and> pad_w wrapped_kernel = 0 \<and>
   kernel_h wrapped_kernel \<le> stride_h wrapped_kernel \<and>
   kernel_w wrapped_kernel \<le> stride_w wrapped_kernel \<and>
   1 \<le> height_col_int wrapped_kernel \<and> 1 \<le> width_col_int wrapped_kernel \<and>
   map (\<lambda>r. length (patches_over_row wrapped_kernel r)) [0..0] = [1] \<and>
   map (\<lambda>q. length (patches_over_col wrapped_kernel q)) [0..0] = [1] \<and>
   (0::int) \<in> {0..<channels wrapped_kernel * height wrapped_kernel * width wrapped_kernel} \<and>
   \<not> (\<exists>patches out.
     im2col_cpu (\<lambda>i. 5 :: int) (to_c wrapped_kernel) (\<lambda>k. 0) = Inr patches \<and>
     col2im_cpu patches (to_c wrapped_kernel) (\<lambda>i. 9) = Inr out \<and> out 0 = 5)"
  by (simp add: wrapped_representable wrapped_not_fits wrapped_ok wrapped_channels_sizes
      wrapped_channels_run wrapped_channels_fields wrapped_kernel_sizes
      wrapped_kernel_run wrapped_kernel_fields patches_over_row_def patches_over_col_def
      upto.simps wrapped_products)

subsection \<open>Fold of an all-ones patch matrix counts the coverage\<close>

text \<open>
  C4. Let the nine parameters be values of C \<open>int\<close>s and let \<open>fits\<close> hold. For a
  geometry with positive parameters, \<open>height_col\<close> and \<open>width_col\<close> at least 1 and a
  stride smaller than the kernel in at least one direction, \<open>col2im_cpu\<close> applied to a
  patch matrix whose \<open>height_col * width_col * channels_col\<close> elements are all one
  leaves, at every image location, the number of patch triples whose decoded
  coordinates are that location: the count, and not the constant one.
\<close>

theorem col2im_cpu_all_ones_coverage:
  fixes data_col :: "('a::semiring_1) buffer"
  assumes "representable g" "fits g"
    and "geometry_ok g" "1 \<le> height_col_int g" "1 \<le> width_col_int g"
    and "stride_h g < kernel_h g \<or> stride_w g < kernel_w g"
    and "\<forall>k\<in>{0..<height_col_int g * width_col_int g * channels_col_int g}. data_col k = 1"
    and "0 \<le> ch" "ch < channels g" "0 \<le> r" "r < height g" "0 \<le> q" "q < width g"
  shows "\<exists>out. col2im_cpu data_col (to_c g) data_im = Inr out \<and>
        out ((ch * height g + r) * width g + q) = of_nat (card (spec_contributors g ch r q))"
  using all_ones_coverage_int [OF assms(3-13), of data_im]
  by (simp only: col2im_cpu_refines [OF assms(1,3,2)])

text \<open>
  At the scenario geometry, row 1, column 1 is covered by four patch triples.
\<close>

theorem col2im_cpu_all_ones_coverage_witness:
  "representable scenario \<and> fits scenario \<and>
   geometry_ok scenario \<and> 1 \<le> height_col_int scenario \<and> 1 \<le> width_col_int scenario \<and>
   (stride_h scenario < kernel_h scenario \<or> stride_w scenario < kernel_w scenario) \<and>
   map (\<lambda>k. 1) [0..35] = replicate 36 (1 :: int) \<and>
   (0::int) \<le> 0 \<and> 0 < channels scenario \<and> (0::int) \<le> 1 \<and> 1 < height scenario \<and>
   (0::int) \<le> 1 \<and> 1 < width scenario \<and>
   (\<exists>out. col2im_cpu (\<lambda>k. 1) (to_c scenario) (\<lambda>i. 9) = Inr out \<and> out 5 = (4::int))"
proof -
  have h: "geometry_ok scenario" "1 \<le> height_col_int scenario" "1 \<le> width_col_int scenario"
    "stride_h scenario < kernel_h scenario \<or> stride_w scenario < kernel_w scenario"
    "\<forall>k\<in>{0..<height_col_int scenario * width_col_int scenario * channels_col_int scenario}. (\<lambda>k. 1::int) k = 1"
    "(0::int) \<le> 0" "0 < channels scenario" "(0::int) \<le> 1" "1 < height scenario"
    "(0::int) \<le> 1" "1 < width scenario"
    by (simp_all add: scenario_ok scenario_sizes scenario_fields)
  from col2im_cpu_all_ones_coverage [OF scenario_in_range h, of "\<lambda>i. 9"] h scenario_in_range
  show ?thesis
    by (simp add: scenario_contributors_1_1 scenario_sizes scenario_fields map_replicate_const)
qed

text \<open>
  Without \<open>fits\<close> the statement of C4 is false. At \<open>wrapped_rows\<close> (\<open>stride_w\<close> is
  smaller than \<open>kernel_w\<close>) row 0, column 1 is covered by two patch triples, but line
  37 computes \<open>height_col = 0\<close> and offset 1 holds 0.
\<close>

theorem col2im_cpu_all_ones_coverage_wraps:
  "representable wrapped_rows \<and> \<not> fits wrapped_rows \<and>
   geometry_ok wrapped_rows \<and> 1 \<le> height_col_int wrapped_rows \<and> 1 \<le> width_col_int wrapped_rows \<and>
   (stride_h wrapped_rows < kernel_h wrapped_rows \<or> stride_w wrapped_rows < kernel_w wrapped_rows) \<and>
   height_col_int wrapped_rows * width_col_int wrapped_rows * channels_col_int wrapped_rows = 36 \<and>
   map (\<lambda>k. 1) [0..35] = replicate 36 (1 :: int) \<and>
   (0::int) \<le> 0 \<and> 0 < channels wrapped_rows \<and> 0 < height wrapped_rows \<and>
   (0::int) \<le> 1 \<and> 1 < width wrapped_rows \<and>
   card (spec_contributors wrapped_rows 0 0 1) = 2 \<and>
   value_at (col2im_cpu (\<lambda>k. 1 :: int) (to_c wrapped_rows) (\<lambda>i. 9)) 1 = Some 0 \<and>
   \<not> (\<exists>out. col2im_cpu (\<lambda>k. 1 :: int) (to_c wrapped_rows) (\<lambda>i. 9) = Inr out \<and>
        out ((0 * height wrapped_rows + 0) * width wrapped_rows + 1) =
          of_nat (card (spec_contributors wrapped_rows 0 0 1)))"
  by (simp add: wrapped_representable wrapped_not_fits wrapped_ok wrapped_rows_sizes
      wrapped_rows_run wrapped_rows_zero wrapped_rows_fields value_at_def
      wrapped_rows_contributors map_replicate_const)

subsection \<open>The concrete scenario\<close>

text \<open>
  C5. In the scenario (one channel, 4 by 4 image, 3 by 3 kernel, no padding, stride 1)
  the derived sizes are \<open>height_col = width_col = 2\<close> and \<open>channels_col = 9\<close>, both
  by the integer formulas and as lines 9 to 11 compute them;
  \<open>im2col_cpu\<close> on the row-major image 1 to 16 writes 1, 2, 3, 5, 6, 7, 9, 10, 11 at the
  output offsets 0 to 8, which are output position \<open>(0, 0)\<close>; and \<open>col2im_cpu\<close> on a patch
  matrix of 36 ones produces the image 1 2 2 1, 2 4 4 2, 2 4 4 2, 1 2 2 1. Both by
  running the loops.
\<close>

theorem scenario_unfold_fold:
  fixes data_im data_col :: "int buffer"
  assumes "map data_im [0..15] = [1, 2, 3, 4, 5, 6, 7, 8, 9, 10, 11, 12, 13, 14, 15, 16]"
    and "\<forall>k\<in>{0..<36}. data_col k = 1"
  shows "height_col_int scenario = 2 \<and> width_col_int scenario = 2 \<and> channels_col_int scenario = 9 \<and>
    height_col (to_c scenario) = Inr 2 \<and> width_col (to_c scenario) = Inr 2 \<and>
    channels_col (to_c scenario) = 9 \<and>
    (\<exists>out. im2col_cpu data_im (to_c scenario) col0 = Inr out \<and>
        map out [0..8] = [1, 2, 3, 5, 6, 7, 9, 10, 11]) \<and>
    (\<exists>out. col2im_cpu data_col (to_c scenario) im0 = Inr out \<and>
        map out [0..15] = [1, 2, 2, 1, 2, 4, 4, 2, 2, 4, 4, 2, 1, 2, 2, 1])"
proof -
  from assms(1) have d: "data_im 0 = 1" "data_im 1 = 2" "data_im 2 = 3" "data_im 4 = 5"
    "data_im 5 = 6" "data_im 6 = 7" "data_im 8 = 9" "data_im 9 = 10" "data_im 10 = 11"
    unfolding upto_0_15 by simp_all
  from assms(2) have e: "\<And>k. 0 \<le> k \<Longrightarrow> k < 36 \<Longrightarrow> data_col k = 1" by simp
  have 1: "\<exists>out. im2col_cpu data_im (to_c scenario) col0 = Inr out \<and>
        map out [0..8] = [1, 2, 3, 5, 6, 7, 9, 10, 11]"
    unfolding im2col_cpu_def im2col_with_def upto_0_8
    by (simp add: run_simps scenario_def d)
  have 2: "\<exists>out. col2im_cpu data_col (to_c scenario) im0 = Inr out \<and>
        map out [0..15] = [1, 2, 2, 1, 2, 4, 4, 2, 2, 4, 4, 2, 1, 2, 2, 1]"
    unfolding col2im_cpu_def zero_image_def upto_0_15
    by (simp add: run_simps scenario_def e)
  from 1 2 show ?thesis by (simp only: scenario_sizes scenario_derived simp_thms)
qed

theorem scenario_unfold_fold_witness:
  "map (\<lambda>i. i + 1) [0..15] = [1, 2, 3, 4, 5, 6, 7, 8, 9, 10, 11, 12, 13, 14, 15, 16 :: int] \<and>
   map (\<lambda>k. 1) [0..35] = replicate 36 (1 :: int) \<and>
   height_col_int scenario = 2 \<and> width_col_int scenario = 2 \<and> channels_col_int scenario = 9 \<and>
   height_col (to_c scenario) = Inr 2 \<and> width_col (to_c scenario) = Inr 2 \<and>
   channels_col (to_c scenario) = 9 \<and>
    (\<exists>out. im2col_cpu (\<lambda>i. i + 1) (to_c scenario) (\<lambda>k. 0) = Inr out \<and>
        map out [0..8] = [1, 2, 3, 5, 6, 7, 9, 10, 11]) \<and>
    (\<exists>out. col2im_cpu (\<lambda>k. 1 :: int) (to_c scenario) (\<lambda>i. 7) = Inr out \<and>
        map out [0..15] = [1, 2, 2, 1, 2, 4, 4, 2, 2, 4, 4, 2, 1, 2, 2, 1])"
proof -
  have a: "map (\<lambda>i. i + 1) [0..15] = [1, 2, 3, 4, 5, 6, 7, 8, 9, 10, 11, 12, 13, 14, 15, 16 :: int]"
    unfolding upto_0_15 by simp
  have b: "\<forall>k\<in>{0..<36}. (\<lambda>k. 1 :: int) k = 1" by simp
  have b': "map (\<lambda>k. 1) [0..35] = replicate 36 (1 :: int)"
    by (simp add: map_replicate_const)
  from scenario_unfold_fold [OF a b, of "\<lambda>k. 0" "\<lambda>i. 7"]
  show ?thesis by (intro conjI a b') simp_all
qed

subsection \<open>Unfold of an all-ones image\<close>

text \<open>
  C6. Let the nine parameters be values of C \<open>int\<close>s and let \<open>fits\<close> hold. For a
  geometry with positive parameters, \<open>height_col\<close> and \<open>width_col\<close> at least 1 and a
  positive padding in at least one direction, \<open>im2col_cpu\<close> applied to an image
  whose \<open>channels * height * width\<close> elements are all one writes one into every slot
  whose decoded coordinates are inside the image and zero into every other slot; as
  zero and one differ, the slots holding zero are exactly those decoded outside.
\<close>

theorem im2col_cpu_all_ones_padding:
  fixes data_im :: "('a::zero_neq_one) buffer"
  assumes "representable g" "fits g"
    and "geometry_ok g" "1 \<le> height_col_int g" "1 \<le> width_col_int g"
    and "0 < pad_h g \<or> 0 < pad_w g"
    and "\<forall>i\<in>{0..<channels g * height g * width g}. data_im i = 1"
    and "0 \<le> h" "h < height_col_int g" "0 \<le> w" "w < width_col_int g"
    and "0 \<le> c" "c < channels_col_int g"
  shows "\<exists>out. im2col_cpu data_im (to_c g) data_col = Inr out \<and>
     out (channels_col_int g * width_col_int g * h + channels_col_int g * w + c) =
       (if 0 \<le> spec_h_pad g h c \<and> spec_h_pad g h c < height g \<and>
           0 \<le> spec_w_pad g w c \<and> spec_w_pad g w c < width g then 1 else 0) \<and>
     (out (channels_col_int g * width_col_int g * h + channels_col_int g * w + c) = 0 \<longleftrightarrow>
        \<not> (0 \<le> spec_h_pad g h c \<and> spec_h_pad g h c < height g \<and>
           0 \<le> spec_w_pad g w c \<and> spec_w_pad g w c < width g))"
  using all_ones_padding_int [OF assms(3-13), of data_col]
  by (simp only: im2col_cpu_refines [OF assms(1,3,2)])

text \<open>
  At \<open>padded_example\<close>, output position \<open>(0, 2)\<close> and composite index 1 decode to row
  \<open>-1\<close>: slot 25 receives zero.
\<close>

theorem im2col_cpu_all_ones_padding_witness:
  "representable padded_example \<and> fits padded_example \<and>
   geometry_ok padded_example \<and> 1 \<le> height_col_int padded_example \<and>
   1 \<le> width_col_int padded_example \<and> (0 < pad_h padded_example \<or> 0 < pad_w padded_example) \<and>
   map (\<lambda>i. 1) [0..39] = replicate 40 (1 :: int) \<and>
   (0::int) \<le> 0 \<and> 0 < height_col_int padded_example \<and> (0::int) \<le> 2 \<and> 2 < width_col_int padded_example \<and>
   (0::int) \<le> 1 \<and> 1 < channels_col_int padded_example \<and>
   (\<exists>out. im2col_cpu (\<lambda>i. 1) (to_c padded_example) (\<lambda>k. 5) = Inr out \<and> out 25 = (0::int))"
proof -
  have h: "geometry_ok padded_example" "1 \<le> height_col_int padded_example"
    "1 \<le> width_col_int padded_example" "0 < pad_h padded_example \<or> 0 < pad_w padded_example"
    "\<forall>i\<in>{0..<channels padded_example * height padded_example * width padded_example}.
      (\<lambda>i. 1 :: int) i = 1"
    "(0::int) \<le> 0" "0 < height_col_int padded_example" "(0::int) \<le> 2" "2 < width_col_int padded_example"
    "(0::int) \<le> 1" "1 < channels_col_int padded_example"
    by (simp_all add: geometry_ok_def padded_sizes padded_fields)
  have e: "spec_h_pad padded_example 0 1 = - 1"
    by (simp add: spec_h_pad_def spec_h_offset_def padded_fields)
  from im2col_cpu_all_ones_padding [OF padded_in_range h, of "\<lambda>k. 5"] h padded_in_range
  show ?thesis
    by (simp add: e padded_sizes padded_fields map_replicate_const)
qed

text \<open>
  Without \<open>fits\<close> the statement of C6 is false. At \<open>wrapped_padding\<close> (\<open>pad_h\<close> is
  positive) slot 0 is decoded outside the image and should receive zero, but line 9
  computes \<open>height_col = 0\<close>, nothing is stored, and slot 0 keeps its prior value 7.
\<close>

theorem im2col_cpu_all_ones_padding_wraps:
  "representable wrapped_padding \<and> \<not> fits wrapped_padding \<and>
   geometry_ok wrapped_padding \<and> 1 \<le> height_col_int wrapped_padding \<and>
   1 \<le> width_col_int wrapped_padding \<and>
   (0 < pad_h wrapped_padding \<or> 0 < pad_w wrapped_padding) \<and>
   channels wrapped_padding * height wrapped_padding * width wrapped_padding = 6 \<and>
   map (\<lambda>i. 1) [0..5] = replicate 6 (1 :: int) \<and>
   (0::int) \<le> 0 \<and> 0 < height_col_int wrapped_padding \<and> 0 < width_col_int wrapped_padding \<and>
   0 < channels_col_int wrapped_padding \<and>
   \<not> spec_in_bounds wrapped_padding 0 0 0 \<and>
   value_at (im2col_cpu (\<lambda>i. 1 :: int) (to_c wrapped_padding) (\<lambda>k. 7)) 0 = Some 7 \<and>
   \<not> (\<exists>out. im2col_cpu (\<lambda>i. 1 :: int) (to_c wrapped_padding) (\<lambda>k. 7) = Inr out \<and>
     out (channels_col_int wrapped_padding * width_col_int wrapped_padding * 0 +
          channels_col_int wrapped_padding * 0 + 0) =
       (if 0 \<le> spec_h_pad wrapped_padding 0 0 \<and>
           spec_h_pad wrapped_padding 0 0 < height wrapped_padding \<and>
           0 \<le> spec_w_pad wrapped_padding 0 0 \<and>
           spec_w_pad wrapped_padding 0 0 < width wrapped_padding then 1 else 0) \<and>
     (out (channels_col_int wrapped_padding * width_col_int wrapped_padding * 0 +
          channels_col_int wrapped_padding * 0 + 0) = 0 \<longleftrightarrow>
        \<not> (0 \<le> spec_h_pad wrapped_padding 0 0 \<and>
           spec_h_pad wrapped_padding 0 0 < height wrapped_padding \<and>
           0 \<le> spec_w_pad wrapped_padding 0 0 \<and>
           spec_w_pad wrapped_padding 0 0 < width wrapped_padding)))"
  by (simp add: wrapped_representable wrapped_not_fits wrapped_ok wrapped_padding_sizes
      wrapped_padding_run wrapped_padding_fields spec_h_pad_def spec_h_offset_def
      spec_in_bounds_def value_at_def map_replicate_const)

subsection \<open>Unfold writes every slot once and never reads its output\<close>

text \<open>
  C7. Let the nine parameters be values of C \<open>int\<close>s and let \<open>fits\<close> hold. For a
  geometry with positive parameters and \<open>height_col\<close>, \<open>width_col\<close> at least 1:
  \<open>im2col_cpu\<close> returns; the offsets of the stores that it executes are pairwise
  distinct and are exactly the \<open>height_col * width_col * channels_col\<close> slots of the
  patch matrix; the result is the initial buffer with these stores replayed, and the
  stores do not depend on the buffer; so for any two initial contents of the output
  buffer the two runs agree on every slot of the patch matrix.
\<close>

theorem im2col_cpu_stores_once:
  fixes data_im :: "('a::zero) buffer"
  assumes "representable g" "fits g"
    and "geometry_ok g" "1 \<le> height_col_int g" "1 \<le> width_col_int g"
  shows "\<exists>log out1 out2.
     im2col_stores data_im (to_c g) = Inr log \<and>
     distinct (map fst log) \<and>
     set (map fst log) = {0..<height_col_int g * width_col_int g * channels_col_int g} \<and>
     im2col_cpu data_im (to_c g) col1 = Inr out1 \<and>
     im2col_cpu data_im (to_c g) col2 = Inr out2 \<and>
     out1 = fold (\<lambda>(k, x) f. f(k := x)) log col1 \<and>
     out2 = fold (\<lambda>(k, x) f. f(k := x)) log col2 \<and>
     (\<forall>i\<in>{0..<height_col_int g * width_col_int g * channels_col_int g}. out1 i = out2 i)"
  using stores_once_int [OF assms(3-5), of data_im col1 col2]
  by (simp only: im2col_cpu_refines [OF assms(1,3,2)] im2col_stores_refines [OF assms(1,3,2)])
    blast

text \<open>At \<open>padded_example\<close> the 96 slots are stored once each.\<close>

theorem im2col_cpu_stores_once_witness:
  "representable padded_example \<and> fits padded_example \<and>
   geometry_ok padded_example \<and> 1 \<le> height_col_int padded_example \<and>
   1 \<le> width_col_int padded_example \<and>
   (\<exists>log out1 out2.
      im2col_stores (\<lambda>i. 100 + i :: int) (to_c padded_example) = Inr log \<and>
      distinct (map fst log) \<and> set (map fst log) = {0..<96} \<and>
      im2col_cpu (\<lambda>i. 100 + i :: int) (to_c padded_example) (\<lambda>k. 0) = Inr out1 \<and>
      im2col_cpu (\<lambda>i. 100 + i) (to_c padded_example) (\<lambda>k. k) = Inr out2 \<and>
      map out1 [0..95] = map out2 [0..95])"
proof -
  have h: "geometry_ok padded_example" "1 \<le> height_col_int padded_example"
    "1 \<le> width_col_int padded_example"
    by (simp_all add: geometry_ok_def padded_sizes padded_fields)
  from im2col_cpu_stores_once [OF padded_in_range h, of "\<lambda>i. 100 + i" "\<lambda>k. 0" "\<lambda>k. k"]
  obtain log out1 out2 where
    l: "im2col_stores (\<lambda>i. 100 + i :: int) (to_c padded_example) = Inr log"
    and d: "distinct (map fst log)" "set (map fst log) = {0..<96}"
    and o: "im2col_cpu (\<lambda>i. 100 + i :: int) (to_c padded_example) (\<lambda>k. 0) = Inr out1"
      "im2col_cpu (\<lambda>i. 100 + i :: int) (to_c padded_example) (\<lambda>k. k) = Inr out2"
    and e: "\<forall>i\<in>{0..<96}. out1 i = out2 i"
    by (auto simp: padded_sizes)
  from e have "map out1 [0..95] = map out2 [0..95]"
    using ball_range_map [of 0 96 out1 out2] by simp
  with h l d o padded_in_range show ?thesis by blast
qed

text \<open>
  Without \<open>fits\<close> the statement of C7 is false. At \<open>wrapped_padding\<close> the patch matrix
  has 6 slots, but the function executes no store, and two runs from the buffers
  that hold 7 and 9 everywhere differ at slot 0.
\<close>

theorem im2col_cpu_stores_once_wraps:
  "representable wrapped_padding \<and> \<not> fits wrapped_padding \<and>
   geometry_ok wrapped_padding \<and> 1 \<le> height_col_int wrapped_padding \<and>
   1 \<le> width_col_int wrapped_padding \<and>
   height_col_int wrapped_padding * width_col_int wrapped_padding * channels_col_int wrapped_padding = 6 \<and>
   im2col_stores (\<lambda>i. 1 :: int) (to_c wrapped_padding) = Inr [] \<and>
   im2col_cpu (\<lambda>i. 1 :: int) (to_c wrapped_padding) (\<lambda>k. 7) = Inr (\<lambda>k. 7) \<and>
   im2col_cpu (\<lambda>i. 1 :: int) (to_c wrapped_padding) (\<lambda>k. 9) = Inr (\<lambda>k. 9) \<and>
   \<not> (\<exists>log. im2col_stores (\<lambda>i. 1 :: int) (to_c wrapped_padding) = Inr log \<and>
     set (map fst log) =
       {0..<height_col_int wrapped_padding * width_col_int wrapped_padding * channels_col_int wrapped_padding}) \<and>
   \<not> (\<exists>out1 out2.
     im2col_cpu (\<lambda>i. 1 :: int) (to_c wrapped_padding) (\<lambda>k. 7) = Inr out1 \<and>
     im2col_cpu (\<lambda>i. 1 :: int) (to_c wrapped_padding) (\<lambda>k. 9) = Inr out2 \<and>
     out1 0 = out2 0)"
  by (simp add: wrapped_representable wrapped_not_fits wrapped_ok wrapped_padding_sizes
      wrapped_padding_run)

subsection \<open>Fold leaves uncovered locations at zero\<close>

text \<open>
  C8. Let the nine parameters be values of C \<open>int\<close>s and let \<open>fits\<close> hold. For a
  geometry with positive parameters and \<open>height_col\<close>, \<open>width_col\<close> at least 1, an
  image location that is the decoded target of no patch triple holds zero after
  \<open>col2im_cpu\<close>, whatever the patch matrix and the prior contents of the image
  buffer, for every scalar type with \<open>0\<close> and \<open>+\<close>.
\<close>

theorem col2im_cpu_uncovered_zero:
  fixes data_col :: "('a::{zero,plus}) buffer"
  assumes "representable g" "fits g"
    and "geometry_ok g" "1 \<le> height_col_int g" "1 \<le> width_col_int g"
    and "0 \<le> ch" "ch < channels g" "0 \<le> r" "r < height g" "0 \<le> q" "q < width g"
    and "spec_contributors g ch r q = {}"
  shows "\<exists>out. col2im_cpu data_col (to_c g) data_im = Inr out \<and>
        out ((ch * height g + r) * width g + q) = 0"
  using uncovered_zero_int [OF assms(3,6-12), of data_col data_im]
  by (simp only: col2im_cpu_refines [OF assms(1,3,2)] spec_image_index_def)

text \<open>
  At \<open>sparse_example\<close> (kernel 1, stride 2) no patch covers row 1, column 1.
\<close>

theorem col2im_cpu_uncovered_zero_witness:
  "representable sparse_example \<and> fits sparse_example \<and>
   geometry_ok sparse_example \<and> 1 \<le> height_col_int sparse_example \<and> 1 \<le> width_col_int sparse_example \<and>
   (0::int) \<le> 0 \<and> 0 < channels sparse_example \<and> (0::int) \<le> 1 \<and> 1 < height sparse_example \<and>
   (0::int) \<le> 1 \<and> 1 < width sparse_example \<and> spec_contributors sparse_example 0 1 1 = {} \<and>
   (\<exists>out. col2im_cpu (\<lambda>k. 5) (to_c sparse_example) (\<lambda>i. 9) = Inr out \<and> out 4 = (0::int))"
proof -
  have e: "spec_contributors sparse_example 0 1 1 = {}"
    unfolding contributors_set [symmetric] triples_int_def sparse_sizes
    by (simp add: upto.simps spec_c_im_def spec_h_pad_def spec_w_pad_def spec_h_offset_def
      spec_w_offset_def sparse_fields)
  have h: "geometry_ok sparse_example" "1 \<le> height_col_int sparse_example"
    "1 \<le> width_col_int sparse_example"
    "(0::int) \<le> 0" "0 < channels sparse_example" "(0::int) \<le> 1" "1 < height sparse_example"
    "(0::int) \<le> 1" "1 < width sparse_example"
    by (simp_all add: geometry_ok_def sparse_sizes sparse_fields)
  from col2im_cpu_uncovered_zero [OF sparse_in_range h e, of "\<lambda>k. 5" "\<lambda>i. 9"] h e sparse_in_range
  show ?thesis
    by (simp add: sparse_fields)
qed

text \<open>
  Without \<open>fits\<close> the statement of C8 is false. At \<open>wrapped_image\<close> no patch triple
  decodes to row 0, column 1, but the bound \<open>height * width * channels\<close> of the loop
  of line 36 is \<open>2^31\<close> and wraps to \<open>INT_MIN\<close>: nothing is set to zero, and offset 1
  keeps its prior value 7.
\<close>

theorem col2im_cpu_uncovered_zero_wraps:
  "representable wrapped_image \<and> \<not> fits wrapped_image \<and>
   geometry_ok wrapped_image \<and> 1 \<le> height_col_int wrapped_image \<and> 1 \<le> width_col_int wrapped_image \<and>
   (0::int) \<le> 0 \<and> 0 < channels wrapped_image \<and> 0 < height wrapped_image \<and>
   (0::int) \<le> 1 \<and> 1 < width wrapped_image \<and>
   spec_contributors wrapped_image 0 0 1 = {} \<and>
   channels wrapped_image * height wrapped_image * width wrapped_image = 2147483648 \<and>
   sint (height (to_c wrapped_image) * width (to_c wrapped_image) * channels (to_c wrapped_image)) =
     - 2147483648 \<and>
   value_at (col2im_cpu (\<lambda>k. 5 :: int) (to_c wrapped_image) (\<lambda>i. 7)) 1 = Some 7 \<and>
   \<not> (\<exists>out. col2im_cpu (\<lambda>k. 5 :: int) (to_c wrapped_image) (\<lambda>i. 7) = Inr out \<and>
        out ((0 * height wrapped_image + 0) * width wrapped_image + 1) = 0)"
proof -
  from wrapped_image_run(3) [of "\<lambda>k. 5 :: int" "\<lambda>i. 7"]
  obtain out where o: "col2im_cpu (\<lambda>k. 5 :: int) (to_c wrapped_image) (\<lambda>i. 7) = Inr out"
    and v: "out 1 = 7" by blast
  show ?thesis
    by (simp add: wrapped_representable wrapped_not_fits wrapped_ok wrapped_image_sizes
      wrapped_image_fields wrapped_image_uncovered value_at_def o v wrapped_products)
qed

subsection \<open>Fold is additive\<close>




subsection \<open>Degenerate geometries\<close>

text \<open>
  C10. When the divisions of lines 9 and 10 (37 and 38) do not fault and the
  \<open>height_col\<close> or the \<open>width_col\<close> that they compute is at most zero:
  \<open>im2col_cpu\<close> executes no store and returns the output buffer unchanged;
  \<open>col2im_cpu\<close> returns the image buffer as the loop of line 36 left it, which, when
  \<open>channels * height * width\<close> fits in an \<open>int\<close>, has all
  \<open>channels * height * width\<close> elements zero. With a positive stride and no wrap
  in line 9, \<open>height_col \<le> 0\<close> is the condition
  \<open>height + 2 * pad_h - kernel_h \<le> - stride_h\<close>, and likewise for the width.
\<close>

theorem degenerate_geometry:
  fixes data_im :: "('a::zero) buffer" and patches :: "('b::{zero,plus}) buffer"
  assumes "height_col g = Inr hc" "width_col g = Inr wc"
    and "sint hc \<le> 0 \<or> sint wc \<le> 0"
  shows "im2col_stores data_im g = Inr [] \<and>
     im2col_cpu data_im g data_col = Inr data_col \<and>
     (\<exists>out. col2im_cpu patches g img = Inr out \<and> out = zero_image g img \<and>
        (in32 (sint (channels g) * sint (height g) * sint (width g)) \<longrightarrow>
         (\<forall>i\<in>{0..<sint (channels g) * sint (height g) * sint (width g)}. out i = 0))) \<and>
     (0 < sint (stride_h g) \<longrightarrow>
      in32 (sint (height g) + 2 * sint (pad_h g) - sint (kernel_h g)) \<longrightarrow>
      in32 (c_div (sint (height g) + 2 * sint (pad_h g) - sint (kernel_h g))
              (sint (stride_h g)) + 1) \<longrightarrow>
        (sint hc \<le> 0 \<longleftrightarrow>
         sint (height g) + 2 * sint (pad_h g) - sint (kernel_h g) \<le> - sint (stride_h g))) \<and>
     (0 < sint (stride_w g) \<longrightarrow>
      in32 (sint (width g) + 2 * sint (pad_w g) - sint (kernel_w g)) \<longrightarrow>
      in32 (c_div (sint (width g) + 2 * sint (pad_w g) - sint (kernel_w g))
              (sint (stride_w g)) + 1) \<longrightarrow>
        (sint wc \<le> 0 \<longleftrightarrow>
         sint (width g) + 2 * sint (pad_w g) - sint (kernel_w g) \<le> - sint (stride_w g)))"
proof -
  note e = triples32_empty [OF assms(3)]
  have 1: "im2col_stores data_im g = Inr []"
    by (simp add: im2col_stores_def im2col_with_flat32 [OF assms(1,2)] e)
  have 2: "im2col_cpu data_im g data_col = Inr data_col"
    by (simp add: im2col_cpu_def im2col_with_flat32 [OF assms(1,2)] e)
  have 3: "col2im_cpu patches g img = Inr (zero_image g img)"
    by (simp add: col2im_cpu_flat32 [OF assms(1,2)] e)
  have 4: "\<forall>i\<in>{0..<sint (channels g) * sint (height g) * sint (width g)}.
      zero_image g img i = 0"
    if "in32 (sint (channels g) * sint (height g) * sint (width g))"
    by (simp add: zero_image_apply image_size32 [OF that])
  have 5: "sint hc \<le> 0 \<longleftrightarrow>
         sint (height g) + 2 * sint (pad_h g) - sint (kernel_h g) \<le> - sint (stride_h g)"
    if s: "0 < sint (stride_h g)"
      and n: "in32 (sint (height g) + 2 * sint (pad_h g) - sint (kernel_h g))"
      and q: "in32 (c_div (sint (height g) + 2 * sint (pad_h g) - sint (kernel_h g))
              (sint (stride_h g)) + 1)"
  proof -
    have "height g + 2 * pad_h g - kernel_h g =
        (word_of_int (sint (height g) + 2 * sint (pad_h g) - sint (kernel_h g)) :: cint)"
      by simp
    with n have "sint (height g + 2 * pad_h g - kernel_h g) =
        sint (height g) + 2 * sint (pad_h g) - sint (kernel_h g)"
      by (simp only: sint_of_int32)
    with derived_size_value [OF assms(1) [unfolded height_col_def]] q
    have "sint hc = c_div (sint (height g) + 2 * sint (pad_h g) - sint (kernel_h g))
              (sint (stride_h g)) + 1"
      by simp
    with c_div_succ_nonpos_iff [OF s] show ?thesis by simp
  qed
  have 6: "sint wc \<le> 0 \<longleftrightarrow>
         sint (width g) + 2 * sint (pad_w g) - sint (kernel_w g) \<le> - sint (stride_w g)"
    if s: "0 < sint (stride_w g)"
      and n: "in32 (sint (width g) + 2 * sint (pad_w g) - sint (kernel_w g))"
      and q: "in32 (c_div (sint (width g) + 2 * sint (pad_w g) - sint (kernel_w g))
              (sint (stride_w g)) + 1)"
  proof -
    have "width g + 2 * pad_w g - kernel_w g =
        (word_of_int (sint (width g) + 2 * sint (pad_w g) - sint (kernel_w g)) :: cint)"
      by simp
    with n have "sint (width g + 2 * pad_w g - kernel_w g) =
        sint (width g) + 2 * sint (pad_w g) - sint (kernel_w g)"
      by (simp only: sint_of_int32)
    with derived_size_value [OF assms(2) [unfolded width_col_def]] q
    have "sint wc = c_div (sint (width g) + 2 * sint (pad_w g) - sint (kernel_w g))
              (sint (stride_w g)) + 1"
      by simp
    with c_div_succ_nonpos_iff [OF s] show ?thesis by simp
  qed
  from 1 2 3 4 5 6 show ?thesis by simp
qed

theorem degenerate_geometry_witness:
  "height_col (to_c degenerate_example) = Inr (- 2) \<and>
   width_col (to_c degenerate_example) = Inr (- 2) \<and>
   (sint (- 2 :: cint) \<le> 0 \<or> sint (- 2 :: cint) \<le> 0) \<and>
   im2col_stores (\<lambda>i. 1 :: int) (to_c degenerate_example) = Inr [] \<and>
   im2col_cpu (\<lambda>i. 1 :: int) (to_c degenerate_example) (\<lambda>k. k) = Inr (\<lambda>k. k) \<and>
   (\<exists>out. col2im_cpu (\<lambda>k. 1 :: int) (to_c degenerate_example) (\<lambda>i. 9) = Inr out \<and>
      map out [0..3] = [0, 0, 0, 0])"
proof -
  have h: "height_col (to_c degenerate_example) = Inr (- 2)"
    "width_col (to_c degenerate_example) = Inr (- 2)"
    by (simp_all add: degenerate_derived)
  have d: "sint (- 2 :: cint) \<le> 0 \<or> sint (- 2 :: cint) \<le> 0" by simp
  have r: "in32 (sint (channels (to_c degenerate_example)) *
      sint (height (to_c degenerate_example)) * sint (width (to_c degenerate_example)))"
    by (simp add: degenerate_derived in32_def)
  from degenerate_geometry [OF h d, of "\<lambda>i. 1 :: int" "\<lambda>k. k" "\<lambda>k. 1 :: int" "\<lambda>i. 9"] h d r
  show ?thesis
    by (simp add: degenerate_derived upto.simps)
qed

text \<open>
  Without the hypotheses the statement of C10 is false. At \<open>wrapped_degenerate\<close>
  (\<open>height_col\<close> is \<open>-3\<close>) the bound of the loop of line 36 wraps to \<open>INT_MIN\<close>:
  \<open>col2im_cpu\<close> returns the image buffer untouched, 7 at offset 0. At \<open>trapping\<close>
  the width is degenerate, but line 9 divides \<open>INT_MIN\<close> by \<open>-1\<close>: neither function
  returns.
\<close>

theorem degenerate_geometry_wraps:
  "representable wrapped_degenerate \<and> geometry_ok wrapped_degenerate \<and>
   height_col_int wrapped_degenerate \<le> 0 \<and>
   height wrapped_degenerate + 2 * pad_h wrapped_degenerate - kernel_h wrapped_degenerate
     \<le> - stride_h wrapped_degenerate \<and>
   height_col (to_c wrapped_degenerate) = Inr (- 3) \<and> sint (- 3 :: cint) \<le> 0 \<and>
   width_col (to_c wrapped_degenerate) = Inr 1073741824 \<and>
   (0::int) \<in> {0..<channels wrapped_degenerate * height wrapped_degenerate *
      width wrapped_degenerate} \<and>
   \<not> in32 (sint (channels (to_c wrapped_degenerate)) * sint (height (to_c wrapped_degenerate)) *
     sint (width (to_c wrapped_degenerate))) \<and>
   col2im_cpu (\<lambda>k. 1 :: int) (to_c wrapped_degenerate) (\<lambda>i. 7) = Inr (\<lambda>i. 7) \<and>
   \<not> (\<exists>out. col2im_cpu (\<lambda>k. 1 :: int) (to_c wrapped_degenerate) (\<lambda>i. 7) = Inr out \<and>
        out 0 = 0) \<and>
   representable trapping \<and>
   width trapping + 2 * pad_w trapping - kernel_w trapping \<le> - stride_w trapping \<and>
   width_col_int trapping \<le> 0 \<and>
   im2col_cpu (\<lambda>i. 1 :: int) (to_c trapping) (\<lambda>k. 7) = Inl DivisionOverflow \<and>
   col2im_cpu (\<lambda>k. 1 :: int) (to_c trapping) (\<lambda>i. 7) = Inl DivisionOverflow"
  by (simp add: wrapped_representable wrapped_ok wrapped_degenerate_sizes
      wrapped_degenerate_fields wrapped_degenerate_run trapping_run trapping_fields
      wrapped_products width_col_int_def c_div_def)

end
